(* ===== verification/Prelude.thy ===== *)
theory Prelude
  imports Complex_Main "HOL-Library.Word"
begin

text \<open>
  Shared vocabulary of the development: the widths of Rust's integers, panics as values and
  their sequencing, the two build flags that decide whether a Rust expression panics
  (\<^verbatim>\<open>debug-assertions\<close> and \<^verbatim>\<open>overflow-checks\<close> of \<^verbatim>\<open>Android.bp\<close>), checked arithmetic on
  machine words, and the interface shared by all step relations of the development.
\<close>

unbundle bit_operations_syntax

named_theorems panic_simps \<open>rules that evaluate a computation that may panic\<close>
named_theorems arith_ok \<open>when checked arithmetic does not panic\<close>

section \<open>Machine integers\<close>

type_synonym u8 = "8 word"
type_synonym u16 = "16 word"
type_synonym u32 = "32 word"
type_synonym i32 = "32 word"
type_synonym u64 = "64 word"
type_synonym usize = "64 word"
type_synonym addr = "64 word"

section \<open>Panics\<close>

text \<open>
  Every way a Rust expression of this crate can stop the process: arithmetic overflow, a
  failed \<^verbatim>\<open>debug_assert!\<close>, a failed \<^verbatim>\<open>assert!\<close>, an explicit \<^verbatim>\<open>panic!\<close>, \<^verbatim>\<open>unwrap\<close> of
  \<^verbatim>\<open>None\<close>, \<^verbatim>\<open>unimplemented!\<close> and \<^verbatim>\<open>unreachable!\<close>. The string names the site.
\<close>

datatype panic =
    Overflow
  | Debug_Assert string
  | Assert string
  | Panic string
  | Unwrap_None
  | Unimplemented
  | Unreachable

type_synonym 'a res = "panic + 'a"

definition and_then :: "'a res \<Rightarrow> ('a \<Rightarrow> 'b res) \<Rightarrow> 'b res" where
  "and_then m f = (case m of Inl p \<Rightarrow> Inl p | Inr x \<Rightarrow> f x)"

lemma and_then_Inl [simp, panic_simps]: "and_then (Inl p) f = Inl p"
  by (simp add: and_then_def)

lemma and_then_Inr [simp, panic_simps]: "and_then (Inr x) f = f x"
  by (simp add: and_then_def)

lemma and_then_eq_Inr: "and_then m f = Inr y \<longleftrightarrow> (\<exists>x. m = Inr x \<and> f x = Inr y)"
  by (simp add: and_then_def split: sum.split)

lemma and_then_eq_Inl:
  "and_then m f = Inl p \<longleftrightarrow> m = Inl p \<or> (\<exists>x. m = Inr x \<and> f x = Inl p)"
  by (auto simp: and_then_def split: sum.split)

lemma and_then_assoc: "and_then (and_then m f) g = and_then m (\<lambda>x. and_then (f x) g)"
  by (simp add: and_then_def split: sum.split)

lemma and_then_right_unit [simp]: "and_then m Inr = m"
  by (simp add: and_then_def split: sum.split)

lemma and_then_cong [fundef_cong]:
  "m = m' \<Longrightarrow> (\<And>x. m' = Inr x \<Longrightarrow> f x = g x) \<Longrightarrow> and_then m f = and_then m' g"
  by (simp add: and_then_def split: sum.split)

text \<open>The short-circuit operators, negation and lifting on conditions that may panic.\<close>

definition and_also :: "bool res \<Rightarrow> bool res \<Rightarrow> bool res" where
  "and_also c d = and_then c (\<lambda>b. if b then d else Inr False)"

definition or_else :: "bool res \<Rightarrow> bool res \<Rightarrow> bool res" where
  "or_else c d = and_then c (\<lambda>b. if b then Inr True else d)"

definition not_res :: "bool res \<Rightarrow> bool res" where
  "not_res c = and_then c (\<lambda>b. Inr (\<not> b))"

lemma and_also_simps [simp, panic_simps]:
  "and_also (Inr b) d = (if b then d else Inr False)" "and_also (Inl p) d = Inl p"
  by (simp_all add: and_also_def)

lemma or_else_simps [simp, panic_simps]:
  "or_else (Inr b) d = (if b then Inr True else d)" "or_else (Inl p) d = Inl p"
  by (simp_all add: or_else_def)

lemma not_res_simps [simp, panic_simps]: "not_res (Inr b) = Inr (\<not> b)" "not_res (Inl p) = Inl p"
  by (simp_all add: not_res_def)

text \<open>A \<^verbatim>\<open>for\<close> loop whose body may panic, as the concatenation of the body's outputs.\<close>

fun concat_res :: "('a \<Rightarrow> 'b list res) \<Rightarrow> 'a list \<Rightarrow> 'b list res" where
  "concat_res f [] = Inr []"
| "concat_res f (x # xs) =
     and_then (f x) (\<lambda>ys. and_then (concat_res f xs) (\<lambda>zs. Inr (ys @ zs)))"

lemma concat_res_Inr:
  "(\<And>x. x \<in> set xs \<Longrightarrow> f x = Inr (g x)) \<Longrightarrow> concat_res f xs = Inr (concat (map g xs))"
  by (induction xs) auto

lemma concat_res_map: "concat_res f (map g xs) = concat_res (\<lambda>x. f (g x)) xs"
  by (induction xs) simp_all

section \<open>Build flags\<close>

record build =
  debug_assertions :: bool
  overflow_checks :: bool

text \<open>
  \<^verbatim>\<open>debug_assert!(e)\<close>: the condition is evaluated (and may itself panic) only when debug
  assertions are compiled in.
\<close>

definition debug_assert :: "'b build_scheme \<Rightarrow> string \<Rightarrow> bool res \<Rightarrow> unit res" where
  "debug_assert B s c =
     (if debug_assertions B
      then and_then c (\<lambda>b. if b then Inr () else Inl (Debug_Assert s)) else Inr ())"

definition assert_true :: "string \<Rightarrow> bool \<Rightarrow> unit res" where
  "assert_true s b = (if b then Inr () else Inl (Assert s))"

lemma debug_assert_True [simp, panic_simps]: "debug_assert B s (Inr True) = Inr ()"
  by (simp add: debug_assert_def)

lemma debug_assert_release [simp]: "\<not> debug_assertions B \<Longrightarrow> debug_assert B s c = Inr ()"
  by (simp add: debug_assert_def)

lemma debug_assert_eq_Inr:
  "debug_assert B s c = Inr u \<longleftrightarrow> (debug_assertions B \<longrightarrow> c = Inr True)"
  by (auto simp: debug_assert_def and_then_eq_Inr split: if_splits)

lemma assert_true_True [simp, panic_simps]: "assert_true s True = Inr ()"
  by (simp add: assert_true_def)

lemma assert_true_eq_Inr: "assert_true s b = Inr u \<longleftrightarrow> b"
  by (simp add: assert_true_def)

section \<open>Checked arithmetic\<close>

text \<open>
  \<^verbatim>\<open>a + b\<close>, \<^verbatim>\<open>a - b\<close> and \<^verbatim>\<open>a * b\<close> on unsigned integers: they panic on overflow when overflow
  checks are compiled in and wrap otherwise.
\<close>

definition add_chk :: "'b build_scheme \<Rightarrow> 'a::len word \<Rightarrow> 'a word \<Rightarrow> 'a word res" where
  "add_chk B x y =
     (if overflow_checks B \<and> 2 ^ LENGTH('a) \<le> unat x + unat y then Inl Overflow else Inr (x + y))"

definition sub_chk :: "'b build_scheme \<Rightarrow> 'a::len word \<Rightarrow> 'a word \<Rightarrow> 'a word res" where
  "sub_chk B x y = (if overflow_checks B \<and> x < y then Inl Overflow else Inr (x - y))"

definition mul_chk :: "'b build_scheme \<Rightarrow> 'a::len word \<Rightarrow> 'a word \<Rightarrow> 'a word res" where
  "mul_chk B x y =
     (if overflow_checks B \<and> 2 ^ LENGTH('a) \<le> unat x * unat y then Inl Overflow else Inr (x * y))"

text \<open>\<^verbatim>\<open>x << n\<close>: overflow checks refuse a shift by the width or more; otherwise it is masked.\<close>

definition shl_chk :: "'b build_scheme \<Rightarrow> 'a::len word \<Rightarrow> nat \<Rightarrow> 'a word res" where
  "shl_chk B x n =
     (if overflow_checks B \<and> LENGTH('a) \<le> n then Inl Overflow
      else Inr (push_bit (n mod LENGTH('a)) x))"

lemma shl_chk_ok [arith_ok]: "n < LENGTH('a) \<Longrightarrow> shl_chk B (x :: 'a::len word) n = Inr (push_bit n x)"
  by (simp add: shl_chk_def)

lemma add_chk_ok [arith_ok]:
  "unat x + unat (y :: 'a::len word) < 2 ^ LENGTH('a) \<Longrightarrow> add_chk B x y = Inr (x + y)"
  by (simp add: add_chk_def)

lemma sub_chk_ok [arith_ok]: "y \<le> x \<Longrightarrow> sub_chk B x y = Inr (x - y)"
  by (simp add: sub_chk_def leD)

lemma mul_chk_ok [arith_ok]:
  "unat x * unat (y :: 'a::len word) < 2 ^ LENGTH('a) \<Longrightarrow> mul_chk B x y = Inr (x * y)"
  by (simp add: mul_chk_def)

lemma add_chk_value: "add_chk B x y = Inr z \<Longrightarrow> z = x + y"
  by (simp add: add_chk_def split: if_splits)

lemma sub_chk_value: "sub_chk B x y = Inr z \<Longrightarrow> z = x - y"
  by (simp add: sub_chk_def split: if_splits)

lemma mul_chk_value: "mul_chk B x y = Inr z \<Longrightarrow> z = x * y"
  by (simp add: mul_chk_def split: if_splits)

lemma unat_add_exact:
  "unat x + unat (y :: 'a::len word) < 2 ^ LENGTH('a) \<Longrightarrow> unat (x + y) = unat x + unat y"
  by (simp add: unat_word_ariths)

lemma unat_sub_exact: "y \<le> x \<Longrightarrow> unat (x - y) = unat x - unat (y :: 'a::len word)"
  by (simp add: unat_sub_if' word_le_nat_alt)

lemma unat_zero_minus: "0 < unat w \<Longrightarrow> unat (0 - w) = 2 ^ LENGTH('a) - unat (w :: 'a::len word)"
  unfolding unat_sub_if' by simp

lemma unat_sub_swap: "a \<noteq> b \<Longrightarrow> unat (a - b) + unat (b - a) = 2 ^ 64" for a b :: addr
  using unsigned_less [of a, where ?'a = nat] unsigned_less [of b, where ?'a = nat]
  by (auto simp: unat_sub_if' word_unat_eq_iff)

lemma unat_mult_exact:
  "unat x * unat (y :: 'a::len word) < 2 ^ LENGTH('a) \<Longrightarrow> unat (x * y) = unat x * unat y"
  by (simp add: unat_word_ariths)

lemma unat_of_nat_small: "n < 2 ^ LENGTH('a) \<Longrightarrow> unat (word_of_nat n :: 'a::len word) = n"
  by (simp add: unat_of_nat)

lemma unat_two_power: "s < LENGTH('a) \<Longrightarrow> unat (2 ^ s :: 'a::len word) = 2 ^ s"
proof -
  assume "s < LENGTH('a)"
  then have "(2 :: nat) ^ s < 2 ^ LENGTH('a)" by simp
  then have "unat (word_of_nat (2 ^ s) :: 'a word) = 2 ^ s" by (rule unat_of_nat_small)
  then show ?thesis by simp
qed

lemma add_chk_of_nat [arith_ok]:
  "a + b < 2 ^ LENGTH('a) \<Longrightarrow>
     add_chk B (of_nat a) (of_nat b) = Inr (of_nat (a + b) :: 'a::len word)"
  by (simp add: add_chk_def unat_of_nat_small)

lemma mul_chk_of_nat [arith_ok]:
  assumes "a * b < 2 ^ LENGTH('a)" "a < 2 ^ LENGTH('a)" "b < 2 ^ LENGTH('a)"
  shows "mul_chk B (of_nat a) (of_nat b) = Inr (of_nat (a * b) :: 'a::len word)"
  using assms by (simp add: mul_chk_def unat_of_nat_small)

lemma sub_chk_of_nat [arith_ok]:
  assumes "b \<le> a" "a < 2 ^ LENGTH('a)"
  shows "sub_chk B (of_nat a) (of_nat b) = Inr (of_nat (a - b) :: 'a::len word)"
  using assms by (simp add: sub_chk_def word_less_nat_alt unat_of_nat_small of_nat_diff)

lemma ucast_of_nat_small:
  assumes "n < 2 ^ LENGTH('a)"
  shows "ucast (of_nat n :: 'a::len word) = (of_nat n :: 'b::len word)"
  by (metis assms of_nat_unat unat_of_nat_small)

lemma ucast_u32_nat: "(ucast (n :: u32) :: usize) = of_nat (unat n)"
  by (rule of_nat_unat [symmetric])

lemma unat_ucast_32_64 [simp]: "unat (ucast (v :: u32) :: u64) = unat v"
  using unsigned_less [of v, where ?'a = nat] by (simp add: unsigned_ucast_eq take_bit_eq_mod)

lemma ucast_32_64_eq_0 [simp]: "(ucast (v :: u32) :: u64) = 0 \<longleftrightarrow> v = 0"
  by (metis unat_ucast_32_64 unat_eq_zero)

lemma and_one_nonzero: "(w :: 'a::len word) AND 1 \<noteq> 0 \<longleftrightarrow> bit w 0"
  by (simp add: and_one_eq bit_0 odd_iff_mod_2_eq_one)

lemma bit_above: "unat (v :: 'a::len word) < 2 ^ k \<Longrightarrow> \<not> bit v k"
  using bit_unsigned_iff [where ?'a = nat, of v k] by (simp add: bit_iff_odd [of "unat v"])

lemma scast_low:
  assumes "unat (v :: u32) < 2 ^ 31"
  shows "(scast v :: u64) = ucast v"
proof (rule bit_word_eqI)
  fix n
  assume n: "n < LENGTH(64)"
  have top: "\<not> bit v k" if "31 \<le> k" for k
  proof (rule bit_above)
    have "(2::nat) ^ 31 \<le> 2 ^ k" using that by (intro power_increasing) auto
    then show "unat v < 2 ^ k" using assms by (rule less_le_trans [rotated])
  qed
  show "bit (scast v :: u64) n = bit (ucast v :: u64) n"
    using n by (cases "31 \<le> n") (auto simp: bit_simps top min_def)
qed

lemma drop_bit_one_bound: "unat (w :: 'a::len word) < 2 ^ Suc n \<Longrightarrow> unat (drop_bit 1 w) < 2 ^ n"
  by (simp only: unat_drop_bit_eq) (simp add: drop_bit_eq_div)

lemma drop_bit_one_less: "w \<noteq> 0 \<Longrightarrow> unat (drop_bit 1 (w :: 'a::len word)) < unat w"
  by (simp only: unat_drop_bit_eq) (simp add: drop_bit_eq_div unat_gt_0 flip: word_neq_0_conv)

section \<open>Step relations and their invariants\<close>

text \<open>
  The interface every state machine of the development offers: initial states, a step
  relation and an invariant that the initial states satisfy and every step keeps. The
  reachable states of a machine are the states related to an initial one by the reflexive
  transitive closure of its steps.
\<close>

locale machine =
  fixes initial :: "'s \<Rightarrow> bool"
    and step :: "'s \<Rightarrow> 's \<Rightarrow> bool"
    and inv :: "'s \<Rightarrow> bool"
  assumes inv_initial: "initial s \<Longrightarrow> inv s"
    and inv_step: "inv s \<Longrightarrow> step s t \<Longrightarrow> inv t"
begin

lemma inv_steps: "step\<^sup>*\<^sup>* s t \<Longrightarrow> inv s \<Longrightarrow> inv t"
  by (induction rule: rtranclp_induct) (auto intro: inv_step)

lemma inv_reachable: "initial s \<Longrightarrow> step\<^sup>*\<^sup>* s t \<Longrightarrow> inv t"
  by (blast intro: inv_initial inv_steps)

end

section \<open>Iterators\<close>

text \<open>
  Calling \<^verbatim>\<open>next\<close> until it returns \<^verbatim>\<open>None\<close>, collecting the items. A loop that never sees
  \<^verbatim>\<open>None\<close> does not return, which is the value \<open>None\<close> here.
\<close>

partial_function (option) drain :: "('s \<Rightarrow> ('a \<times> 's) option) \<Rightarrow> 's \<Rightarrow> 'a list option" where
  "drain nxt s =
     (case nxt s of
        None \<Rightarrow> Some []
      | Some (x, s') \<Rightarrow> Option.bind (drain nxt s') (\<lambda>xs. Some (x # xs)))"

text \<open>
  The contract of an iterator: \<open>contents\<close> are the items still to come, and \<open>next\<close> hands out
  the first of them as long as \<open>ok\<close> holds. A client that drains the iterator then gets
  exactly its contents, in order, and the drain returns.
\<close>

locale rust_iterator =
  fixes nxt :: "'s \<Rightarrow> ('a \<times> 's) option"
    and ok :: "'s \<Rightarrow> bool"
    and contents :: "'s \<Rightarrow> 'a list"
  assumes next_None: "ok s \<Longrightarrow> nxt s = None \<Longrightarrow> contents s = []"
    and next_Some: "ok s \<Longrightarrow> nxt s = Some (x, s') \<Longrightarrow> ok s' \<and> contents s = x # contents s'"
begin

lemma drain_contents: "ok s \<Longrightarrow> drain nxt s = Some (contents s)"
proof (induction "contents s" arbitrary: s)
  case Nil
  then have "nxt s = None"
    using next_Some [of s] by (cases "nxt s") force+
  with Nil show ?case by (simp add: drain.simps)
next
  case (Cons x xs)
  then obtain y s' where nxt: "nxt s = Some (y, s')"
    using next_None [of s] by (cases "nxt s") auto
  with Cons.prems have s': "ok s'" and eq: "contents s = y # contents s'"
    using next_Some by blast+
  with Cons.hyps(2) have "drain nxt s' = Some (contents s')"
    by (intro Cons.hyps(1)) auto
  with nxt eq show ?case by (simp add: drain.simps [of nxt s])
qed

end

section \<open>Enumerations read from integers\<close>

text \<open>
  The contract between an enumeration and the integer it is stored as: \<open>num\<close> is the discriminant
  of a variant, \<open>of_num\<close> reads a value back and panics outside the \<open>count\<close> discriminants.
\<close>

locale enum_codec =
  fixes num :: "'e \<Rightarrow> nat"
    and of_num :: "u32 \<Rightarrow> 'e res"
    and count :: nat
  assumes num_less: "num e < count"
    and count_small: "count \<le> 2 ^ 32"
    and of_num_num: "of_num (word_of_nat (num e)) = Inr e"
    and of_num_in: "of_num v = Inr e \<Longrightarrow> num e = unat v"
begin

lemma num_inject: "num a = num b \<Longrightarrow> a = b"
proof -
  assume "num a = num b"
  then have "Inr a = (Inr b :: 'e res)" by (metis of_num_num)
  then show ?thesis by simp
qed

lemma of_num_returns_iff: "(\<exists>e. of_num v = Inr e) \<longleftrightarrow> (\<exists>e. num e = unat v)"
proof
  assume "\<exists>e. num e = unat v"
  then obtain e where "num e = unat v" ..
  then have "of_num v = Inr e" using of_num_num [of e] by simp
  then show "\<exists>e. of_num v = Inr e" ..
qed (auto dest: of_num_in)

lemma of_num_panics: "count \<le> unat v \<Longrightarrow> \<exists>p. of_num v = Inl p"
proof (cases "of_num v")
  case (Inr e)
  assume "count \<le> unat v"
  then show ?thesis using of_num_in [OF Inr] num_less [of e] by simp
qed auto

end

end
