(* ===== verification/F64.thy ===== *)
theory F64
  imports Prelude
begin

text \<open>
  IEEE 754 binary64 arithmetic, as Rust's \<^verbatim>\<open>f64\<close> uses it: values, round to nearest with ties
  to even, the operations \<^verbatim>\<open>gc_trigger.rs\<close> applies (\<^verbatim>\<open>*\<close>, \<^verbatim>\<open>/\<close>, \<^verbatim>\<open>-\<close>, \<^verbatim>\<open><=\<close>) and the casts
  between \<^verbatim>\<open>f64\<close> and 64-bit unsigned integers (\<^verbatim>\<open>as f64\<close> rounds, \<^verbatim>\<open>as u64\<close> and
  \<^verbatim>\<open>as usize\<close> truncate and saturate, and send NaN to 0). Finite non-zero values are kept as
  the rational they denote; rounding computes its exponent and significand, so every
  operation evaluates.
\<close>

section \<open>Rounding of positive rationals to 53 significant bits\<close>

text \<open>The nearest integer, ties to the even one.\<close>

definition rne :: "rat \<Rightarrow> int" where
  "rne x = (let f = \<lfloor>x\<rfloor>; r = x - of_int f in
     if r < 1 / 2 then f else if 1 / 2 < r then f + 1 else if even f then f else f + 1)"

lemma rne_of_int [simp]: "rne (of_int k) = k"
  by (simp add: rne_def)

lemma rne_le_ceiling: "rne x \<le> \<lceil>x\<rceil>"
  by (simp add: rne_def Let_def) linarith

lemma rne_ge_floor: "\<lfloor>x\<rfloor> \<le> rne x"
  by (simp add: rne_def Let_def)

lemma rne_mono: "x \<le> y \<Longrightarrow> rne x \<le> rne y"
proof -
  assume le: "x \<le> y"
  show ?thesis
  proof (cases "\<lfloor>x\<rfloor> = \<lfloor>y\<rfloor>")
    case True
    with le show ?thesis by (auto simp: rne_def Let_def)
  next
    case False
    with le have "\<lfloor>x\<rfloor> + 1 \<le> \<lfloor>y\<rfloor>" using floor_mono [OF le] by linarith
    moreover have "rne x \<le> \<lfloor>x\<rfloor> + 1" by (simp add: rne_def Let_def)
    ultimately show ?thesis using rne_ge_floor [of y] by linarith
  qed
qed

lemma rne_ge_int: "of_int k \<le> x \<Longrightarrow> k \<le> rne x"
  using rne_mono [of "of_int k" x] by simp

lemma rne_le_int: "x \<le> of_int k \<Longrightarrow> rne x \<le> k"
  using rne_mono [of x "of_int k"] by simp

text \<open>The binary logarithm of a positive rational, rounded down.\<close>

function log2i :: "int \<Rightarrow> int" where
  "log2i n = (if n \<le> 1 then 0 else 1 + log2i (n div 2))"
  by pat_completeness auto
termination
  by (relation "measure nat") auto

declare log2i.simps [simp del]

definition ilog2 :: "rat \<Rightarrow> int" where
  "ilog2 x =
     (if 1 \<le> x then log2i \<lfloor>x\<rfloor>
      else let y = 1 / x; j = log2i \<lfloor>y\<rfloor> in if y \<le> 2 powi j then - j else - j - 1)"

lemma powi_two_less_iff [simp]: "(2 :: rat) powi a < 2 powi b \<longleftrightarrow> a < b"
  by (metis linorder_less_linear one_less_numeral_iff order_less_asym
      power_int_strict_increasing semiring_norm(76))

lemma powi_two_le_iff [simp]: "(2 :: rat) powi a \<le> 2 powi b \<longleftrightarrow> a \<le> b"
  using powi_two_less_iff [of b a] by linarith

lemma log2i_nonneg: "0 \<le> log2i n"
  by (induction n rule: log2i.induct) (simp add: log2i.simps)

lemma log2i_bounds: "1 \<le> n \<Longrightarrow> 2 ^ nat (log2i n) \<le> n \<and> n < 2 * 2 ^ nat (log2i n)"
proof (induction n rule: log2i.induct)
  case (1 n)
  show ?case
  proof (cases "n \<le> 1")
    case True
    with "1.prems" have "n = 1" by simp
    then show ?thesis by (simp add: log2i.simps [of 1])
  next
    case False
    with "1.IH" have "2 ^ nat (log2i (n div 2)) \<le> n div 2"
      and "n div 2 < 2 * 2 ^ nat (log2i (n div 2))" by auto
    moreover have "nat (log2i n) = Suc (nat (log2i (n div 2)))"
      using False log2i_nonneg [of "n div 2"] by (simp add: log2i.simps [of n] Suc_nat_eq_nat_zadd1)
    ultimately show ?thesis by (simp, linarith)
  qed
qed

lemma log2i_floor_bounds:
  assumes "1 \<le> (x :: rat)"
  shows "2 powi log2i \<lfloor>x\<rfloor> \<le> x \<and> x < 2 powi (log2i \<lfloor>x\<rfloor> + 1)"
proof -
  define k where "k = nat (log2i \<lfloor>x\<rfloor>)"
  have k: "log2i \<lfloor>x\<rfloor> = int k" by (simp add: k_def log2i_nonneg)
  have b: "2 ^ k \<le> \<lfloor>x\<rfloor>" "\<lfloor>x\<rfloor> < 2 * 2 ^ k"
    using log2i_bounds [of "\<lfloor>x\<rfloor>"] assms by (simp_all add: k_def)
  have "(2 :: rat) ^ k \<le> x" using b(1) by (simp add: le_floor_iff)
  moreover have "x < 2 * 2 ^ k" using b(2) by (simp add: floor_less_iff)
  ultimately show ?thesis by (simp add: k power_int_add)
qed

lemma ilog2_bounds:
  assumes "0 < x"
  shows "2 powi ilog2 x \<le> x \<and> x < 2 powi (ilog2 x + 1)"
proof (cases "1 \<le> x")
  case True
  then show ?thesis using log2i_floor_bounds [of x] by (simp add: ilog2_def)
next
  case False
  define j where "j = log2i \<lfloor>1 / x\<rfloor>"
  have y: "2 powi j \<le> 1 / x" "1 / x < 2 powi (j + 1)"
    using log2i_floor_bounds [of "1 / x"] False assms by (simp_all add: j_def field_simps)
  have inv: "(2 :: rat) powi (- k) = 1 / 2 powi k" for k
    by (simp add: power_int_minus field_simps)
  have up: "x \<le> 2 powi (- j)" and lo: "2 powi (- (j + 1)) < x"
    using y assms unfolding inv by (simp_all add: field_simps)
  show ?thesis
  proof (cases "1 / x \<le> 2 powi j")
    case True
    then have "x = 2 powi (- j)" using y(1) assms unfolding inv by (simp add: field_simps)
    moreover have "ilog2 x = - j"
      using False True by (simp add: ilog2_def Let_def flip: j_def)
    ultimately show ?thesis by simp
  next
    case gt: False
    have "ilog2 x = - (j + 1)"
      using False gt by (simp add: ilog2_def Let_def flip: j_def)
    moreover have "x < 2 powi (- j)"
      using gt assms up unfolding inv by (simp add: field_simps)
    ultimately show ?thesis using lo by simp
  qed
qed

lemma ilog2_ge_iff: "0 < x \<Longrightarrow> k \<le> ilog2 x \<longleftrightarrow> 2 powi k \<le> x"
  using ilog2_bounds [of x] powi_two_le_iff [of k "ilog2 x"] powi_two_le_iff [of "ilog2 x + 1" k]
  by (metis linorder_not_le order_trans zle_add1_eq_le order_less_le_trans)

lemma ilog2_mono: "0 < x \<Longrightarrow> x \<le> y \<Longrightarrow> ilog2 x \<le> ilog2 y"
proof -
  assume x: "0 < x" and xy: "x \<le> y"
  have "2 powi ilog2 x \<le> x" using ilog2_bounds [OF x] by simp
  also have "x \<le> y" by fact
  also have "y < 2 powi (ilog2 y + 1)" using ilog2_bounds [of y] x xy by simp
  finally show ?thesis by simp
qed

text \<open>The exponent of the last place of the result, bounded below by that of the subnormals.\<close>

definition quantum :: "rat \<Rightarrow> int" where
  "quantum x = max (-1074) (ilog2 x - 52)"

definition round_pos :: "rat \<Rightarrow> rat" where
  "round_pos x = of_int (rne (x / 2 powi quantum x)) * 2 powi quantum x"

lemma quantum_mono: "0 < x \<Longrightarrow> x \<le> y \<Longrightarrow> quantum x \<le> quantum y"
  using ilog2_mono [of x y] by (simp add: quantum_def)

lemma round_pos_le:
  assumes x: "0 < x" and e: "quantum x + 53 \<le> e"
  shows "round_pos x \<le> 2 powi e"
proof -
  have "x < 2 powi (ilog2 x + 1)" using ilog2_bounds [OF x] by simp
  also have "\<dots> \<le> 2 powi (quantum x + 53)" by (simp add: quantum_def)
  also have "\<dots> = 2 ^ 53 * 2 powi quantum x" by (simp add: power_int_add)
  finally have "x / 2 powi quantum x \<le> of_int (2 ^ 53)" by (simp add: field_simps)
  then have "rne (x / 2 powi quantum x) \<le> 2 ^ 53" by (rule rne_le_int)
  then have "of_int (rne (x / 2 powi quantum x)) \<le> (2 ^ 53 :: rat)"
    by (metis of_int_le_iff of_int_numeral of_int_power)
  then have "round_pos x \<le> 2 ^ 53 * 2 powi quantum x"
    unfolding round_pos_def by (intro mult_right_mono) auto
  also have "\<dots> = 2 powi (quantum x + 53)" by (simp add: power_int_add)
  also have "\<dots> \<le> 2 powi e" using e by simp
  finally show ?thesis .
qed

lemma round_pos_ge:
  assumes y: "0 < y" and q: "-1074 < quantum y"
  shows "2 powi (quantum y + 52) \<le> round_pos y"
proof -
  have "quantum y + 52 = ilog2 y" using q by (simp add: quantum_def max_def split: if_splits)
  then have "2 powi (quantum y + 52) \<le> y" using ilog2_bounds [OF y] by simp
  then have "of_int (2 ^ 52) \<le> y / 2 powi quantum y" by (simp add: power_int_add field_simps)
  then have "2 ^ 52 \<le> rne (y / 2 powi quantum y)" by (rule rne_ge_int)
  then have "(2 ^ 52 :: rat) \<le> of_int (rne (y / 2 powi quantum y))"
    by (metis of_int_le_iff of_int_numeral of_int_power)
  then have "2 ^ 52 * 2 powi quantum y \<le> round_pos y"
    unfolding round_pos_def by (intro mult_right_mono) auto
  then show ?thesis by (simp add: power_int_add mult.commute)
qed

lemma round_pos_mono:
  assumes x: "0 < x" and xy: "x \<le> y"
  shows "round_pos x \<le> round_pos y"
proof (cases "quantum x = quantum y")
  case True
  have "x / 2 powi quantum y \<le> y / 2 powi quantum y"
    using xy by (simp add: divide_right_mono)
  then have "rne (x / 2 powi quantum y) \<le> rne (y / 2 powi quantum y)" by (rule rne_mono)
  then show ?thesis unfolding round_pos_def True by (intro mult_right_mono) auto
next
  case False
  then have lt: "quantum x + 1 \<le> quantum y" using quantum_mono [OF x xy] by simp
  have "round_pos x \<le> 2 powi (quantum y + 52)" using round_pos_le [OF x] lt by simp
  also have "\<dots> \<le> round_pos y"
    using x xy lt by (intro round_pos_ge) (auto simp: quantum_def)
  finally show ?thesis .
qed

lemma round_pos_exact:
  assumes m: "0 < m" "m < 2 ^ 53" and e: "-1074 \<le> e"
  shows "round_pos (of_int m * 2 powi e) = of_int m * 2 powi e"
proof -
  let ?x = "of_int m * 2 powi e :: rat"
  have pos: "0 < ?x" using m by simp
  have mlt: "(of_int m :: rat) < 2 ^ 53"
    using m(2) by (metis of_int_less_iff of_int_numeral of_int_power)
  have "2 powi ilog2 ?x \<le> ?x" using ilog2_bounds [OF pos] by simp
  also have "?x < 2 ^ 53 * 2 powi e" using mlt by (intro mult_strict_right_mono) auto
  also have "\<dots> = 2 powi (e + 53)" by (simp add: power_int_add)
  finally have "ilog2 ?x < e + 53" by simp
  then have q: "quantum ?x \<le> e" using e by (simp add: quantum_def)
  have "?x / 2 powi quantum ?x = of_int m * 2 powi (e - quantum ?x)"
    by (simp add: power_int_diff)
  also have "\<dots> = of_int (m * 2 ^ nat (e - quantum ?x))"
    using q by (simp add: power_int_def)
  finally have i: "?x / 2 powi quantum ?x = of_int (m * 2 ^ nat (e - quantum ?x))" .
  show ?thesis
    unfolding round_pos_def i rne_of_int by (subst i [symmetric]) simp
qed

lemma round_pos_nonneg: "0 < x \<Longrightarrow> 0 \<le> round_pos x"
  unfolding round_pos_def by (intro mult_nonneg_nonneg) (auto intro: rne_ge_int [of 0, simplified])

lemma round_pos_of_nat: "0 < n \<Longrightarrow> n < 2 ^ 53 \<Longrightarrow> round_pos (of_nat n) = of_nat n"
  using round_pos_exact [of "int n" 0] by simp

section \<open>Values\<close>

text \<open>
  The sign of an infinity or a zero is \<open>True\<close> when it is negative.
\<close>

datatype f64 = NaN | Inf bool | Zero bool | Num rat

definition f64_of_rat :: "rat \<Rightarrow> f64" where
  "f64_of_rat x =
     (if x = 0 then Zero False
      else let y = round_pos \<bar>x\<bar>; s = x < 0 in
        if y = 0 then Zero s else if 1024 \<le> ilog2 y then Inf s else Num (if s then - y else y))"

fun f64_neg :: "f64 \<Rightarrow> bool" where
  "f64_neg NaN = False"
| "f64_neg (Inf s) = s"
| "f64_neg (Zero s) = s"
| "f64_neg (Num x) = (x < 0)"

fun f64_mul :: "f64 \<Rightarrow> f64 \<Rightarrow> f64" where
  "f64_mul NaN y = NaN"
| "f64_mul x NaN = NaN"
| "f64_mul (Inf s) (Zero t) = NaN"
| "f64_mul (Zero s) (Inf t) = NaN"
| "f64_mul (Inf s) y = Inf (s \<noteq> f64_neg y)"
| "f64_mul x (Inf t) = Inf (f64_neg x \<noteq> t)"
| "f64_mul (Zero s) y = Zero (s \<noteq> f64_neg y)"
| "f64_mul x (Zero t) = Zero (f64_neg x \<noteq> t)"
| "f64_mul (Num a) (Num b) = f64_of_rat (a * b)"

fun f64_div :: "f64 \<Rightarrow> f64 \<Rightarrow> f64" where
  "f64_div NaN y = NaN"
| "f64_div x NaN = NaN"
| "f64_div (Inf s) (Inf t) = NaN"
| "f64_div (Inf s) y = Inf (s \<noteq> f64_neg y)"
| "f64_div x (Inf t) = Zero (f64_neg x \<noteq> t)"
| "f64_div (Zero s) (Zero t) = NaN"
| "f64_div x (Zero t) = Inf (f64_neg x \<noteq> t)"
| "f64_div (Zero s) (Num b) = Zero (s \<noteq> (b < 0))"
| "f64_div (Num a) (Num b) = f64_of_rat (a / b)"

fun f64_sub :: "f64 \<Rightarrow> f64 \<Rightarrow> f64" where
  "f64_sub NaN y = NaN"
| "f64_sub x NaN = NaN"
| "f64_sub (Inf s) (Inf t) = (if s = t then NaN else Inf s)"
| "f64_sub (Inf s) y = Inf s"
| "f64_sub x (Inf t) = Inf (\<not> t)"
| "f64_sub (Zero s) (Zero t) = Zero (s \<and> \<not> t)"
| "f64_sub x (Zero t) = x"
| "f64_sub (Zero s) (Num b) = Num (- b)"
| "f64_sub (Num a) (Num b) = f64_of_rat (a - b)"

fun f64_le :: "f64 \<Rightarrow> f64 \<Rightarrow> bool" where
  "f64_le NaN y = False"
| "f64_le x NaN = False"
| "f64_le (Inf s) y = (s \<or> y = Inf False)"
| "f64_le x (Inf t) = (\<not> t)"
| "f64_le (Zero s) (Zero t) = True"
| "f64_le (Zero s) (Num b) = (0 \<le> b)"
| "f64_le (Num a) (Zero t) = (a \<le> 0)"
| "f64_le (Num a) (Num b) = (a \<le> b)"

definition f64_one :: f64 where "f64_one = Num 1"

text \<open>\<^verbatim>\<open>n as f64\<close> of a 64-bit unsigned integer.\<close>

definition f64_of_u64 :: "u64 \<Rightarrow> f64" where
  "f64_of_u64 w = f64_of_rat (of_nat (unat w))"

text \<open>\<^verbatim>\<open>x as u64\<close> (and \<^verbatim>\<open>x as usize\<close>): truncation towards zero, saturating, NaN to 0.\<close>

fun u64_of_f64 :: "f64 \<Rightarrow> u64" where
  "u64_of_f64 NaN = 0"
| "u64_of_f64 (Inf s) = (if s then 0 else - 1)"
| "u64_of_f64 (Zero s) = 0"
| "u64_of_f64 (Num x) =
     (if x < 1 then 0 else if 2 ^ 64 \<le> x then - 1 else of_int \<lfloor>x\<rfloor>)"

section \<open>The facts the heap sizing uses\<close>

declare of_nat_unat [simp del]

lemma unat_u64_of_Num:
  assumes "1 \<le> x" "x < 2 ^ 64"
  shows "unat (u64_of_f64 (Num x)) = nat \<lfloor>x\<rfloor>"
proof -
  have "0 \<le> \<lfloor>x\<rfloor>" using assms(1) by simp
  moreover have "\<lfloor>x\<rfloor> < 2 ^ 64" using assms(2) by (simp add: floor_less_iff)
  ultimately show ?thesis
    using assms by (simp add: unsigned_of_int take_bit_int_eq_self)
qed

lemma f64_of_u64_0 [simp]: "f64_of_u64 0 = Zero False"
  by (simp add: f64_of_u64_def f64_of_rat_def)

lemma f64_of_rat_pos:
  assumes "0 < x"
  shows "f64_of_rat x =
     (if round_pos x = 0 then Zero False else if 2 ^ 1024 \<le> round_pos x then Inf False
      else Num (round_pos x))"
proof (cases "round_pos x = 0")
  case False
  then have "0 < round_pos x" using round_pos_nonneg [OF assms] by simp
  then have "1024 \<le> ilog2 (round_pos x) \<longleftrightarrow> 2 ^ 1024 \<le> round_pos x"
    by (simp only: ilog2_ge_iff power_int_numeral)
  with assms False show ?thesis by (simp only: f64_of_rat_def Let_def) simp
qed (use assms in \<open>simp add: f64_of_rat_def Let_def\<close>)

lemma f64_of_u64_exact:
  assumes "w \<noteq> 0" "unat w < 2 ^ 53"
  shows "f64_of_u64 w = Num (of_nat (unat w))"
proof -
  from assms(1) have pos: "0 < unat w" by (simp add: unat_gt_0)
  have "(of_nat (unat w) :: rat) < of_nat (2 ^ 53)"
    using assms(2) by (simp only: of_nat_less_iff)
  also have "(of_nat (2 ^ 53) :: rat) < 2 ^ 1024" by simp
  finally have "\<not> (2 ^ 1024 :: rat) \<le> of_nat (unat w)" by (simp only: not_le)
  with pos show ?thesis
    unfolding f64_of_u64_def
    by (subst f64_of_rat_pos) (simp_all only: round_pos_of_nat [OF pos assms(2)] of_nat_0_less_iff
          of_nat_eq_0_iff if_False gr_implies_not0)
qed

lemma le_u64_of_f64_of_rat:
  assumes "of_nat (unat n) \<le> x" "n \<noteq> 0" "unat n < 2 ^ 53"
  shows "n \<le> u64_of_f64 (f64_of_rat x)"
proof -
  have pos: "0 < unat n" using assms(2) by (simp add: unat_gt_0)
  then have one: "(1 :: rat) \<le> of_nat (unat n)" by simp
  with assms(1) have x: "0 < x" by linarith
  have r: "of_nat (unat n) \<le> round_pos x"
    using round_pos_mono [of "of_nat (unat n)" x] round_pos_of_nat [OF pos assms(3)] assms(1) pos
    by simp
  show ?thesis
  proof (cases "round_pos x < 2 ^ 64")
    case True
    have "int (unat n) \<le> \<lfloor>round_pos x\<rfloor>" using r by (simp add: le_floor_iff)
    then have "unat n \<le> nat \<lfloor>round_pos x\<rfloor>" by linarith
    also have "\<dots> = unat (u64_of_f64 (Num (round_pos x)))"
      using True r one by (intro unat_u64_of_Num [symmetric]) linarith+
    finally have "n \<le> u64_of_f64 (Num (round_pos x))" by (simp add: word_le_nat_alt)
    moreover have "round_pos x < 2 ^ 1024" using True by (rule less_trans) simp
    moreover have "round_pos x \<noteq> 0" using r one by linarith
    ultimately show ?thesis using x by (simp add: f64_of_rat_pos)
  next
    case False
    then have "u64_of_f64 (f64_of_rat x) = - 1" using x by (simp add: f64_of_rat_pos)
    then show ?thesis by simp
  qed
qed

text \<open>Scaling a count by a factor of at least one never makes it smaller.\<close>

lemma f64_scale_ge:
  assumes "f64_le f64_one c" "unat n < 2 ^ 53"
  shows "n \<le> u64_of_f64 (f64_mul (f64_of_u64 n) c)"
proof (cases "n = 0")
  case False
  note n = f64_of_u64_exact [OF False assms(2)]
  from False have pos: "0 < unat n" by (simp add: unat_gt_0)
  show ?thesis
  proof (cases c)
    case (Num q)
    with assms(1) have "1 \<le> q" by (simp add: f64_one_def)
    then have "of_nat (unat n) \<le> (of_nat (unat n) :: rat) * q"
      using pos by (simp add: mult_le_cancel_left1)
    then show ?thesis
      using le_u64_of_f64_of_rat [OF _ False assms(2)] by (simp add: Num n)
  qed (use assms(1) pos in \<open>auto simp: n f64_one_def\<close>)
qed simp

text \<open>Scaling a count by a factor of at most a power of two multiplies it by at most that.\<close>

lemma u64_of_f64_of_rat_le:
  assumes "0 < x" "x \<le> of_nat k * 2 ^ e" "0 < k" "k < 2 ^ 53"
  shows "unat (u64_of_f64 (f64_of_rat x)) \<le> k * 2 ^ e"
proof -
  have "round_pos x \<le> round_pos (of_nat k * 2 ^ e)" using assms(1,2) by (rule round_pos_mono)
  also have "\<dots> = of_nat k * 2 ^ e" using round_pos_exact [of "int k" "int e"] assms(3,4) by simp
  finally have r: "round_pos x \<le> of_nat (k * 2 ^ e)" by simp
  have sat: "unat (w :: u64) \<le> k * 2 ^ e" if "2 ^ 64 \<le> k * 2 ^ e" for w
    using unsigned_less [of w, where ?'a = nat] that by simp
  show ?thesis
  proof (cases "round_pos x < 2 ^ 64")
    case False
    then have "(2 :: rat) ^ 64 \<le> of_nat (k * 2 ^ e)" using r by linarith
    then have "2 ^ 64 \<le> k * 2 ^ e" by (metis of_nat_le_iff of_nat_numeral of_nat_power)
    then show ?thesis by (rule sat)
  next
    case True
    then have "round_pos x < 2 ^ 1024" by (rule less_trans) simp
    then have "f64_of_rat x = (if round_pos x = 0 then Zero False else Num (round_pos x))"
      using assms(1) by (simp add: f64_of_rat_pos)
    moreover have "unat (u64_of_f64 (Num (round_pos x))) \<le> k * 2 ^ e" if "1 \<le> round_pos x"
    proof -
      have "\<lfloor>round_pos x\<rfloor> \<le> int (k * 2 ^ e)" using r by (simp add: floor_le_iff)
      then show ?thesis using unat_u64_of_Num [OF that True] by linarith
    qed
    ultimately show ?thesis by (cases "1 \<le> round_pos x") auto
  qed
qed

lemma f64_scale_le:
  assumes c: "c = Num q" "0 < q" "q \<le> 2 ^ e" and n: "unat n < 2 ^ 53"
  shows "unat (u64_of_f64 (f64_mul (f64_of_u64 n) c)) \<le> unat n * 2 ^ e"
proof (cases "n = 0")
  case True
  then show ?thesis by (simp add: c)
next
  case False
  then have pos: "0 < unat n" by (simp add: unat_gt_0)
  have "of_nat (unat n) * q \<le> of_nat (unat n) * 2 ^ e" using c(3) by (simp add: mult_left_mono)
  moreover have "0 < of_nat (unat n) * q" using pos c(2) by simp
  ultimately show ?thesis
    using u64_of_f64_of_rat_le [OF _ _ pos n] by (simp add: c(1) f64_of_u64_exact [OF False n])
qed

lemma u64_of_f64_of_u64: "unat n < 2 ^ 53 \<Longrightarrow> u64_of_f64 (f64_mul (f64_of_u64 n) f64_one) = n"
proof (rule antisym)
  assume n: "unat n < 2 ^ 53"
  show "u64_of_f64 (f64_mul (f64_of_u64 n) f64_one) \<le> n"
    using f64_scale_le [OF _ _ _ n, of f64_one 1 0] by (simp add: f64_one_def word_le_nat_alt)
  show "n \<le> u64_of_f64 (f64_mul (f64_of_u64 n) f64_one)"
    using n by (intro f64_scale_ge) (simp_all add: f64_one_def)
qed

text \<open>The rules that evaluate an operation at concrete values.\<close>

lemmas f64_eval =
  f64_of_u64_def f64_of_rat_def round_pos_def quantum_def ilog2_def log2i.simps rne_def
  f64_one_def Let_def

end
