(* ===== verification/Binding.thy ===== *)
theory Binding
  imports F64
begin

text \<open>
  The types of \<^verbatim>\<open>lib.rs\<close> that the other components share, the table of upcalls into ART and
  the parameters that stand for code outside this crate: the helper functions of
  \<^verbatim>\<open>mmtk::util\<close> and the C++ functions behind the upcall table. A definition that uses
  one of them takes it from its environment argument; what the crate relies on is stated
  as a predicate on the environment and appears as a hypothesis where it is needed.
\<close>

section \<open>Types of the binding\<close>

text \<open>Byte-addressed memory; \<open>mem a\<close> is the byte at address \<open>a\<close>.\<close>

type_synonym mem = "addr \<Rightarrow> u8"

text \<open>An \<^verbatim>\<open>ObjectReference\<close> is the (non-zero) raw address of an object.\<close>

type_synonym objref = addr

text \<open>\<^verbatim>\<open>VMThread\<close>, \<^verbatim>\<open>VMMutatorThread\<close>, \<^verbatim>\<open>VMWorkerThread\<close> and \<^verbatim>\<open>*mut Mutator\<close> are opaque pointers.\<close>

type_synonym tls = addr
type_synonym mutator = addr

datatype ArtSlot = ArtSlot (slot_address: addr)

datatype RefProcessingPhase = Phase1 | Phase2 | Phase3

datatype GcThreadKind = Worker

datatype AllocationError = HeapOutOfMemory | MmapOutOfMemory

datatype ArtObjectWithNativeRootsType = Roots_Class | Roots_DexCache | Roots_ClassLoader

text \<open>\<^verbatim>\<open>#[derive(Ord, PartialOrd)]\<close> of \<^verbatim>\<open>ArtSlot\<close>: slots are ordered by their addresses.\<close>

instantiation ArtSlot :: linorder
begin

definition less_eq_ArtSlot :: "ArtSlot \<Rightarrow> ArtSlot \<Rightarrow> bool" where
  "less_eq_ArtSlot s t \<longleftrightarrow> slot_address s \<le> slot_address t"

definition less_ArtSlot :: "ArtSlot \<Rightarrow> ArtSlot \<Rightarrow> bool" where
  "less_ArtSlot s t \<longleftrightarrow> slot_address s < slot_address t"

instance
  by standard (auto simp: less_eq_ArtSlot_def less_ArtSlot_def ArtSlot.expand)

end

text \<open>
  The closures handed to C++: a function pointer (here: which Rust function it points to)
  and the address of the Rust context passed back as the last argument.
\<close>

datatype buffer_func =
    Report_Nodes
  | Report_Slots
  | Report_VM_Space_Nodes
  | Object_Graph_Report_Roots

record NodesClosure =
  nodes_func :: buffer_func
  nodes_data :: addr

record SlotsClosure =
  slots_func :: buffer_func
  slots_data :: addr

record RustBuffer =
  buf_ptr :: addr
  buf_len :: usize
  buf_capacity :: usize

record RustObjectReferenceBuffer =
  objects_ptr :: addr
  objects_len :: usize
  objects_capacity :: usize

record RustAllocatedRegionBuffer =
  regions_ptr :: addr
  regions_len :: usize
  regions_capacity :: usize

section \<open>The upcall table\<close>

text \<open>
  \<^verbatim>\<open>ArtUpcalls\<close>: the functions ART hands over at initialization. An upcall that only reads
  the heap is a function of memory; one that acts on ART is a function on the state \<open>'w\<close>
  of everything outside this crate. The upcalls that take a \<^verbatim>\<open>ScanObjectClosure\<close> are given
  by the slots they pass to it, in order; \<^verbatim>\<open>for_all_mutators\<close> by the mutators it visits.
  \<^verbatim>\<open>process_references\<close> receives the tracing closure of the current collection.
\<close>

record 'w ArtUpcalls =
  size_of :: "mem \<Rightarrow> objref \<Rightarrow> usize"
  scan_object_upcall :: "mem \<Rightarrow> objref \<Rightarrow> ArtSlot list"
  scan_native_roots :: "mem \<Rightarrow> objref \<Rightarrow> ArtObjectWithNativeRootsType \<Rightarrow> ArtSlot list"
  process_referent :: "mem \<Rightarrow> objref \<Rightarrow> objref \<Rightarrow> ArtSlot list"
  is_valid_object :: "mem \<Rightarrow> objref \<Rightarrow> bool"
  dump_object_upcall :: "objref \<Rightarrow> 'w \<Rightarrow> 'w"
  block_for_gc_upcall :: "tls \<Rightarrow> 'w \<Rightarrow> 'w"
  spawn_gc_thread_upcall :: "tls \<Rightarrow> GcThreadKind \<Rightarrow> addr \<Rightarrow> 'w \<Rightarrow> 'w"
  suspend_mutators :: "tls \<Rightarrow> 'w \<Rightarrow> 'w"
  resume_mutators_upcall :: "tls \<Rightarrow> 'w \<Rightarrow> 'w"
  number_of_mutators_upcall :: "'w \<Rightarrow> usize"
  is_mutator_upcall :: "tls \<Rightarrow> 'w \<Rightarrow> bool"
  get_mmtk_mutator :: "tls \<Rightarrow> 'w \<Rightarrow> mutator"
  for_all_mutators :: "'w \<Rightarrow> mutator list"
  scan_all_roots :: "SlotsClosure \<Rightarrow> 'w \<Rightarrow> 'w"
  scan_vm_space_objects_upcall :: "NodesClosure \<Rightarrow> 'w \<Rightarrow> 'w"
  process_references ::
    "tls \<Rightarrow> ('w \<Rightarrow> objref \<Rightarrow> 'w \<times> objref) \<Rightarrow> RefProcessingPhase \<Rightarrow> bool \<Rightarrow> 'w \<Rightarrow> 'w"
  sweep_system_weaks :: "'w \<Rightarrow> 'w"
  set_has_zygote_space_in_art :: "bool \<Rightarrow> 'w \<Rightarrow> 'w"
  throw_out_of_memory_error :: "tls \<Rightarrow> AllocationError \<Rightarrow> 'w \<Rightarrow> 'w"

section \<open>Helpers of mmtk-core\<close>

text \<open>
  The functions and constants of \<^verbatim>\<open>mmtk::util\<close> the crate computes with.
\<close>

record 'w env = build +
  upcalls :: "'w ArtUpcalls"
  from_raw_address :: "addr \<Rightarrow> objref option"
  raw_align_up :: "usize \<Rightarrow> usize \<Rightarrow> usize"
  raw_is_aligned :: "usize \<Rightarrow> usize \<Rightarrow> bool"
  is_aligned_to :: "addr \<Rightarrow> usize \<Rightarrow> bool"
  chunk_align_down :: "addr \<Rightarrow> addr"
  chunk_align_up :: "addr \<Rightarrow> addr"
  BYTES_IN_CHUNK :: usize
  LOG_BYTES_IN_PAGE :: nat

text \<open>What their documentation promises, as named hypotheses.\<close>

definition from_raw_address_law :: "'w env \<Rightarrow> bool" where
  "from_raw_address_law E \<longleftrightarrow> (\<forall>a. a \<noteq> 0 \<longrightarrow> from_raw_address E a = Some a)"

definition align_up_nat :: "nat \<Rightarrow> nat \<Rightarrow> nat" where
  "align_up_nat n k = (n + k - 1) div k * k"

definition raw_align_up_law :: "'w env \<Rightarrow> bool" where
  "raw_align_up_law E \<longleftrightarrow>
     (\<forall>v s. s < 64 \<longrightarrow> unat v + 2 ^ s \<le> 2 ^ 64 \<longrightarrow>
        raw_align_up E v (2 ^ s) = word_of_nat (align_up_nat (unat v) (2 ^ s)))"

definition raw_is_aligned_law :: "'w env \<Rightarrow> bool" where
  "raw_is_aligned_law E \<longleftrightarrow>
     (\<forall>v s. s < 64 \<longrightarrow> raw_is_aligned E v (2 ^ s) = (unat v mod 2 ^ s = 0))"

definition is_aligned_to_law :: "'w env \<Rightarrow> bool" where
  "is_aligned_to_law E \<longleftrightarrow>
     (\<forall>a s. s < 64 \<longrightarrow> is_aligned_to E a (2 ^ s) = (unat a mod 2 ^ s = 0))"

definition chunk_law :: "'w env \<Rightarrow> bool" where
  "chunk_law E \<longleftrightarrow>
     BYTES_IN_CHUNK E = 2 ^ 22 \<and>
     (\<forall>a. chunk_align_down E a = word_of_nat (unat a div 2 ^ 22 * 2 ^ 22)) \<and>
     (\<forall>a. unat a + 2 ^ 22 \<le> 2 ^ 64 \<longrightarrow>
        chunk_align_up E a = word_of_nat (align_up_nat (unat a) (2 ^ 22)))"

definition page_law :: "'w env \<Rightarrow> bool" where
  "page_law E \<longleftrightarrow> LOG_BYTES_IN_PAGE E = 12"

section \<open>Facts on alignment\<close>

lemma align_up_nat_ge: "0 < k \<Longrightarrow> n \<le> align_up_nat n k"
proof -
  assume k: "0 < k"
  have "n + k - 1 = (n + k - 1) div k * k + (n + k - 1) mod k" by simp
  moreover have "(n + k - 1) mod k \<le> k - 1"
    using k by (metis Suc_pred' less_Suc_eq_le mod_less_divisor)
  ultimately show ?thesis unfolding align_up_nat_def using k by linarith
qed

lemma align_up_nat_less: "0 < k \<Longrightarrow> align_up_nat n k < n + k"
proof -
  assume k: "0 < k"
  have "(n + k - 1) div k * k \<le> n + k - 1" by simp
  with k show ?thesis unfolding align_up_nat_def by linarith
qed

lemma align_up_nat_dvd: "k dvd align_up_nat n k"
  by (simp add: align_up_nat_def)

lemma align_up_nat_id: "0 < k \<Longrightarrow> k dvd n \<Longrightarrow> align_up_nat n k = n"
proof -
  assume k: "0 < k" and d: "k dvd n"
  from d obtain q where n: "n = k * q" by (elim dvdE)
  have "(k * q + (k - 1)) div k = q"
    using k by (intro div_nat_eqI) auto
  then show ?thesis using k by (simp add: align_up_nat_def n mult.commute)
qed

lemma align_up_nat_mono: "m \<le> n \<Longrightarrow> align_up_nat m k \<le> align_up_nat n k"
  by (simp add: align_up_nat_def div_le_mono diff_le_mono)

lemma unat_align_up:
  assumes "raw_align_up_law E" "s < 64" "unat v + 2 ^ s \<le> 2 ^ 64"
  shows "unat (raw_align_up E v (2 ^ s)) = align_up_nat (unat v) (2 ^ s)"
proof -
  have "align_up_nat (unat v) (2 ^ s) < unat v + 2 ^ s" by (rule align_up_nat_less) simp
  then have "align_up_nat (unat v) (2 ^ s) < 2 ^ 64" using assms(3) by linarith
  then show ?thesis
    using assms by (simp add: raw_align_up_law_def unat_of_nat_small)
qed

lemma raw_align_up_of_nat:
  assumes "raw_align_up_law E" "s < 64" "n + 2 ^ s \<le> 2 ^ 64"
  shows "raw_align_up E (of_nat n) (2 ^ s) = of_nat (align_up_nat n (2 ^ s))"
proof -
  have "(0::nat) < 2 ^ s" by simp
  with assms(3) have "n < 2 ^ 64" by linarith
  then have u: "unat (of_nat n :: usize) = n" by (intro unat_of_nat_small) simp
  have "unat (of_nat n :: usize) + 2 ^ s \<le> 2 ^ 64" unfolding u by (rule assms(3))
  with assms(1,2) have "raw_align_up E (of_nat n) (2 ^ s) = of_nat (align_up_nat (unat (of_nat n :: usize)) (2 ^ s))"
    unfolding raw_align_up_law_def by blast
  then show ?thesis unfolding u .
qed

lemma raw_is_aligned_of_nat:
  assumes "raw_is_aligned_law E" "s < 64" "n < 2 ^ 64"
  shows "raw_is_aligned E (of_nat n) (2 ^ s) \<longleftrightarrow> n mod 2 ^ s = 0"
proof -
  have u: "unat (of_nat n :: usize) = n" using assms(3) by (intro unat_of_nat_small) simp
  have "raw_is_aligned E (of_nat n) (2 ^ s) \<longleftrightarrow> unat (of_nat n :: usize) mod 2 ^ s = 0"
    by (rule raw_is_aligned_law_def [THEN iffD1, OF assms(1), rule_format, OF assms(2)])
  then show ?thesis unfolding u .
qed

section \<open>A concrete environment\<close>

text \<open>
  An environment in which the laws hold, for the concrete runs of the development: the
  debug build of \<^verbatim>\<open>Android.bp\<close>, with any upcalls; the idle ones report nothing, accept every
  object and leave the state alone.
\<close>

definition idle_upcalls :: "'w ArtUpcalls" where
  "idle_upcalls =
     \<lparr>size_of = (\<lambda>m ob. 0), scan_object_upcall = (\<lambda>m ob. []), scan_native_roots = (\<lambda>m ob t. []),
      process_referent = (\<lambda>m k ob. []), is_valid_object = (\<lambda>m ob. True),
      dump_object_upcall = (\<lambda>ob w. w), block_for_gc_upcall = (\<lambda>t w. w),
      spawn_gc_thread_upcall = (\<lambda>t k c w. w), suspend_mutators = (\<lambda>t w. w),
      resume_mutators_upcall = (\<lambda>t w. w), number_of_mutators_upcall = (\<lambda>w. 0),
      is_mutator_upcall = (\<lambda>t w. True), get_mmtk_mutator = (\<lambda>t w. 0),
      for_all_mutators = (\<lambda>w. []), scan_all_roots = (\<lambda>c w. w),
      scan_vm_space_objects_upcall = (\<lambda>c w. w), process_references = (\<lambda>t c p s w. w),
      sweep_system_weaks = (\<lambda>w. w), set_has_zygote_space_in_art = (\<lambda>b w. w),
      throw_out_of_memory_error = (\<lambda>t e w. w)\<rparr>"

definition android_build :: build where
  "android_build = \<lparr>debug_assertions = True, overflow_checks = True\<rparr>"

definition env_with :: "'w ArtUpcalls \<Rightarrow> 'w env" where
  "env_with u =
     \<lparr>debug_assertions = True, overflow_checks = True, upcalls = u,
      from_raw_address = (\<lambda>a. if a = 0 then None else Some a),
      raw_align_up = (\<lambda>v k. word_of_nat (align_up_nat (unat v) (unat k))),
      raw_is_aligned = (\<lambda>v k. unat v mod unat k = 0),
      is_aligned_to = (\<lambda>a k. unat a mod unat k = 0),
      chunk_align_down = (\<lambda>a. word_of_nat (unat a div 2 ^ 22 * 2 ^ 22)),
      chunk_align_up = (\<lambda>a. word_of_nat (align_up_nat (unat a) (2 ^ 22))),
      BYTES_IN_CHUNK = 2 ^ 22, LOG_BYTES_IN_PAGE = 12\<rparr>"

abbreviation concrete_env :: "unit env" where
  "concrete_env \<equiv> env_with idle_upcalls"

lemma env_with_laws:
  "from_raw_address_law (env_with u)" "raw_align_up_law (env_with u)"
  "raw_is_aligned_law (env_with u)" "is_aligned_to_law (env_with u)"
  "chunk_law (env_with u)" "page_law (env_with u)"
  by (simp_all add: env_with_def from_raw_address_law_def raw_align_up_law_def
      raw_is_aligned_law_def is_aligned_to_law_def chunk_law_def page_law_def unat_two_power)

lemmas concrete_env_laws = env_with_laws [where u = "idle_upcalls :: unit ArtUpcalls"]

end
