(* ===== verification/Gc_Trigger.thy ===== *)
theory Gc_Trigger
  imports Binding
begin

text \<open>
  \<^verbatim>\<open>gc_trigger.rs\<close> as one thread runs it: the trigger's state and every operation of
  \<^verbatim>\<open>ArtTrigger\<close>, the invariant of the heap limits, what a collection leaves behind, and when
  a collection is requested. The atomics are fields of the state here; the interleavings of
  several threads are the subject of \<^verbatim>\<open>Gc_Trigger_Conc\<close>. Values the trigger obtains from MMTk
  (reserved pages, whether the collection was a nursery collection, whether the application
  is jank perceptible) are arguments.
\<close>

section \<open>State\<close>

record ArtTriggerInit =
  init_min_free :: usize
  init_max_free :: usize
  init_initial_size :: usize
  init_capacity :: usize
  init_growth_limit :: usize
  init_target_utilization :: f64
  init_foreground_heap_growth_multiplier :: f64

record ArtTrigger =
  min_free :: usize
  max_free :: usize
  capacity :: usize
  growth_limit :: usize
  target_utilization :: f64
  target_footprint :: usize
  pending_allocation :: usize
  reserved_pages_before_gc :: usize
  concurrent_start_pages :: usize
  foreground_heap_growth_multiplier :: f64
  min_foreground_target_footprint :: usize
  min_foreground_concurrent_start_pages :: usize

section \<open>Operations\<close>

definition trigger_new ::
  "'w env \<Rightarrow> usize \<Rightarrow> usize \<Rightarrow> usize \<Rightarrow> usize \<Rightarrow> usize \<Rightarrow> f64 \<Rightarrow> f64 \<Rightarrow> ArtTrigger" where
  "trigger_new E minf maxf initial cap limit util mult =
     \<lparr>min_free = drop_bit (LOG_BYTES_IN_PAGE E) minf,
      max_free = drop_bit (LOG_BYTES_IN_PAGE E) maxf,
      capacity = drop_bit (LOG_BYTES_IN_PAGE E) cap,
      growth_limit = drop_bit (LOG_BYTES_IN_PAGE E) limit,
      target_utilization = util,
      target_footprint = drop_bit (LOG_BYTES_IN_PAGE E) initial,
      pending_allocation = 0,
      reserved_pages_before_gc = 0,
      concurrent_start_pages = - 1,
      foreground_heap_growth_multiplier = mult,
      min_foreground_target_footprint = 0,
      min_foreground_concurrent_start_pages = 0\<rparr>"

definition get_heap_growth_multiplier :: "ArtTrigger \<Rightarrow> bool \<Rightarrow> f64" where
  "get_heap_growth_multiplier t jank_perceptible =
     (if \<not> jank_perceptible then f64_one else foreground_heap_growth_multiplier t)"

definition set_ideal_footprint :: "usize \<Rightarrow> ArtTrigger \<Rightarrow> ArtTrigger" where
  "set_ideal_footprint tf t =
     t\<lparr>target_footprint := (if growth_limit t < tf then growth_limit t else tf)\<rparr>"

definition set_concurrent_start_pages :: "ArtTrigger \<Rightarrow> ArtTrigger" where
  "set_concurrent_start_pages t = t"

definition clamp_growth_limit_inner :: "ArtTrigger \<Rightarrow> ArtTrigger" where
  "clamp_growth_limit_inner t = t\<lparr>capacity := growth_limit t\<rparr>"

definition clear_growth_limit :: "ArtTrigger \<Rightarrow> ArtTrigger" where
  "clear_growth_limit t =
     (let cap = capacity t; limit = growth_limit t;
          t' = (if target_footprint t = limit \<and> limit < cap
                then set_concurrent_start_pages (t\<lparr>target_footprint := cap\<rparr>) else t)
      in t'\<lparr>growth_limit := cap\<rparr>)"

text \<open>
  \<^verbatim>\<open>compare_exchange\<close> on \<^verbatim>\<open>target_footprint\<close>: \<open>Inr\<close> the updated state, or \<open>Inl\<close> the current
  value.
\<close>

definition compare_exchange_target :: "usize \<Rightarrow> usize \<Rightarrow> ArtTrigger \<Rightarrow> usize + ArtTrigger" where
  "compare_exchange_target expected new t =
     (if target_footprint t = expected then Inr (t\<lparr>target_footprint := new\<rparr>)
      else Inl (target_footprint t))"

partial_function (option) jank_switch_loop :: "usize \<Rightarrow> ArtTrigger \<Rightarrow> ArtTrigger option" where
  "jank_switch_loop tf t =
     (case compare_exchange_target tf (min_foreground_target_footprint t) t of
        Inr t' \<Rightarrow> Some t'
      | Inl current \<Rightarrow> jank_switch_loop current t)"

definition grow_heap_on_jank_perceptible_switch :: "ArtTrigger \<Rightarrow> ArtTrigger option" where
  "grow_heap_on_jank_perceptible_switch t =
     (let tf = target_footprint t in
      if tf < min_foreground_target_footprint t then jank_switch_loop tf t else Some t)"

definition target_and_growth ::
  "'b build_scheme \<Rightarrow> usize \<Rightarrow> f64 \<Rightarrow> bool \<Rightarrow> ArtTrigger \<Rightarrow> (usize \<times> usize) res" where
  "target_and_growth B reserved multiplier nursery t =
     (if nursery then
        let adjusted_max_free = u64_of_f64 (f64_mul (f64_of_u64 (max_free t)) multiplier) in
        and_then (add_chk B reserved adjusted_max_free) (\<lambda>s.
        if s < target_footprint t then Inr (s, max_free t)
        else Inr (max reserved (target_footprint t), 0))
      else
        let delta = u64_of_f64 (f64_mul (f64_of_u64 reserved)
              (f64_sub (f64_div f64_one (target_utilization t)) f64_one)) in
        and_then (debug_assert B ''delta as usize <= usize::MAX'' (Inr (delta \<le> - 1))) (\<lambda>_.
        let grow_pages = max (min delta (max_free t)) (min_free t) in
        and_then (add_chk B reserved (u64_of_f64 (f64_mul (f64_of_u64 grow_pages) multiplier)))
          (\<lambda>s. Inr (s, grow_pages))))"

definition add_pending ::
  "'b build_scheme \<Rightarrow> usize \<Rightarrow> usize \<Rightarrow> ArtTrigger \<Rightarrow> usize res" where
  "add_pending B reserved target t =
     and_then (sub_chk B target reserved) (\<lambda>free.
     if free < pending_allocation t then add_chk B target (pending_allocation t)
     else Inr target)"

definition foreground_target ::
  "'b build_scheme \<Rightarrow> usize \<Rightarrow> f64 \<Rightarrow> usize \<Rightarrow> ArtTrigger \<Rightarrow> usize res" where
  "foreground_target B reserved multiplier grow_pages t =
     (if f64_le multiplier f64_one \<and> 0 < grow_pages then
        and_then (add_chk B reserved
            (u64_of_f64 (f64_mul (f64_of_u64 grow_pages) (foreground_heap_growth_multiplier t))))
          (\<lambda>s. Inr (min s (growth_limit t)))
      else Inr 0)"

definition grow_for_utilization ::
  "'b build_scheme \<Rightarrow> usize \<Rightarrow> bool \<Rightarrow> bool \<Rightarrow> ArtTrigger \<Rightarrow> ArtTrigger res" where
  "grow_for_utilization B reserved jank nursery t =
     (let multiplier = get_heap_growth_multiplier t jank in
      and_then (target_and_growth B reserved multiplier nursery t) (\<lambda>(target, grow_pages).
      and_then (add_pending B reserved target t) (\<lambda>target.
      let t' = set_ideal_footprint target t in
      and_then (foreground_target B reserved multiplier grow_pages t') (\<lambda>fg.
      Inr (t'\<lparr>min_foreground_target_footprint := fg\<rparr>)))))"

text \<open>The \<^verbatim>\<open>GCTriggerPolicy\<close> interface. \<^verbatim>\<open>fetch_add\<close> and \<^verbatim>\<open>fetch_sub\<close> wrap in every build.\<close>

definition on_pending_allocation :: "usize \<Rightarrow> ArtTrigger \<Rightarrow> ArtTrigger" where
  "on_pending_allocation pages t = t\<lparr>pending_allocation := pending_allocation t + pages\<rparr>"

definition on_gc_start :: "usize \<Rightarrow> ArtTrigger \<Rightarrow> ArtTrigger" where
  "on_gc_start reserved t = t\<lparr>reserved_pages_before_gc := reserved\<rparr>"

definition on_gc_end ::
  "'b build_scheme \<Rightarrow> usize \<Rightarrow> bool \<Rightarrow> bool \<Rightarrow> ArtTrigger \<Rightarrow> ArtTrigger res" where
  "on_gc_end B reserved jank nursery t =
     and_then (grow_for_utilization B reserved jank nursery t) (\<lambda>t'.
     Inr (t'\<lparr>pending_allocation := 0, reserved_pages_before_gc := 0\<rparr>))"

text \<open>
  The loop of \<^verbatim>\<open>is_gc_required\<close>. The list gives, for each iteration, the reserved pages the plan
  reports and whether the weak compare-and-exchange fails spuriously; \<open>None\<close> is a loop that has
  not returned after these iterations.
\<close>

fun is_gc_required_loop ::
  "'b build_scheme \<Rightarrow> (usize \<times> bool) list \<Rightarrow> ArtTrigger \<Rightarrow> (bool \<times> ArtTrigger) res option" where
  "is_gc_required_loop B [] t = None"
| "is_gc_required_loop B ((reserved, spurious) # its) t =
     (let old_target = target_footprint t; pending = pending_allocation t in
      case add_chk B reserved pending of
        Inl p \<Rightarrow> Some (Inl p)
      | Inr new_target \<Rightarrow>
          if new_target \<le> old_target then Some (Inr (False, t))
          else if growth_limit t < new_target then Some (Inr (True, t))
          else if spurious then is_gc_required_loop B its t
          else Some (Inr (False, t\<lparr>target_footprint := new_target,
                                   pending_allocation := pending_allocation t - pending\<rparr>)))"

definition is_gc_required ::
  "'b build_scheme \<Rightarrow> (usize \<times> bool) list \<Rightarrow> bool \<Rightarrow> ArtTrigger \<Rightarrow> (bool \<times> ArtTrigger) res option"
where
  "is_gc_required B its collection_required t =
     map_option (\<lambda>r. and_then r (\<lambda>(gc, t'). Inr (gc \<or> collection_required, t')))
       (is_gc_required_loop B its t)"

definition is_heap_full :: "usize \<Rightarrow> ArtTrigger \<Rightarrow> bool" where
  "is_heap_full reserved t \<longleftrightarrow> target_footprint t \<le> reserved"

definition get_current_heap_size_in_pages :: "ArtTrigger \<Rightarrow> usize" where
  "get_current_heap_size_in_pages t = target_footprint t"

definition get_max_heap_size_in_pages :: "ArtTrigger \<Rightarrow> usize" where
  "get_max_heap_size_in_pages t = growth_limit t"

definition can_heap_size_grow :: "ArtTrigger \<Rightarrow> bool" where
  "can_heap_size_grow t \<longleftrightarrow> target_footprint t < growth_limit t"

definition clamp_max_heap_size :: "'w env \<Rightarrow> usize \<Rightarrow> ArtTrigger \<Rightarrow> bool \<times> ArtTrigger" where
  "clamp_max_heap_size E max_heap_size t =
     (let max_heap_pages = drop_bit (LOG_BYTES_IN_PAGE E) max_heap_size;
          t1 = t\<lparr>capacity := max_heap_pages, growth_limit := max_heap_pages\<rparr>
      in (True, set_concurrent_start_pages (set_ideal_footprint max_heap_pages t1)))"

definition grow_heap_size_for_event :: "ArtTrigger \<Rightarrow> ArtTrigger option" where
  "grow_heap_size_for_event t = grow_heap_on_jank_perceptible_switch t"

definition clamp_growth_limit :: "ArtTrigger \<Rightarrow> ArtTrigger" where
  "clamp_growth_limit t = clamp_growth_limit_inner t"

text \<open>The policy method of the same name as the inherent one, which it calls.\<close>

definition policy_clear_growth_limit :: "ArtTrigger \<Rightarrow> ArtTrigger" where
  "policy_clear_growth_limit t = clear_growth_limit t"

section \<open>The invariant of the heap limits\<close>

definition trigger_inv :: "ArtTrigger \<Rightarrow> bool" where
  "trigger_inv t \<longleftrightarrow>
     growth_limit t \<le> capacity t \<and> target_footprint t \<le> growth_limit t \<and>
     min_foreground_target_footprint t \<le> growth_limit t"

lemma drop_bit_word_mono: "(x :: 'a::len word) \<le> y \<Longrightarrow> drop_bit n x \<le> drop_bit n y"
  by (simp only: word_le_nat_alt unat_drop_bit_eq) (simp add: drop_bit_eq_div div_le_mono)

lemma inv_trigger_new:
  "initial \<le> limit \<Longrightarrow> limit \<le> cap \<Longrightarrow>
     trigger_inv (trigger_new E minf maxf initial cap limit util mult)"
  by (simp add: trigger_inv_def trigger_new_def drop_bit_word_mono)

lemma set_ideal_footprint_frame [simp]:
  "growth_limit (set_ideal_footprint tf t) = growth_limit t"
  "capacity (set_ideal_footprint tf t) = capacity t"
  "pending_allocation (set_ideal_footprint tf t) = pending_allocation t"
  "min_foreground_target_footprint (set_ideal_footprint tf t) = min_foreground_target_footprint t"
  "foreground_heap_growth_multiplier (set_ideal_footprint tf t) =
     foreground_heap_growth_multiplier t"
  "target_footprint (set_ideal_footprint tf t) = min (growth_limit t) tf"
  by (auto simp: set_ideal_footprint_def min_def)

lemma foreground_target_le:
  "foreground_target B reserved multiplier g t = Inr fg \<Longrightarrow> fg \<le> growth_limit t"
  by (auto simp: foreground_target_def and_then_eq_Inr split: if_splits)

lemma inv_on_gc_end: "trigger_inv t \<Longrightarrow> on_gc_end B reserved jank nursery t = Inr t' \<Longrightarrow> trigger_inv t'"
  by (auto simp: on_gc_end_def grow_for_utilization_def and_then_eq_Inr Let_def trigger_inv_def
      dest!: foreground_target_le)

lemma inv_is_gc_required_loop:
  "is_gc_required_loop B its t = Some (Inr (gc, t')) \<Longrightarrow> trigger_inv t \<Longrightarrow> trigger_inv t'"
  by (induction B its t rule: is_gc_required_loop.induct)
    (auto simp: Let_def trigger_inv_def split: sum.splits if_splits)

text \<open>Without interference the first compare-and-exchange of the jank switch succeeds.\<close>

lemma jank_switch_eq:
  "grow_heap_on_jank_perceptible_switch t =
     Some (t\<lparr>target_footprint := max (target_footprint t) (min_foreground_target_footprint t)\<rparr>)"
  by (simp add: grow_heap_on_jank_perceptible_switch_def jank_switch_loop.simps
      compare_exchange_target_def Let_def max_def)

text \<open>
  A call of a method. The label is the argument of \<^verbatim>\<open>clamp_max_heap_size\<close>, which sets a new maximum, and
  \<open>None\<close> for every other method.
\<close>

inductive trigger_call :: "'w env \<Rightarrow> usize option \<Rightarrow> ArtTrigger \<Rightarrow> ArtTrigger \<Rightarrow> bool" for E where
  call_pending: "trigger_call E None t (on_pending_allocation pages t)"
| call_gc_start: "trigger_call E None t (on_gc_start reserved t)"
| call_gc_end: "on_gc_end E reserved jank nursery t = Inr t' \<Longrightarrow> trigger_call E None t t'"
| call_poll: "is_gc_required E its c t = Some (Inr (gc, t')) \<Longrightarrow> trigger_call E None t t'"
| call_jank: "grow_heap_size_for_event t = Some t' \<Longrightarrow> trigger_call E None t t'"
| call_clamp_growth: "trigger_call E None t (clamp_growth_limit t)"
| call_clear_growth: "trigger_call E None t (policy_clear_growth_limit t)"
| call_clamp_max: "trigger_call E (Some bytes) t (snd (clamp_max_heap_size E bytes t))"

definition trigger_step :: "'w env \<Rightarrow> ArtTrigger \<Rightarrow> ArtTrigger \<Rightarrow> bool" where
  "trigger_step E t t' \<longleftrightarrow> (\<exists>call. trigger_call E call t t')"

text \<open>The calls of a run in which no maximum above \<open>M\<close> bytes is set.\<close>

definition trigger_step_upto :: "'w env \<Rightarrow> usize \<Rightarrow> ArtTrigger \<Rightarrow> ArtTrigger \<Rightarrow> bool" where
  "trigger_step_upto E M t t' \<longleftrightarrow>
     (\<exists>call. trigger_call E call t t' \<and> (\<forall>bytes. call = Some bytes \<longrightarrow> bytes \<le> M))"

lemma trigger_stepI: "trigger_call E call t t' \<Longrightarrow> trigger_step E t t'"
  by (auto simp: trigger_step_def)

lemmas trigger_call_defs =
  on_pending_allocation_def on_gc_start_def clamp_growth_limit_def clamp_growth_limit_inner_def
  policy_clear_growth_limit_def clear_growth_limit_def set_concurrent_start_pages_def
  clamp_max_heap_size_def Let_def

lemma on_gc_end_limits:
  "on_gc_end B reserved jank nursery t = Inr t' \<Longrightarrow>
     target_footprint t' \<le> growth_limit t' \<and> min_foreground_target_footprint t' \<le> growth_limit t' \<and>
     growth_limit t' = growth_limit t \<and> capacity t' = capacity t"
  by (auto simp: on_gc_end_def grow_for_utilization_def and_then_eq_Inr Let_def dest!: foreground_target_le)

lemma poll_limits:
  "is_gc_required B its c t = Some (Inr (gc, t')) \<Longrightarrow>
     (target_footprint t' = target_footprint t \<or> target_footprint t' \<le> growth_limit t) \<and>
     growth_limit t' = growth_limit t \<and> capacity t' = capacity t \<and>
     min_foreground_target_footprint t' = min_foreground_target_footprint t"
proof -
  have "is_gc_required_loop B its t = Some (Inr (g, t')) \<Longrightarrow>
      (target_footprint t' = target_footprint t \<or> target_footprint t' \<le> growth_limit t) \<and>
      growth_limit t' = growth_limit t \<and> capacity t' = capacity t \<and>
      min_foreground_target_footprint t' = min_foreground_target_footprint t" for g
    by (induction B its t rule: is_gc_required_loop.induct)
      (auto simp: Let_def split: sum.splits if_splits)
  then show "is_gc_required B its c t = Some (Inr (gc, t')) \<Longrightarrow> ?thesis"
    by (auto simp: is_gc_required_def and_then_eq_Inr)
qed

text \<open>Every call but the one that sets a new maximum keeps the invariant.\<close>

lemma inv_trigger_call:
  assumes "trigger_call E None t t'" "trigger_inv t"
  shows "trigger_inv t'"
  using assms
proof (induction "None :: usize option" t t' rule: trigger_call.induct)
  case (call_gc_end reserved jank nursery t t')
  then show ?case by (blast intro: inv_on_gc_end)
next
  case (call_poll its c t gc t')
  then show ?case using poll_limits [OF call_poll.hyps] by (auto simp: trigger_inv_def)
next
  case (call_jank t t')
  then show ?case by (auto simp: grow_heap_size_for_event_def jank_switch_eq trigger_inv_def)
qed (auto simp: trigger_inv_def trigger_call_defs split: if_splits)

lemma inv_trigger_calls: "(trigger_call E None)\<^sup>*\<^sup>* t t' \<Longrightarrow> trigger_inv t \<Longrightarrow> trigger_inv t'"
  by (induction rule: rtranclp_induct) (auto intro: inv_trigger_call)

text \<open>What all calls keep.\<close>

definition limits_inv :: "ArtTrigger \<Rightarrow> bool" where
  "limits_inv t \<longleftrightarrow>
     growth_limit t \<le> capacity t \<and>
     target_footprint t \<le> max (growth_limit t) (min_foreground_target_footprint t)"

lemma limits_trigger_call:
  assumes "trigger_call E call t t'" "limits_inv t"
  shows "limits_inv t'"
  using assms
proof (induction rule: trigger_call.induct)
  case (call_gc_end reserved jank nursery t t')
  then show ?case using on_gc_end_limits [OF call_gc_end.hyps] by (auto simp: limits_inv_def)
next
  case (call_poll its c t gc t')
  then show ?case using poll_limits [OF call_poll.hyps] by (auto simp: limits_inv_def le_max_iff_disj)
next
  case (call_jank t t')
  then show ?case by (auto simp: grow_heap_size_for_event_def jank_switch_eq limits_inv_def)
qed (auto simp: limits_inv_def trigger_call_defs le_max_iff_disj split: if_splits)

definition trigger_initial :: "'w env \<Rightarrow> ArtTrigger \<Rightarrow> bool" where
  "trigger_initial E t \<longleftrightarrow>
     (\<exists>minf maxf initial cap limit util mult. initial \<le> limit \<and> limit \<le> cap \<and>
        t = trigger_new E minf maxf initial cap limit util mult)"

interpretation heap_trigger: machine "trigger_initial E" "trigger_step E" limits_inv for E
proof unfold_locales
  fix t :: ArtTrigger
  assume "trigger_initial E t"
  then have "trigger_inv t" by (auto simp: trigger_initial_def intro: inv_trigger_new)
  then show "limits_inv t" by (auto simp: trigger_inv_def limits_inv_def le_max_iff_disj)
next
  fix t t' :: ArtTrigger
  assume "limits_inv t" "trigger_step E t t'"
  then show "limits_inv t'" by (auto simp: trigger_step_def intro: limits_trigger_call)
qed

text \<open>A bound on every size: no call exceeds it unless a larger maximum is set.\<close>

definition sizes_below :: "usize \<Rightarrow> ArtTrigger \<Rightarrow> bool" where
  "sizes_below cap0 t \<longleftrightarrow> capacity t \<le> cap0 \<and> growth_limit t \<le> cap0 \<and> target_footprint t \<le> cap0 \<and>
     min_foreground_target_footprint t \<le> cap0"

lemma sizes_trigger_call:
  assumes "trigger_call E call t t'" "sizes_below cap0 t"
    "\<And>bytes. call = Some bytes \<Longrightarrow> drop_bit (LOG_BYTES_IN_PAGE E) bytes \<le> cap0"
  shows "sizes_below cap0 t'"
  using assms
proof (induction rule: trigger_call.induct)
  case (call_gc_end reserved jank nursery t t')
  then show ?case using on_gc_end_limits [OF call_gc_end.hyps] by (auto simp: sizes_below_def)
next
  case (call_poll its c t gc t')
  then show ?case using poll_limits [OF call_poll.hyps] by (auto simp: sizes_below_def)
next
  case (call_jank t t')
  then show ?case by (auto simp: grow_heap_size_for_event_def jank_switch_eq sizes_below_def)
qed (auto simp: sizes_below_def trigger_call_defs split: if_splits)

lemma sizes_trigger_upto:
  assumes "(trigger_step_upto E M)\<^sup>*\<^sup>* t t'" "sizes_below (drop_bit (LOG_BYTES_IN_PAGE E) M) t"
  shows "sizes_below (drop_bit (LOG_BYTES_IN_PAGE E) M) t'"
  using assms
  by (induction rule: rtranclp_induct)
    (auto simp: trigger_step_upto_def intro: sizes_trigger_call drop_bit_word_mono)

section \<open>What the end of a collection computes\<close>

text \<open>
  The scaled growth of a full-heap collection: the pages added to the reserved ones, before the
  pending allocation and the growth limit are taken into account.
\<close>

definition full_growth :: "ArtTrigger \<Rightarrow> usize \<Rightarrow> usize" where
  "full_growth t reserved =
     max (min (u64_of_f64 (f64_mul (f64_of_u64 reserved)
            (f64_sub (f64_div f64_one (target_utilization t)) f64_one))) (max_free t)) (min_free t)"

definition scaled :: "f64 \<Rightarrow> usize \<Rightarrow> usize" where
  "scaled multiplier pages = u64_of_f64 (f64_mul (f64_of_u64 pages) multiplier)"

lemma target_and_growth_full:
  "target_and_growth B reserved multiplier False t =
     and_then (add_chk B reserved (scaled multiplier (full_growth t reserved)))
       (\<lambda>s. Inr (s, full_growth t reserved))"
  by (simp add: target_and_growth_def full_growth_def scaled_def Let_def)

lemma target_and_growth_nursery:
  "target_and_growth B reserved multiplier True t =
     and_then (add_chk B reserved (scaled multiplier (max_free t))) (\<lambda>s.
       if s < target_footprint t then Inr (s, max_free t)
       else Inr (max reserved (target_footprint t), 0))"
  by (simp add: target_and_growth_def scaled_def Let_def)

text \<open>A factor a heap can be configured with: positive, at most 256, and finite.\<close>

definition sane_multiplier :: "f64 \<Rightarrow> bool" where
  "sane_multiplier c \<longleftrightarrow> (\<exists>q. c = Num q \<and> 0 < q \<and> q \<le> 2 ^ 8)"

text \<open>Page counts that leave room for every sum the trigger forms (a heap has below \<open>2^20\<close> pages).\<close>

definition sane_pages :: "usize \<Rightarrow> bool" where
  "sane_pages n \<longleftrightarrow> unat n < 2 ^ 48"

definition sane_trigger :: "ArtTrigger \<Rightarrow> bool" where
  "sane_trigger t \<longleftrightarrow>
     sane_pages (min_free t) \<and> sane_pages (max_free t) \<and> sane_pages (target_footprint t) \<and>
     sane_pages (pending_allocation t) \<and> sane_multiplier (foreground_heap_growth_multiplier t)"

lemma sane_multiplier_of:
  "sane_trigger t \<Longrightarrow> sane_multiplier (get_heap_growth_multiplier t jank)"
  by (auto simp: sane_trigger_def get_heap_growth_multiplier_def sane_multiplier_def f64_one_def)

lemma scaled_le: "sane_multiplier c \<Longrightarrow> sane_pages n \<Longrightarrow> unat (scaled c n) < 2 ^ 56"
proof -
  assume c: "sane_multiplier c" and n: "sane_pages n"
  from c obtain q where q: "c = Num q" "0 < q" "q \<le> 2 ^ 8" by (auto simp: sane_multiplier_def)
  have "unat (scaled c n) \<le> unat n * 2 ^ 8"
    unfolding scaled_def using q n by (intro f64_scale_le) (simp_all add: sane_pages_def)
  with n show ?thesis by (simp add: sane_pages_def)
qed

lemma sane_max: "sane_pages a \<Longrightarrow> sane_pages b \<Longrightarrow> sane_pages (max a b)"
  by (simp add: max_def)

lemma sane_full_growth: "sane_trigger t \<Longrightarrow> sane_pages (full_growth t reserved)"
proof -
  assume t: "sane_trigger t"
  have "sane_pages (min x (max_free t))" for x
    using t by (auto simp: sane_trigger_def sane_pages_def min_def word_le_nat_alt)
  then show ?thesis using t by (auto simp: full_growth_def sane_trigger_def intro!: sane_max)
qed

lemma add_chk_sane:
  "unat a < 2 ^ 60 \<Longrightarrow> unat b < 2 ^ 60 \<Longrightarrow> add_chk B a (b :: usize) = Inr (a + b)"
  by (rule add_chk_ok) simp

lemma unat_add_sane:
  "unat a < 2 ^ 60 \<Longrightarrow> unat b < 2 ^ 60 \<Longrightarrow> unat (a + (b :: usize)) = unat a + unat b"
  by (rule unat_add_exact) simp

text \<open>The target before pending pages: at least the reserved pages, and far from overflow.\<close>

lemma target_and_growth_ok:
  assumes "sane_trigger t" "sane_pages reserved" "sane_multiplier multiplier"
  shows "\<exists>target g. target_and_growth B reserved multiplier nursery t = Inr (target, g) \<and>
    reserved \<le> target \<and> unat target < 2 ^ 57 \<and> sane_pages g"
proof (cases nursery)
  case True
  have s: "unat (scaled multiplier (max_free t)) < 2 ^ 56"
    using assms by (intro scaled_le) (simp_all add: sane_trigger_def)
  then have "add_chk B reserved (scaled multiplier (max_free t)) =
      Inr (reserved + scaled multiplier (max_free t))"
    and "unat (reserved + scaled multiplier (max_free t)) =
      unat reserved + unat (scaled multiplier (max_free t))"
    using assms(2) by (auto intro!: add_chk_sane unat_add_sane simp: sane_pages_def)
  with assms s True show ?thesis
    by (auto simp: target_and_growth_nursery word_le_nat_alt sane_trigger_def sane_pages_def max_def)
next
  case False
  have s: "unat (scaled multiplier (full_growth t reserved)) < 2 ^ 56"
    using assms by (intro scaled_le sane_full_growth)
  then have "add_chk B reserved (scaled multiplier (full_growth t reserved)) =
      Inr (reserved + scaled multiplier (full_growth t reserved))"
    and "unat (reserved + scaled multiplier (full_growth t reserved)) =
      unat reserved + unat (scaled multiplier (full_growth t reserved))"
    using assms(2) by (auto intro!: add_chk_sane unat_add_sane simp: sane_pages_def)
  with assms(2) s False sane_full_growth [OF assms(1), of reserved] show ?thesis
    by (auto simp: target_and_growth_full word_le_nat_alt sane_pages_def)
qed

lemma add_pending_eq:
  assumes "reserved \<le> target" "unat target < 2 ^ 57" "sane_pages (pending_allocation t)"
  shows "add_pending B reserved target t =
    Inr (if target - reserved < pending_allocation t then target + pending_allocation t else target)"
  using assms by (simp add: add_pending_def sub_chk_ok add_chk_sane sane_pages_def)

lemma foreground_target_ok:
  assumes "sane_pages reserved" "sane_pages g" "sane_multiplier (foreground_heap_growth_multiplier t)"
  shows "\<exists>fg. foreground_target B reserved multiplier g t = Inr fg"
proof -
  have "unat (scaled (foreground_heap_growth_multiplier t) g) < 2 ^ 56"
    using assms by (intro scaled_le)
  with assms(1) show ?thesis
    by (simp add: foreground_target_def add_chk_sane sane_pages_def flip: scaled_def)
qed

lemma on_gc_end_target:
  assumes "sane_trigger t" "sane_pages reserved"
    and "target_and_growth B reserved (get_heap_growth_multiplier t jank) nursery t = Inr (target, g)"
  shows "\<exists>t'. on_gc_end B reserved jank nursery t = Inr t' \<and>
    target_footprint t' = min (growth_limit t)
      (if target - reserved < pending_allocation t then target + pending_allocation t else target) \<and>
    pending_allocation t' = 0 \<and> reserved_pages_before_gc t' = 0 \<and>
    growth_limit t' = growth_limit t \<and> capacity t' = capacity t"
proof -
  from target_and_growth_ok [OF assms(1,2) sane_multiplier_of [OF assms(1)], of B jank nursery]
  have tgt: "reserved \<le> target" "unat target < 2 ^ 57" "sane_pages g"
    using assms(3) by auto
  note pend = add_pending_eq [OF tgt(1,2), of t B]
  let ?new = "if target - reserved < pending_allocation t then target + pending_allocation t else target"
  obtain fg where "foreground_target B reserved (get_heap_growth_multiplier t jank) g
      (set_ideal_footprint ?new t) = Inr fg"
    using foreground_target_ok [OF assms(2) tgt(3), of "set_ideal_footprint ?new t" B] assms(1)
    unfolding sane_trigger_def by auto
  with pend assms(1,3) show ?thesis
    by (simp add: on_gc_end_def grow_for_utilization_def Let_def sane_trigger_def)
qed

section \<open>Properties\<close>


definition sample_trigger :: ArtTrigger where
  "sample_trigger = trigger_new concrete_env 0x80000 0x800000 0x400000 0x10000000 0x8000000
     (Num (1 / 2)) (Num 2)"

lemma sample_trigger_initial: "trigger_initial concrete_env sample_trigger"
  unfolding trigger_initial_def sample_trigger_def
  by (rule exI, rule exI, rule exI [of _ "0x400000"], rule exI [of _ "0x10000000"],
      rule exI [of _ "0x8000000"], rule exI, rule exI) simp

lemmas sample_eval =
  sample_trigger_def trigger_new_def env_with_def drop_bit_eq_div on_pending_allocation_def

definition sample_polled :: ArtTrigger where
  "sample_polled =
     (on_pending_allocation 100 sample_trigger)\<lparr>target_footprint := 2100, pending_allocation := 0\<rparr>"

lemma sample_reaches_polled: "(trigger_step concrete_env)\<^sup>*\<^sup>* sample_trigger sample_polled"
proof -
  let ?t = "on_pending_allocation 100 sample_trigger"
  have "trigger_step concrete_env sample_trigger ?t" by (rule trigger_stepI) (rule call_pending)
  moreover have "trigger_step concrete_env ?t sample_polled"
    by (rule trigger_stepI, rule call_poll [of _ "[(2000, False)]" False _ False])
      (simp add: is_gc_required_def add_chk_def sample_polled_def sample_eval)
  ultimately show ?thesis by simp
qed


text \<open>
  C5. A collection of a heap of realistic size ends without a panic in every build, resets the
  pending allocation, and leaves a target that holds the reserved pages and the allocation that
  was waiting for the collection, up to the growth limit. If they are within the growth limit, then
  the next poll, at a size up to the reserved pages and that allocation together, leaves the trigger
  as it is and asks for a collection only if the plan itself requires one.
\<close>

theorem on_gc_end_progress:
  assumes "sane_trigger t" "sane_pages reserved"
  shows "\<exists>t'. on_gc_end B reserved jank nursery t = Inr t' \<and> pending_allocation t' = 0 \<and>
    min (unat (growth_limit t)) (unat reserved + unat (pending_allocation t))
      \<le> unat (target_footprint t') \<and>
    target_footprint t' \<le> growth_limit t \<and>
    (\<forall>r spurious its c.
       unat reserved + unat (pending_allocation t) \<le> unat (growth_limit t) \<longrightarrow>
       unat r \<le> unat reserved + unat (pending_allocation t) \<longrightarrow>
       is_gc_required B ((r, spurious) # its) c t' = Some (Inr (c, t')))"
proof -
  obtain target g where tg:
    "target_and_growth B reserved (get_heap_growth_multiplier t jank) nursery t = Inr (target, g)"
    and le: "reserved \<le> target" "unat target < 2 ^ 57"
    using target_and_growth_ok [OF assms sane_multiplier_of [OF assms(1)]] by blast
  have p: "unat (pending_allocation t) < 2 ^ 60"
    using assms(1) by (simp add: sane_trigger_def sane_pages_def)
  let ?new = "if target - reserved < pending_allocation t then target + pending_allocation t else target"
  have "unat reserved + unat (pending_allocation t) \<le> unat ?new"
    using le p by (auto simp: unat_add_sane word_less_nat_alt word_le_nat_alt unat_sub_exact)
  moreover obtain t' where t': "on_gc_end B reserved jank nursery t = Inr t'"
    "target_footprint t' = min (growth_limit t) ?new" "pending_allocation t' = 0"
    using on_gc_end_target [OF assms tg] by blast
  ultimately have room: "min (unat (growth_limit t)) (unat reserved + unat (pending_allocation t))
      \<le> unat (target_footprint t')" "target_footprint t' \<le> growth_limit t"
    by (auto simp: min_def word_le_nat_alt split: if_splits)
  have "is_gc_required B ((r, spurious) # its) c t' = Some (Inr (c, t'))"
    if "unat reserved + unat (pending_allocation t) \<le> unat (growth_limit t)"
      "unat r \<le> unat reserved + unat (pending_allocation t)" for r spurious its c
  proof -
    have "r \<le> target_footprint t'" using room(1) that by (simp add: word_le_nat_alt)
    moreover have "add_chk B r 0 = Inr r"
      using unsigned_less [of r, where ?'a = nat] by (simp add: add_chk_def)
    ultimately show ?thesis by (simp add: is_gc_required_def t'(3))
  qed
  with t' room show ?thesis by blast
qed

theorem on_gc_end_progress_witness:
  "\<exists>t'. on_gc_end android_build 500 True False (on_pending_allocation 100 sample_trigger) = Inr t' \<and>
     600 \<le> unat (target_footprint t') \<and>
     is_gc_required android_build [(600, False)] False t' = Some (Inr (False, t'))"
proof -
  have "sane_trigger (on_pending_allocation 100 sample_trigger)" "sane_pages 500"
    by (simp_all add: sane_trigger_def sane_pages_def sane_multiplier_def sample_eval)
  from on_gc_end_progress [OF this, of android_build True False] show ?thesis
    by (auto simp: sample_eval)
qed


lemma sample_scaled:
  "scaled (get_heap_growth_multiplier sample_trigger True) (full_growth sample_trigger 1000) = 2000"
  by (simp add: full_growth_def scaled_def get_heap_growth_multiplier_def sample_eval f64_eval)


text \<open>
  C4. A poll returns after finitely many spurious failures of its weak compare-and-exchange. It
  leaves the trigger alone when the demand (reserved plus pending pages) is within the target,
  requests a collection when the demand exceeds the growth limit, and otherwise raises the target
  to the demand and consumes the pending allocation without a collection of its own.
\<close>

theorem is_gc_required_spec:
  assumes "unat reserved + unat (pending_allocation t) < 2 ^ 64"
  shows "is_gc_required B (replicate n (reserved, True) @ (reserved, False) # its) c t =
    (let demand = reserved + pending_allocation t in
     Some (Inr
       (if demand \<le> target_footprint t then (c, t)
        else if growth_limit t < demand then (True, t)
        else (c, t\<lparr>target_footprint := demand, pending_allocation := 0\<rparr>))))"
proof -
  have chk: "add_chk B reserved (pending_allocation t) = Inr (reserved + pending_allocation t)"
    using assms by (intro add_chk_ok) simp
  have "is_gc_required_loop B (replicate n (reserved, True) @ (reserved, False) # its) t =
    Some (Inr
       (if reserved + pending_allocation t \<le> target_footprint t then (False, t)
        else if growth_limit t < reserved + pending_allocation t then (True, t)
        else (False, t\<lparr>target_footprint := reserved + pending_allocation t,
                       pending_allocation := 0\<rparr>)))"
    by (induction n) (simp_all add: chk Let_def)
  then show ?thesis by (auto simp: is_gc_required_def Let_def)
qed

theorem is_gc_required_spec_witness:
  "is_gc_required android_build [(2000, True), (2000, False)] False
     (on_pending_allocation 100 sample_trigger) = Some (Inr (False, sample_polled))"
proof -
  have "unat (2000 :: usize) + unat (pending_allocation (on_pending_allocation 100 sample_trigger))
      < 2 ^ 64"
    by (simp add: sample_eval)
  from is_gc_required_spec [OF this, of android_build 1 "[]" False] show ?thesis
    by (simp add: sample_polled_def sample_eval)
qed

text \<open>
  Run by itself, the switch to a jank perceptible state returns, never lowers the target
  footprint, raises it to the cached foreground target, and stays within the growth limit whenever
  the invariant of the heap limits holds.
\<close>

lemma jank_switch_grows:
  assumes "trigger_inv t"
  shows "\<exists>t'. grow_heap_size_for_event t = Some t' \<and>
    target_footprint t' = max (target_footprint t) (min_foreground_target_footprint t) \<and>
    target_footprint t \<le> target_footprint t' \<and> target_footprint t' \<le> growth_limit t'"
  using assms by (auto simp: grow_heap_size_for_event_def jank_switch_eq trigger_inv_def)

definition sample_background :: ArtTrigger where
  "sample_background = sample_trigger\<lparr>target_footprint := 2000, min_foreground_target_footprint := 3000\<rparr>"

text \<open>The cached foreground target is one that a background collection computes.\<close>

lemma sample_background_reached:
  "\<exists>t'. on_gc_end concrete_env 1000 False False sample_trigger = Inr t' \<and> t' = sample_background"
  by (simp add: on_gc_end_def grow_for_utilization_def target_and_growth_full add_pending_def
      foreground_target_def full_growth_def scaled_def get_heap_growth_multiplier_def add_chk_def
      sub_chk_def set_ideal_footprint_def sample_background_def sample_eval f64_eval)

text \<open>
  C35. Clamping the maximum heap size does not reset the cached foreground target: if that target is
  larger than the new maximum, the next jank switch sets the target footprint above both the growth
  limit and the capacity, so from then on polls let the heap grow past its maximum.
\<close>

theorem clamp_then_jank_exceeds_limit:
  assumes "drop_bit (LOG_BYTES_IN_PAGE E) bytes < min_foreground_target_footprint t"
  shows "\<exists>t'. grow_heap_size_for_event (snd (clamp_max_heap_size E bytes t)) = Some t' \<and>
    growth_limit t' = drop_bit (LOG_BYTES_IN_PAGE E) bytes \<and> capacity t' = growth_limit t' \<and>
    growth_limit t' < target_footprint t'"
  using assms
  by (simp add: grow_heap_size_for_event_def jank_switch_eq clamp_max_heap_size_def Let_def
      set_concurrent_start_pages_def less_max_iff_disj)

theorem clamp_then_jank_exceeds_limit_witness:
  "\<exists>t'. grow_heap_size_for_event (snd (clamp_max_heap_size concrete_env 0x800000 sample_background))
      = Some t' \<and> growth_limit t' = 2048 \<and> growth_limit t' < target_footprint t'"
proof -
  have "drop_bit (LOG_BYTES_IN_PAGE concrete_env) 0x800000 <
      min_foreground_target_footprint sample_background"
    by (simp add: sample_background_def sample_eval)
  from clamp_then_jank_exceeds_limit [OF this] show ?thesis
    by (auto simp: env_with_def drop_bit_eq_div)
qed

end
