(* ===== verification/Threads.thy ===== *)
theory Threads
  imports Prelude
begin

text \<open>
  Threads that share a state: in each step one thread moves from its program counter to the next
  and may change the shared state. Shared by the theories that cut the operations of the trigger
  into their atomic accesses.
\<close>

inductive interleave :: "('s \<times> 'c \<Rightarrow> 's \<times> 'c \<Rightarrow> bool) \<Rightarrow> 's \<times> (nat \<Rightarrow> 'c) \<Rightarrow> 's \<times> (nat \<Rightarrow> 'c) \<Rightarrow> bool"
  for step where
  thread: "step (t, ps i) (t', c) \<Longrightarrow> interleave step (t, ps) (t', ps(i := c))"

text \<open>A run of one thread is a run of the system in which the other threads rest.\<close>

lemma thread_run:
  assumes "step\<^sup>*\<^sup>* (t, ps i) (t', c')"
  shows "(interleave step)\<^sup>*\<^sup>* (t, ps) (t', ps(i := c'))"
  using assms
proof (induction rule: rtranclp_induct2)
  case refl
  then show ?case by simp
next
  case (step t1 c1 t2 c2)
  have "interleave step (t1, ps(i := c1)) (t2, (ps(i := c1))(i := c2))"
    using step.hyps(2) by (intro interleave.thread) simp
  then have "interleave step (t1, ps(i := c1)) (t2, ps(i := c2))" by (simp only: fun_upd_upd)
  with step.IH show ?case by (rule rtranclp.rtrancl_into_rtrancl)
qed

lemma thread_run_idle:
  assumes "step\<^sup>*\<^sup>* (t, c) (t', c)"
  shows "(interleave step)\<^sup>*\<^sup>* (t, \<lambda>_. c) (t', \<lambda>_. c)"
  using thread_run [of step t "\<lambda>_. c" 0 t' c] assms by (simp add: fun_upd_idem)

text \<open>
  What suffices for an invariant of every interleaving: an invariant of the shared state and an
  assertion for each program counter, such that a step establishes the assertion it leads to and
  interferes with no assertion of another thread.
\<close>

locale threads =
  fixes idle :: 'c
    and step :: "'s \<times> 'c \<Rightarrow> 's \<times> 'c \<Rightarrow> bool"
    and shared :: "'s \<Rightarrow> bool"
    and asserts :: "'s \<Rightarrow> 'c \<Rightarrow> bool"
  assumes idle_asserts: "shared t \<Longrightarrow> asserts t idle"
    and step_keeps: "step (t, c) (t', c') \<Longrightarrow> shared t \<Longrightarrow> asserts t c \<Longrightarrow> shared t' \<and> asserts t' c'"
    and no_interference:
      "step (t, c) (t', c') \<Longrightarrow> shared t \<Longrightarrow> asserts t c \<Longrightarrow> asserts t d \<Longrightarrow> asserts t' d"
begin

lemma interleave_keeps:
  "interleave step s s' \<Longrightarrow> shared (fst s) \<and> (\<forall>i. asserts (fst s) (snd s i)) \<Longrightarrow>
     shared (fst s') \<and> (\<forall>i. asserts (fst s') (snd s' i))"
proof (induction rule: interleave.induct)
  case (thread t ps i t' c)
  then show ?case using step_keeps [OF thread.hyps] no_interference [OF thread.hyps] by simp
qed

end

sublocale threads \<subseteq> machine "\<lambda>s. shared (fst s) \<and> (\<forall>i. snd s i = idle)" "interleave step"
    "\<lambda>s. shared (fst s) \<and> (\<forall>i. asserts (fst s) (snd s i))"
proof unfold_locales
  fix s s' :: "'s \<times> (nat \<Rightarrow> 'c)"
  show "shared (fst s) \<and> (\<forall>i. snd s i = idle) \<Longrightarrow> shared (fst s) \<and> (\<forall>i. asserts (fst s) (snd s i))"
    by (simp add: idle_asserts)
  show "shared (fst s) \<and> (\<forall>i. asserts (fst s) (snd s i)) \<Longrightarrow> interleave step s s' \<Longrightarrow>
      shared (fst s') \<and> (\<forall>i. asserts (fst s') (snd s' i))"
    by (rule interleave_keeps)
qed

end
