(* ===== verification/Gc_Trigger_Conc.thy ===== *)
theory Gc_Trigger_Conc
  imports Gc_Trigger Threads
begin

text \<open>
  The operations of the trigger that several threads run at the same time: polls
  (\<^verbatim>\<open>is_gc_required\<close>), pending allocations and jank switches, cut into their atomic accesses and
  interleaved in any order. Every load, store, read-modify-write and call to the plan is one
  step; accesses are sequentially consistent, which is one of the behaviours the relaxed
  orderings of the code allow. The reserved pages a poll obtains from the plan are arbitrary,
  since other threads reserve pages concurrently. \<^verbatim>\<open>Limit_Conc\<close> adds the operations that move the
  limits and \<^verbatim>\<open>Gc_End_Conc\<close> the end of a collection.
\<close>

section \<open>Program counters and atomic steps\<close>

text \<open>
  Where a thread is, with the values it has loaded. \<open>Poll_\<close> states are the lines of the loop of
  \<^verbatim>\<open>is_gc_required\<close>, \<open>Jank_\<close> states those of \<^verbatim>\<open>grow_heap_on_jank_perceptible_switch\<close>.
\<close>

datatype pc =
    Idle
  | Poll_Load_Target
  | Poll_Load_Reserved usize
  | Poll_Load_Pending usize usize
  | Poll_Compare usize usize usize
  | Poll_Exchange usize usize usize
  | Poll_Subtract usize
  | Poll_Done bool
  | Jank_Load_Target
  | Jank_Compare usize
  | Jank_Load_Foreground usize
  | Jank_Exchange usize usize
  | Panicked panic

text \<open>\<^verbatim>\<open>is_gc_required\<close>:\<close>

inductive poll_step :: "'b build_scheme \<Rightarrow> ArtTrigger \<times> pc \<Rightarrow> ArtTrigger \<times> pc \<Rightarrow> bool" for B where
  poll: "poll_step B (t, Idle) (t, Poll_Load_Target)"
| load_target: "poll_step B (t, Poll_Load_Target) (t, Poll_Load_Reserved (target_footprint t))"
| load_reserved: "poll_step B (t, Poll_Load_Reserved old) (t, Poll_Load_Pending old reserved)"
| load_pending: "add_chk B reserved (pending_allocation t) = Inr new \<Longrightarrow>
    poll_step B (t, Poll_Load_Pending old reserved) (t, Poll_Compare old (pending_allocation t) new)"
| add_panics: "add_chk B reserved (pending_allocation t) = Inl p \<Longrightarrow>
    poll_step B (t, Poll_Load_Pending old reserved) (t, Panicked p)"
| within_target: "new \<le> old \<Longrightarrow> poll_step B (t, Poll_Compare old p new) (t, Poll_Done False)"
| above_limit: "\<not> new \<le> old \<Longrightarrow> growth_limit t < new \<Longrightarrow>
    poll_step B (t, Poll_Compare old p new) (t, Poll_Done True)"
| between: "\<not> new \<le> old \<Longrightarrow> \<not> growth_limit t < new \<Longrightarrow>
    poll_step B (t, Poll_Compare old p new) (t, Poll_Exchange old p new)"
| exchange_ok: "target_footprint t = old \<Longrightarrow>
    poll_step B (t, Poll_Exchange old p new) (t\<lparr>target_footprint := new\<rparr>, Poll_Subtract p)"
| exchange_fails: "poll_step B (t, Poll_Exchange old p new) (t, Poll_Load_Target)"
| subtract: "poll_step B (t, Poll_Subtract p)
    (t\<lparr>pending_allocation := pending_allocation t - p\<rparr>, Poll_Done False)"
| poll_returns: "poll_step B (t, Poll_Done gc) (t, Idle)"

text \<open>\<^verbatim>\<open>grow_heap_on_jank_perceptible_switch\<close>:\<close>

inductive jank_step :: "ArtTrigger \<times> pc \<Rightarrow> ArtTrigger \<times> pc \<Rightarrow> bool" where
  jank: "jank_step (t, Idle) (t, Jank_Load_Target)"
| jank_load: "jank_step (t, Jank_Load_Target) (t, Jank_Compare (target_footprint t))"
| jank_enter: "tf < min_foreground_target_footprint t \<Longrightarrow>
    jank_step (t, Jank_Compare tf) (t, Jank_Load_Foreground tf)"
| jank_skip: "\<not> tf < min_foreground_target_footprint t \<Longrightarrow> jank_step (t, Jank_Compare tf) (t, Idle)"
| jank_foreground: "jank_step (t, Jank_Load_Foreground tf)
    (t, Jank_Exchange tf (min_foreground_target_footprint t))"
| jank_ok: "target_footprint t = tf \<Longrightarrow>
    jank_step (t, Jank_Exchange tf fg) (t\<lparr>target_footprint := fg\<rparr>, Idle)"
| jank_retry: "target_footprint t \<noteq> tf \<Longrightarrow>
    jank_step (t, Jank_Exchange tf fg) (t, Jank_Load_Foreground (target_footprint t))"

text \<open>A step of a thread: \<^verbatim>\<open>on_pending_allocation\<close>, which is one access, or one of the steps above.\<close>

inductive tstep :: "'b build_scheme \<Rightarrow> ArtTrigger \<times> pc \<Rightarrow> ArtTrigger \<times> pc \<Rightarrow> bool" for B where
  pending: "tstep B (t, Idle) (on_pending_allocation pages t, Idle)"
| polls: "poll_step B (t, c) (t', c') \<Longrightarrow> tstep B (t, c) (t', c')"
| janks: "jank_step (t, c) (t', c') \<Longrightarrow> tstep B (t, c) (t', c')"

lemmas tstep_poll = tstep.polls [OF poll_step.poll]
lemmas tstep_load_target = tstep.polls [OF poll_step.load_target]
lemmas tstep_load_reserved = tstep.polls [OF poll_step.load_reserved]
lemmas tstep_load_pending = tstep.polls [OF poll_step.load_pending]
lemmas tstep_add_panics = tstep.polls [OF poll_step.add_panics]
lemmas tstep_within_target = tstep.polls [OF poll_step.within_target]
lemmas tstep_above_limit = tstep.polls [OF poll_step.above_limit]
lemmas tstep_between = tstep.polls [OF poll_step.between]
lemmas tstep_exchange_ok = tstep.polls [OF poll_step.exchange_ok]
lemmas tstep_exchange_fails = tstep.polls [OF poll_step.exchange_fails]
lemmas tstep_subtract = tstep.polls [OF poll_step.subtract]
lemmas tstep_poll_returns = tstep.polls [OF poll_step.poll_returns]
lemmas tstep_jank = tstep.janks [OF jank_step.jank]
lemmas tstep_jank_load = tstep.janks [OF jank_step.jank_load]
lemmas tstep_jank_enter = tstep.janks [OF jank_step.jank_enter]
lemmas tstep_jank_skip = tstep.janks [OF jank_step.jank_skip]
lemmas tstep_jank_foreground = tstep.janks [OF jank_step.jank_foreground]
lemmas tstep_jank_ok = tstep.janks [OF jank_step.jank_ok]
lemmas tstep_jank_retry = tstep.janks [OF jank_step.jank_retry]

text \<open>A system: the shared trigger and the program counter of every thread.\<close>

type_synonym sys = "ArtTrigger \<times> (nat \<Rightarrow> pc)"

abbreviation sys_step :: "'b build_scheme \<Rightarrow> sys \<Rightarrow> sys \<Rightarrow> bool" where
  "sys_step B \<equiv> interleave (tstep B)"

definition sys_initial :: "sys \<Rightarrow> bool" where
  "sys_initial s \<longleftrightarrow> trigger_inv (fst s) \<and> (\<forall>i. snd s i = Idle)"

section \<open>What every interleaving keeps\<close>

text \<open>
  A thread about to exchange carries a value within the growth limit; the limits themselves
  are not written by these operations.
\<close>

fun local_inv :: "ArtTrigger \<Rightarrow> pc \<Rightarrow> bool" where
  "local_inv t (Poll_Exchange old p new) = (old < new \<and> new \<le> growth_limit t)"
| "local_inv t (Jank_Exchange tf fg) = (fg \<le> growth_limit t)"
| "local_inv t c = True"

lemma tstep_cases [consumes 1, case_names pending poll jank]:
  assumes "tstep B (t, c) (t', c')"
  obtains pages where "c = Idle" "c' = Idle" "t' = t\<lparr>pending_allocation := pending_allocation t + pages\<rparr>"
  | "poll_step B (t, c) (t', c')"
  | "jank_step (t, c) (t', c')"
  using assms by (cases rule: tstep.cases) (auto simp: on_pending_allocation_def)

inductive_cases poll_stepE: "poll_step B (t, c) (t', c')"
inductive_cases jank_stepE: "jank_step (t, c) (t', c')"

lemma tstep_limits:
  "tstep B (t, c) (t', c') \<Longrightarrow> growth_limit t' = growth_limit t \<and> capacity t' = capacity t \<and>
     min_foreground_target_footprint t' = min_foreground_target_footprint t"
  by (erule tstep_cases) (auto elim!: poll_stepE jank_stepE)

lemma tstep_target:
  assumes "tstep B (t, c) (t', c')" "local_inv t c" "trigger_inv t"
  shows "target_footprint t' \<le> growth_limit t \<and> local_inv t c'"
  using assms by (auto simp: trigger_inv_def elim!: tstep_cases poll_stepE jank_stepE)

lemma local_inv_cong: "growth_limit t' = growth_limit t \<Longrightarrow> local_inv t' c = local_inv t c"
  by (cases c) auto

interpretation trigger_threads: threads Idle "tstep B" trigger_inv local_inv for B
proof unfold_locales
  fix t t' :: ArtTrigger and c c' d
  assume step: "tstep B (t, c) (t', c')" and inv: "trigger_inv t" "local_inv t c"
  note lim = tstep_limits [OF step] and tgt = tstep_target [OF step inv(2,1)]
  show "trigger_inv t' \<and> local_inv t' c'"
    using lim tgt inv(1) local_inv_cong [of t' t] by (simp add: trigger_inv_def)
  show "local_inv t d \<Longrightarrow> local_inv t' d" using lim local_inv_cong [of t' t] by simp
qed simp

text \<open>
  C20. Under every interleaving of polls, pending allocations and jank switches on any number of
  threads, the target footprint stays within the growth limit and the growth limit within the
  capacity.
\<close>

theorem concurrent_limits:
  assumes "sys_initial s" "(sys_step B)\<^sup>*\<^sup>* s (t, ps)"
  shows "target_footprint t \<le> growth_limit t \<and> growth_limit t \<le> capacity t"
  using trigger_threads.inv_reachable [OF assms(1) [unfolded sys_initial_def] assms(2)]
  by (simp add: trigger_inv_def)

theorem concurrent_limits_witness:
  "(sys_step android_build)\<^sup>*\<^sup>* (sample_trigger, \<lambda>_. Idle)
      (sample_trigger, (\<lambda>_. Idle)(7 := Poll_Load_Target)) \<and>
    target_footprint sample_trigger \<le> growth_limit sample_trigger"
proof -
  have "sys_step android_build (sample_trigger, \<lambda>_. Idle)
      (sample_trigger, (\<lambda>_. Idle)(7 := Poll_Load_Target))"
    by (rule interleave.thread) (rule tstep_poll)
  then have run: "(sys_step android_build)\<^sup>*\<^sup>* (sample_trigger, \<lambda>_. Idle)
      (sample_trigger, (\<lambda>_. Idle)(7 := Poll_Load_Target))"
    by (rule r_into_rtranclp)
  have "sys_initial (sample_trigger, \<lambda>_. Idle)"
    by (simp add: sys_initial_def trigger_inv_def sample_eval)
  from concurrent_limits [OF this run] run show ?thesis by simp
qed

text \<open>The runs of a single thread the races are made of.\<close>

lemma poll_run:
  assumes "add_chk B r (pending_allocation t) = Inr new"
    and "\<not> new \<le> target_footprint t" "\<not> growth_limit t < new"
  shows "(tstep B)\<^sup>*\<^sup>* (t, Idle) (t\<lparr>target_footprint := new\<rparr>, Poll_Subtract (pending_allocation t))"
  using tstep_poll [of B t] tstep_load_target [of B t]
    tstep_load_reserved [of B t "target_footprint t" r]
    tstep_load_pending [OF assms(1), of "target_footprint t"]
    tstep_between [OF assms(2,3), of B "pending_allocation t"]
    tstep_exchange_ok [OF refl, of B t "pending_allocation t" new]
  by (meson converse_rtranclp_into_rtranclp rtranclp.rtrancl_refl)

lemma subtract_run:
  "(tstep B)\<^sup>*\<^sup>* (t, Poll_Subtract p)
     (t\<lparr>pending_allocation := pending_allocation t - p\<rparr>, Idle)"
  using tstep_subtract [of B t p]
    tstep_poll_returns [of B "t\<lparr>pending_allocation := pending_allocation t - p\<rparr>" False]
  by (meson converse_rtranclp_into_rtranclp rtranclp.rtrancl_refl)

lemma jank_run:
  assumes "target_footprint t < min_foreground_target_footprint t"
  shows "(tstep B)\<^sup>*\<^sup>* (t, Idle)
    (t, Jank_Exchange (target_footprint t) (min_foreground_target_footprint t))"
  using tstep_jank [of B t] tstep_jank_load [of B t] tstep_jank_enter [OF assms, of B]
    tstep_jank_foreground [of B t "target_footprint t"]
  by (meson converse_rtranclp_into_rtranclp rtranclp.rtrancl_refl)

lemma jank_retry_run:
  assumes "target_footprint t \<noteq> tf"
  shows "(tstep B)\<^sup>*\<^sup>* (t, Jank_Exchange tf fg)
    (t, Jank_Exchange (target_footprint t) (min_foreground_target_footprint t))"
  using tstep_jank_retry [OF assms, of B fg] tstep_jank_foreground [of B t "target_footprint t"]
  by (meson converse_rtranclp_into_rtranclp rtranclp.rtrancl_refl)

section \<open>Two races\<close>

text \<open>A trigger with a heap of 1000 pages at its target and 5 pages pending.\<close>

definition contended :: ArtTrigger where
  "contended = sample_trigger\<lparr>target_footprint := 1000, pending_allocation := 5\<rparr>"

abbreviation quiet :: "nat \<Rightarrow> pc" where
  "quiet \<equiv> (\<lambda>_. Idle)"

lemma contended_initial: "sys_initial (contended, quiet)"
  by (simp add: sys_initial_def trigger_inv_def contended_def sample_eval)

text \<open>
  C32. Two concurrent polls can subtract the same pending pages twice: the second poll loads the
  pending count after the first has raised the target and before it has subtracted. The counter
  then wraps below zero, and the next poll panics in a build with overflow checks.
\<close>

theorem pending_subtracted_twice:
  "\<exists>t ps. sys_initial (contended, quiet) \<and>
    (sys_step android_build)\<^sup>*\<^sup>* (contended, quiet) (t, ps) \<and>
    (\<forall>i. ps i = Idle) \<and> pending_allocation t = - 5 \<and>
    is_gc_required android_build [(1001, False)] False t = Some (Inl Overflow)"
proof -
  let ?t1 = "contended\<lparr>target_footprint := 1005\<rparr>"
  let ?t2 = "contended\<lparr>target_footprint := 1006\<rparr>"
  let ?t3 = "?t2\<lparr>pending_allocation := 0\<rparr>"
  let ?t4 = "?t2\<lparr>pending_allocation := - 5\<rparr>"
  note first = poll_run [of android_build 1000 contended 1005]
  note second = poll_run [of android_build 1001 ?t1 1006]
  let ?ps = "quiet(0 := Poll_Subtract 5)"
  let ?qs = "?ps(1 := Poll_Subtract 5)"
  have a: "(sys_step android_build)\<^sup>*\<^sup>* (contended, quiet) (?t1, ?ps)"
    by (rule thread_run) (use first in \<open>simp add: contended_def sample_eval add_chk_def\<close>)
  have b: "(sys_step android_build)\<^sup>*\<^sup>* (?t1, ?ps) (?t2, ?qs)"
    by (rule thread_run) (use second in \<open>simp add: contended_def sample_eval add_chk_def\<close>)
  have c: "(sys_step android_build)\<^sup>*\<^sup>* (?t2, ?qs) (?t3, ?qs(1 := Idle))"
    by (rule thread_run)
      (use subtract_run [of android_build ?t2 5] in \<open>simp add: contended_def\<close>)
  have d: "(sys_step android_build)\<^sup>*\<^sup>* (?t3, ?qs(1 := Idle)) (?t4, ?qs(1 := Idle, 0 := Idle))"
    by (rule thread_run)
      (use subtract_run [of android_build ?t3 5] in \<open>simp add: contended_def\<close>)
  note rtranclp_trans [OF rtranclp_trans [OF rtranclp_trans [OF a b] c] d]
  moreover have "is_gc_required android_build [(1001, False)] False ?t4 = Some (Inl Overflow)"
    by (simp add: is_gc_required_def add_chk_def android_build_def)
  ultimately show ?thesis
    using contended_initial
    by (intro exI [of _ ?t4] exI [of _ "?qs(1 := Idle, 0 := Idle)"] conjI) simp_all
qed

text \<open>
  C33. A jank switch that loses its compare-and-exchange to a concurrent poll retries without
  checking again that the target is below the foreground target, and so can lower the target
  footprint although it is meant to grow the heap.
\<close>

theorem jank_switch_lowers_target:
  "\<exists>t t' ps. sys_initial (sample_background, quiet) \<and>
    (sys_step android_build)\<^sup>*\<^sup>* (sample_background, quiet) (t, ps) \<and>
    sys_step android_build (t, ps) (t', ps(0 := Idle)) \<and>
    ps 0 = Jank_Exchange 5000 3000 \<and>
    target_footprint t = 5000 \<and> target_footprint t' = 3000"
proof -
  let ?t = "sample_background\<lparr>target_footprint := 5000\<rparr>"
  let ?ps = "quiet(0 := Jank_Exchange 2000 3000, 1 := Poll_Subtract 0, 0 := Jank_Exchange 5000 3000)"
  note poll = poll_run [of android_build 5000 sample_background 5000]
  let ?qs = "quiet(0 := Jank_Exchange 2000 3000)"
  have a: "(sys_step android_build)\<^sup>*\<^sup>* (sample_background, quiet) (sample_background, ?qs)"
    by (rule thread_run)
      (use jank_run [of sample_background android_build] in \<open>simp add: sample_background_def\<close>)
  have b: "(sys_step android_build)\<^sup>*\<^sup>* (sample_background, ?qs) (?t, ?qs(1 := Poll_Subtract 0))"
    by (rule thread_run)
      (use poll in \<open>simp add: sample_background_def sample_eval add_chk_def\<close>)
  have c: "(sys_step android_build)\<^sup>*\<^sup>* (?t, ?qs(1 := Poll_Subtract 0)) (?t, ?ps)"
    by (rule thread_run)
      (use jank_retry_run [of ?t 2000 android_build 3000] in \<open>simp add: sample_background_def\<close>)
  note rtranclp_trans [OF rtranclp_trans [OF a b] c]
  moreover have "sys_step android_build (?t, ?ps) (?t\<lparr>target_footprint := 3000\<rparr>, ?ps(0 := Idle))"
    using tstep_jank_ok [of ?t 5000 android_build 3000] by (intro interleave.thread) simp
  moreover have "sys_initial (sample_background, quiet)"
    by (simp add: sys_initial_def trigger_inv_def sample_background_def sample_eval)
  ultimately show ?thesis
    by (intro exI [of _ ?t] exI [of _ "?t\<lparr>target_footprint := 3000\<rparr>"] exI [of _ ?ps]) simp
qed

end
