(* ===== verification/Limit_Conc.thy ===== *)
theory Limit_Conc
  imports Gc_Trigger_Conc
begin

text \<open>
  The two operations that move the limits of the trigger, \<^verbatim>\<open>clamp_growth_limit\<close> and
  \<^verbatim>\<open>clear_growth_limit\<close>, cut into their atomic accesses and interleaved with each other and with the
  polls, allocations and jank switches of \<open>Gc_Trigger_Conc\<close>. ART calls them from Java code, and
  nothing in the crate keeps them apart.
\<close>

section \<open>Atomic steps\<close>

text \<open>\<open>Clamp_\<close> states are those of \<^verbatim>\<open>clamp_growth_limit_inner\<close>, \<open>Clear_\<close> states those of \<^verbatim>\<open>clear_growth_limit\<close>.\<close>

datatype lpc =
    Trigger pc
  | Clamp_Load
  | Clamp_Store usize
  | Clear_Load_Capacity
  | Clear_Load_Limit usize
  | Clear_Load_Target usize usize
  | Clear_Store_Target usize
  | Clear_Store_Limit usize

inductive lstep :: "'b build_scheme \<Rightarrow> ArtTrigger \<times> lpc \<Rightarrow> ArtTrigger \<times> lpc \<Rightarrow> bool" for B where
  trigger: "tstep B (t, c) (t', c') \<Longrightarrow> lstep B (t, Trigger c) (t', Trigger c')"
| clamp: "lstep B (t, Trigger Idle) (t, Clamp_Load)"
| clamp_load: "lstep B (t, Clamp_Load) (t, Clamp_Store (growth_limit t))"
| clamp_store: "lstep B (t, Clamp_Store g) (t\<lparr>capacity := g\<rparr>, Trigger Idle)"
| clear: "lstep B (t, Trigger Idle) (t, Clear_Load_Capacity)"
| clear_capacity: "lstep B (t, Clear_Load_Capacity) (t, Clear_Load_Limit (capacity t))"
| clear_limit: "lstep B (t, Clear_Load_Limit cap) (t, Clear_Load_Target cap (growth_limit t))"
| clear_at_limit: "target_footprint t = glim \<Longrightarrow> glim < cap \<Longrightarrow>
    lstep B (t, Clear_Load_Target cap glim) (t, Clear_Store_Target cap)"
| clear_below_limit: "\<not> (target_footprint t = glim \<and> glim < cap) \<Longrightarrow>
    lstep B (t, Clear_Load_Target cap glim) (t, Clear_Store_Limit cap)"
| clear_store_target: "lstep B (t, Clear_Store_Target cap)
    (set_concurrent_start_pages (t\<lparr>target_footprint := cap\<rparr>), Clear_Store_Limit cap)"
| clear_store_limit: "lstep B (t, Clear_Store_Limit cap) (t\<lparr>growth_limit := cap\<rparr>, Trigger Idle)"

abbreviation lsys_step :: "'b build_scheme \<Rightarrow> ArtTrigger \<times> (nat \<Rightarrow> lpc) \<Rightarrow> ArtTrigger \<times> (nat \<Rightarrow> lpc) \<Rightarrow> bool" where
  "lsys_step B \<equiv> interleave (lstep B)"

text \<open>A thread that runs alone does what the sequential operation does.\<close>

lemma clamp_alone: "(lstep B)\<^sup>*\<^sup>* (t, Trigger Idle) (clamp_growth_limit t, Trigger Idle)"
  using lstep.clamp [of B t] lstep.clamp_load [of B t] lstep.clamp_store [of B t "growth_limit t"]
  unfolding clamp_growth_limit_def clamp_growth_limit_inner_def
  by (meson converse_rtranclp_into_rtranclp rtranclp.rtrancl_refl)

lemma clear_load_run:
  "(lstep B)\<^sup>*\<^sup>* (t, Trigger Idle) (t, Clear_Load_Target (capacity t) (growth_limit t))"
  using lstep.clear [of B t] lstep.clear_capacity [of B t] lstep.clear_limit [of B t "capacity t"]
  by (meson converse_rtranclp_into_rtranclp rtranclp.rtrancl_refl)

lemma clear_store_run:
  "(lstep B)\<^sup>*\<^sup>* (t, Clear_Load_Target (capacity t) (growth_limit t)) (clear_growth_limit t, Trigger Idle)"
proof (cases "target_footprint t = growth_limit t \<and> growth_limit t < capacity t")
  case True
  let ?t = "t\<lparr>target_footprint := capacity t\<rparr>"
  have eq: "clear_growth_limit t = ?t\<lparr>growth_limit := capacity t\<rparr>"
    using True by (simp add: clear_growth_limit_def set_concurrent_start_pages_def Let_def)
  show ?thesis
    unfolding eq
    using lstep.clear_at_limit [OF conjunct1 [OF True] conjunct2 [OF True], of B]
      lstep.clear_store_target [of B t "capacity t", unfolded set_concurrent_start_pages_def]
      lstep.clear_store_limit [of B ?t "capacity t"]
    by (meson converse_rtranclp_into_rtranclp rtranclp.rtrancl_refl)
next
  case False
  then have eq: "clear_growth_limit t = t\<lparr>growth_limit := capacity t\<rparr>"
    by (auto simp: clear_growth_limit_def Let_def)
  show ?thesis
    unfolding eq
    using lstep.clear_below_limit [OF False, of B] lstep.clear_store_limit [of B t "capacity t"]
    by (meson converse_rtranclp_into_rtranclp rtranclp.rtrancl_refl)
qed

lemma clear_alone: "(lstep B)\<^sup>*\<^sup>* (t, Trigger Idle) (clear_growth_limit t, Trigger Idle)"
  using clear_load_run clear_store_run by (rule rtranclp_trans)

section \<open>What every interleaving keeps\<close>

text \<open>Every size a thread carries is at most \<open>cap0\<close>, the capacity the trigger started with.\<close>

fun carried :: "pc \<Rightarrow> usize list" where
  "carried (Poll_Exchange old p new) = [new]"
| "carried (Jank_Exchange tf fg) = [fg]"
| "carried c = []"

fun lcarried :: "lpc \<Rightarrow> usize list" where
  "lcarried (Trigger c) = carried c"
| "lcarried (Clamp_Store g) = [g]"
| "lcarried (Clear_Load_Limit cap) = [cap]"
| "lcarried (Clear_Load_Target cap glim) = [cap]"
| "lcarried (Clear_Store_Target cap) = [cap]"
| "lcarried (Clear_Store_Limit cap) = [cap]"
| "lcarried _ = []"

lemma tstep_sizes:
  assumes "tstep B (t, c) (t', c')" "sizes_below cap0 t" "\<forall>x \<in> set (carried c). x \<le> cap0"
  shows "sizes_below cap0 t' \<and> (\<forall>x \<in> set (carried c'). x \<le> cap0)"
  using assms by (auto simp: sizes_below_def elim!: tstep_cases poll_stepE jank_stepE)

lemma lstep_sizes:
  assumes "lstep B (t, c) (t', c')" "sizes_below cap0 t" "\<forall>x \<in> set (lcarried c). x \<le> cap0"
  shows "sizes_below cap0 t' \<and> (\<forall>x \<in> set (lcarried c'). x \<le> cap0)"
  using assms
proof (induction "(t, c)" "(t', c')" arbitrary: t c t' c' rule: lstep.induct)
  case (trigger t c t' c')
  then show ?case using tstep_sizes [OF trigger.hyps] by simp
qed (auto simp: sizes_below_def set_concurrent_start_pages_def)

section \<open>A race between the limits\<close>

text \<open>
  C34. Clamping the capacity while another thread clears the growth limit can leave the growth limit
  above the capacity for good: the clamping thread loads the old growth limit, the other one
  raises it to the capacity, and then the capacity is lowered to the old value. This happens for
  every trigger whose growth limit is below its capacity.
\<close>

theorem clamp_clear_race:
  assumes "trigger_inv t" "growth_limit t < capacity t"
  shows "\<exists>t' ps. (lsys_step B)\<^sup>*\<^sup>* (t, \<lambda>_. Trigger Idle) (t', ps) \<and> (\<forall>i. ps i = Trigger Idle) \<and>
    capacity t' = growth_limit t \<and> growth_limit t' = capacity t \<and> capacity t' < growth_limit t'"
proof -
  let ?ps = "(\<lambda>_. Trigger Idle)((0 :: nat) := Clamp_Store (growth_limit t))" and ?t = "clear_growth_limit t"
  let ?t' = "?t\<lparr>capacity := growth_limit t\<rparr>"
  have "(lstep B)\<^sup>*\<^sup>* (t, Trigger Idle) (t, Clamp_Store (growth_limit t))"
    using lstep.clamp [of B t] lstep.clamp_load [of B t]
    by (meson converse_rtranclp_into_rtranclp rtranclp.rtrancl_refl)
  then have a: "(lsys_step B)\<^sup>*\<^sup>* (t, \<lambda>_. Trigger Idle) (t, ?ps)" by (rule thread_run)
  have b: "(lsys_step B)\<^sup>*\<^sup>* (t, ?ps) (?t, ?ps(1 := Trigger Idle))"
    by (rule thread_run) (simp add: clear_alone)
  have "(lstep B)\<^sup>*\<^sup>* (?t, (?ps(1 := Trigger Idle)) 0) (?t', Trigger Idle)"
    using lstep.clamp_store [of B ?t "growth_limit t"] by auto
  then have c: "(lsys_step B)\<^sup>*\<^sup>* (?t, ?ps(1 := Trigger Idle)) (?t', ?ps(1 := Trigger Idle, 0 := Trigger Idle))"
    by (rule thread_run)
  have "capacity ?t' = growth_limit t" "growth_limit ?t' = capacity t"
    by (simp_all add: clear_growth_limit_def set_concurrent_start_pages_def Let_def)
  with rtranclp_trans [OF rtranclp_trans [OF a b] c] assms(2) show ?thesis
    by (intro exI [of _ ?t'] exI [of _ "?ps(1 := Trigger Idle, 0 := Trigger Idle)"]) auto
qed

section \<open>Concrete runs\<close>

lemma sample_limits: "trigger_inv sample_trigger" "growth_limit sample_trigger < capacity sample_trigger"
  by (simp_all add: trigger_inv_def sample_eval)

theorem clamp_clear_race_witness:
  "\<exists>t ps. (lsys_step android_build)\<^sup>*\<^sup>* (sample_trigger, \<lambda>_. Trigger Idle) (t, ps) \<and> capacity t < growth_limit t"
  using clamp_clear_race [OF sample_limits, of android_build] by blast

end
