(* ===== verification/Gc_End_Conc.thy ===== *)
theory Gc_End_Conc
  imports Limit_Conc
begin

text \<open>
  The rest of the trigger cut into its atomic accesses: the start and the end of a collection with
  \<^verbatim>\<open>grow_for_utilization\<close>, and \<^verbatim>\<open>clamp_max_heap_size\<close>. A collection stops the mutators, but not the
  threads of ART that report a change of the process state or change the limits of the heap, and
  \<^verbatim>\<open>mmtk_clamp_max_heap_size\<close> takes no lock. Together with \<^verbatim>\<open>Limit_Conc\<close> these are all operations of
  \<^verbatim>\<open>gc_trigger.rs\<close> that write the state.
\<close>

section \<open>Atomic steps\<close>

text \<open>
  \<open>Ideal_\<close> states are those of \<^verbatim>\<open>set_ideal_footprint\<close>, with what is left to do after it: nothing for
  \<^verbatim>\<open>clamp_max_heap_size\<close>, and the foreground target for a collection, from the reserved pages, the
  multiplier and the growth. \<open>Gc_\<close> states are those of \<^verbatim>\<open>grow_for_utilization\<close> and \<^verbatim>\<open>on_gc_end\<close>.
\<close>

datatype gpc =
    Limits lpc
  | Max_Store_Capacity usize
  | Max_Store_Limit usize
  | Ideal_Compare usize "(usize \<times> f64 \<times> usize) option"
  | Ideal_Load_Limit "(usize \<times> f64 \<times> usize) option"
  | Ideal_Store usize "(usize \<times> f64 \<times> usize) option"
  | Gc_Compare_Target usize f64 usize
  | Gc_Load_Target usize f64
  | Gc_Compare_Pending usize f64 usize usize
  | Gc_Add_Pending usize f64 usize usize
  | Gc_Foreground usize f64 usize
  | Gc_Store_Foreground usize
  | Gc_Clear_Pending
  | Gc_Clear_Reserved
  | Gc_Panicked panic

abbreviation at_rest :: gpc where
  "at_rest \<equiv> Limits (Trigger Idle)"

text \<open>\<^verbatim>\<open>set_ideal_footprint\<close>, which two operations call:\<close>

inductive ideal_step :: "ArtTrigger \<times> gpc \<Rightarrow> ArtTrigger \<times> gpc \<Rightarrow> bool" where
  ideal_above: "growth_limit t < tf \<Longrightarrow> ideal_step (t, Ideal_Compare tf k) (t, Ideal_Load_Limit k)"
| ideal_within: "\<not> growth_limit t < tf \<Longrightarrow> ideal_step (t, Ideal_Compare tf k) (t, Ideal_Store tf k)"
| ideal_limit: "ideal_step (t, Ideal_Load_Limit k) (t, Ideal_Store (growth_limit t) k)"
| ideal_store_max: "ideal_step (t, Ideal_Store tf None)
    (set_concurrent_start_pages (t\<lparr>target_footprint := tf\<rparr>), at_rest)"
| ideal_store_gc: "ideal_step (t, Ideal_Store tf (Some (reserved, mult, grow)))
    (t\<lparr>target_footprint := tf\<rparr>, Gc_Foreground reserved mult grow)"

text \<open>\<^verbatim>\<open>clamp_max_heap_size\<close>:\<close>

inductive max_step :: "'w env \<Rightarrow> ArtTrigger \<times> gpc \<Rightarrow> ArtTrigger \<times> gpc \<Rightarrow> bool" for E where
  max: "max_step E (t, at_rest) (t, Max_Store_Capacity (drop_bit (LOG_BYTES_IN_PAGE E) bytes))"
| max_capacity: "max_step E (t, Max_Store_Capacity p) (t\<lparr>capacity := p\<rparr>, Max_Store_Limit p)"
| max_limit: "max_step E (t, Max_Store_Limit p) (t\<lparr>growth_limit := p\<rparr>, Ideal_Compare p None)"

text \<open>\<^verbatim>\<open>on_gc_end\<close> with \<^verbatim>\<open>grow_for_utilization\<close>:\<close>

inductive gc_step :: "'w env \<Rightarrow> ArtTrigger \<times> gpc \<Rightarrow> ArtTrigger \<times> gpc \<Rightarrow> bool" for E where
  gc_nursery: "mult = get_heap_growth_multiplier t jank \<Longrightarrow>
    add_chk E reserved (u64_of_f64 (f64_mul (f64_of_u64 (max_free t)) mult)) = Inr s \<Longrightarrow>
    gc_step E (t, at_rest) (t, Gc_Compare_Target reserved mult s)"
| gc_nursery_panics: "mult = get_heap_growth_multiplier t jank \<Longrightarrow>
    add_chk E reserved (u64_of_f64 (f64_mul (f64_of_u64 (max_free t)) mult)) = Inl p \<Longrightarrow>
    gc_step E (t, at_rest) (t, Gc_Panicked p)"
| gc_full: "mult = get_heap_growth_multiplier t jank \<Longrightarrow>
    target_and_growth E reserved mult False t = Inr (target, grow) \<Longrightarrow>
    gc_step E (t, at_rest) (t, Gc_Compare_Pending reserved mult target grow)"
| gc_full_panics: "mult = get_heap_growth_multiplier t jank \<Longrightarrow>
    target_and_growth E reserved mult False t = Inl p \<Longrightarrow> gc_step E (t, at_rest) (t, Gc_Panicked p)"
| gc_below: "s < target_footprint t \<Longrightarrow>
    gc_step E (t, Gc_Compare_Target reserved mult s) (t, Gc_Compare_Pending reserved mult s (max_free t))"
| gc_not_below: "\<not> s < target_footprint t \<Longrightarrow>
    gc_step E (t, Gc_Compare_Target reserved mult s) (t, Gc_Load_Target reserved mult)"
| gc_load_target: "gc_step E (t, Gc_Load_Target reserved mult)
    (t, Gc_Compare_Pending reserved mult (Orderings.max reserved (target_footprint t)) 0)"
| gc_sub_panics: "sub_chk E target reserved = Inl p \<Longrightarrow>
    gc_step E (t, Gc_Compare_Pending reserved mult target grow) (t, Gc_Panicked p)"
| gc_fits: "sub_chk E target reserved = Inr free \<Longrightarrow> \<not> free < pending_allocation t \<Longrightarrow>
    gc_step E (t, Gc_Compare_Pending reserved mult target grow) (t, Ideal_Compare target (Some (reserved, mult, grow)))"
| gc_short: "sub_chk E target reserved = Inr free \<Longrightarrow> free < pending_allocation t \<Longrightarrow>
    gc_step E (t, Gc_Compare_Pending reserved mult target grow) (t, Gc_Add_Pending reserved mult target grow)"
| gc_add: "add_chk E target (pending_allocation t) = Inr target' \<Longrightarrow>
    gc_step E (t, Gc_Add_Pending reserved mult target grow) (t, Ideal_Compare target' (Some (reserved, mult, grow)))"
| gc_add_panics: "add_chk E target (pending_allocation t) = Inl p \<Longrightarrow>
    gc_step E (t, Gc_Add_Pending reserved mult target grow) (t, Gc_Panicked p)"
| gc_foreground: "foreground_target E reserved mult grow t = Inr fg \<Longrightarrow>
    gc_step E (t, Gc_Foreground reserved mult grow) (t, Gc_Store_Foreground fg)"
| gc_foreground_panics: "foreground_target E reserved mult grow t = Inl p \<Longrightarrow>
    gc_step E (t, Gc_Foreground reserved mult grow) (t, Gc_Panicked p)"
| gc_store_foreground: "gc_step E (t, Gc_Store_Foreground fg)
    (t\<lparr>min_foreground_target_footprint := fg\<rparr>, Gc_Clear_Pending)"
| gc_clear_pending: "gc_step E (t, Gc_Clear_Pending) (t\<lparr>pending_allocation := 0\<rparr>, Gc_Clear_Reserved)"
| gc_clear_reserved: "gc_step E (t, Gc_Clear_Reserved) (t\<lparr>reserved_pages_before_gc := 0\<rparr>, at_rest)"

text \<open>A step of a thread: \<^verbatim>\<open>on_gc_start\<close>, which is one store, or a step of any other operation.\<close>

inductive gstep :: "'w env \<Rightarrow> ArtTrigger \<times> gpc \<Rightarrow> ArtTrigger \<times> gpc \<Rightarrow> bool" for E where
  limits: "lstep E (t, c) (t', c') \<Longrightarrow> gstep E (t, Limits c) (t', Limits c')"
| gc_start: "gstep E (t, at_rest) (on_gc_start reserved t, at_rest)"
| ideals: "ideal_step (t, c) (t', c') \<Longrightarrow> gstep E (t, c) (t', c')"
| maxs: "max_step E (t, c) (t', c') \<Longrightarrow> gstep E (t, c) (t', c')"
| gcs: "gc_step E (t, c) (t', c') \<Longrightarrow> gstep E (t, c) (t', c')"

lemmas gstep_max = gstep.maxs [OF max_step.max]
lemmas gstep_max_capacity = gstep.maxs [OF max_step.max_capacity]
lemmas gstep_max_limit = gstep.maxs [OF max_step.max_limit]
lemmas gstep_ideal_above = gstep.ideals [OF ideal_step.ideal_above]
lemmas gstep_ideal_within = gstep.ideals [OF ideal_step.ideal_within]
lemmas gstep_ideal_limit = gstep.ideals [OF ideal_step.ideal_limit]
lemmas gstep_ideal_store_max = gstep.ideals [OF ideal_step.ideal_store_max]
lemmas gstep_ideal_store_gc = gstep.ideals [OF ideal_step.ideal_store_gc]
lemmas gstep_gc_nursery = gstep.gcs [OF gc_step.gc_nursery]
lemmas gstep_gc_nursery_panics = gstep.gcs [OF gc_step.gc_nursery_panics]
lemmas gstep_gc_full = gstep.gcs [OF gc_step.gc_full]
lemmas gstep_gc_full_panics = gstep.gcs [OF gc_step.gc_full_panics]
lemmas gstep_gc_below = gstep.gcs [OF gc_step.gc_below]
lemmas gstep_gc_not_below = gstep.gcs [OF gc_step.gc_not_below]
lemmas gstep_gc_load_target = gstep.gcs [OF gc_step.gc_load_target]
lemmas gstep_gc_sub_panics = gstep.gcs [OF gc_step.gc_sub_panics]
lemmas gstep_gc_fits = gstep.gcs [OF gc_step.gc_fits]
lemmas gstep_gc_short = gstep.gcs [OF gc_step.gc_short]
lemmas gstep_gc_add = gstep.gcs [OF gc_step.gc_add]
lemmas gstep_gc_add_panics = gstep.gcs [OF gc_step.gc_add_panics]
lemmas gstep_gc_foreground = gstep.gcs [OF gc_step.gc_foreground]
lemmas gstep_gc_foreground_panics = gstep.gcs [OF gc_step.gc_foreground_panics]
lemmas gstep_gc_store_foreground = gstep.gcs [OF gc_step.gc_store_foreground]
lemmas gstep_gc_clear_pending = gstep.gcs [OF gc_step.gc_clear_pending]
lemmas gstep_gc_clear_reserved = gstep.gcs [OF gc_step.gc_clear_reserved]

abbreviation gsys_step :: "'w env \<Rightarrow> ArtTrigger \<times> (nat \<Rightarrow> gpc) \<Rightarrow> ArtTrigger \<times> (nat \<Rightarrow> gpc) \<Rightarrow> bool" where
  "gsys_step E \<equiv> interleave (gstep E)"

text \<open>The steps of threads that never ask for a maximum heap size of more than \<open>M\<close> pages.\<close>

definition gstep_upto :: "'w env \<Rightarrow> usize \<Rightarrow> ArtTrigger \<times> gpc \<Rightarrow> ArtTrigger \<times> gpc \<Rightarrow> bool" where
  "gstep_upto E M x y \<longleftrightarrow> gstep E x y \<and> (\<forall>p. snd y = Max_Store_Capacity p \<longrightarrow> p \<le> M)"

section \<open>What every interleaving keeps\<close>

fun gcarried :: "gpc \<Rightarrow> usize list" where
  "gcarried (Limits c) = lcarried c"
| "gcarried (Max_Store_Capacity p) = [p]"
| "gcarried (Max_Store_Limit p) = [p]"
| "gcarried (Ideal_Store tf k) = [tf]"
| "gcarried (Gc_Store_Foreground fg) = [fg]"
| "gcarried _ = []"

definition carries_below :: "usize \<Rightarrow> gpc \<Rightarrow> bool" where
  "carries_below cap0 c \<longleftrightarrow> list_all (\<lambda>x. x \<le> cap0) (gcarried c)"

inductive_cases ideal_stepE: "ideal_step (t, c) (t', c')"
inductive_cases max_stepE: "max_step E (t, c) (t', c')"
inductive_cases gc_stepE: "gc_step E (t, c) (t', c')"

lemma ideal_step_sizes:
  "ideal_step (t, c) (t', c') \<Longrightarrow> sizes_below cap0 t \<Longrightarrow> carries_below cap0 c \<Longrightarrow>
     sizes_below cap0 t' \<and> carries_below cap0 c'"
  by (auto simp: carries_below_def sizes_below_def set_concurrent_start_pages_def elim!: ideal_stepE)

lemma max_step_sizes:
  "max_step E (t, c) (t', c') \<Longrightarrow> sizes_below cap0 t \<Longrightarrow> carries_below cap0 c \<Longrightarrow>
     (\<forall>p. c' = Max_Store_Capacity p \<longrightarrow> p \<le> cap0) \<Longrightarrow> sizes_below cap0 t' \<and> carries_below cap0 c'"
  by (auto simp: carries_below_def sizes_below_def elim!: max_stepE)

lemma gc_step_sizes:
  "gc_step E (t, c) (t', c') \<Longrightarrow> sizes_below cap0 t \<Longrightarrow> carries_below cap0 c \<Longrightarrow>
     sizes_below cap0 t' \<and> carries_below cap0 c'"
  by (auto simp: carries_below_def sizes_below_def elim!: gc_stepE dest!: foreground_target_le)

lemma gstep_sizes:
  assumes "gstep_upto E cap0 (t, c) (t', c')" "sizes_below cap0 t" "carries_below cap0 c"
  shows "sizes_below cap0 t' \<and> carries_below cap0 c'"
proof -
  have step: "gstep E (t, c) (t', c')" and req: "\<forall>p. c' = Max_Store_Capacity p \<longrightarrow> p \<le> cap0"
    using assms(1) by (simp_all add: gstep_upto_def)
  from step show ?thesis
  proof cases
    case (limits c1 c2)
    then show ?thesis
      using lstep_sizes [OF limits(3) assms(2)] assms(3) by (simp add: carries_below_def list_all_iff)
  next
    case (gc_start reserved)
    then show ?thesis using assms(2) by (simp add: carries_below_def sizes_below_def on_gc_start_def)
  next
    case ideals
    then show ?thesis using assms(2,3) by (rule ideal_step_sizes)
  next
    case maxs
    then show ?thesis using assms(2,3) req by (rule max_step_sizes)
  next
    case gcs
    then show ?thesis using assms(2,3) by (rule gc_step_sizes)
  qed
qed

interpretation gc_threads: threads at_rest "gstep_upto E cap0" "sizes_below cap0" "\<lambda>_. carries_below cap0" for E cap0
proof unfold_locales
  fix t t' :: ArtTrigger and c c' :: gpc
  assume "gstep_upto E cap0 (t, c) (t', c')" "sizes_below cap0 t" "carries_below cap0 c"
  then show "sizes_below cap0 t' \<and> carries_below cap0 c'" by (rule gstep_sizes)
qed (simp_all add: carries_below_def)

text \<open>
  C21. Under every interleaving of all operations of the trigger on any number of threads, the end of
  collections and changes of the limits included, no size of the trigger ever exceeds the larger of
  the capacity it started with and the largest maximum heap size that is set. The races that break
  the order of the limits therefore do not let the heap outgrow what ART has allowed at some time.
\<close>

theorem concurrent_capacity:
  assumes "trigger_inv t" "(interleave (gstep_upto E M))\<^sup>*\<^sup>* (t, \<lambda>_. at_rest) (t', ps)"
  shows "target_footprint t' \<le> max (capacity t) M \<and> growth_limit t' \<le> max (capacity t) M \<and>
    capacity t' \<le> max (capacity t) M \<and> min_foreground_target_footprint t' \<le> max (capacity t) M"
proof -
  have "sizes_below (max (capacity t) M) t" using assms(1) by (auto simp: trigger_inv_def sizes_below_def le_max_iff_disj)
  moreover have "(interleave (gstep_upto E (max (capacity t) M)))\<^sup>*\<^sup>* (t, \<lambda>_. at_rest) (t', ps)"
  proof (rule rtranclp_mono [THEN predicate2D, OF _ assms(2)], rule predicate2I)
    fix x y assume "interleave (gstep_upto E M) x y"
    then show "interleave (gstep_upto E (max (capacity t) M)) x y"
      by (cases rule: interleave.cases) (auto simp: gstep_upto_def le_max_iff_disj intro: interleave.thread)
  qed
  ultimately show ?thesis
    using gc_threads.inv_reachable [of "max (capacity t) M" "(t, \<lambda>_. at_rest)" E "(t', ps)"] by (simp add: sizes_below_def)
qed

section \<open>The sequential operations are runs\<close>

lemma lift_trigger: "(tstep B)\<^sup>*\<^sup>* (t, c) (t', c') \<Longrightarrow> (lstep B)\<^sup>*\<^sup>* (t, Trigger c) (t', Trigger c')"
  by (induction rule: rtranclp_induct2) (auto intro: rtranclp.rtrancl_into_rtrancl lstep.trigger)

lemma lift_limits: "(lstep E)\<^sup>*\<^sup>* (t, c) (t', c') \<Longrightarrow> (gstep E)\<^sup>*\<^sup>* (t, Limits c) (t', Limits c')"
  by (induction rule: rtranclp_induct2) (auto intro: rtranclp.rtrancl_into_rtrancl gstep.limits)

lemma poll_load_run:
  assumes "add_chk B r (pending_allocation t) = Inr new"
  shows "(tstep B)\<^sup>*\<^sup>* (t, Poll_Load_Target) (t, Poll_Compare (target_footprint t) (pending_allocation t) new)"
  using tstep_load_target [of B t] tstep_load_reserved [of B t "target_footprint t" r]
    tstep_load_pending [OF assms, of "target_footprint t"]
  by (meson converse_rtranclp_into_rtranclp rtranclp.rtrancl_refl)

lemma poll_alone:
  "is_gc_required_loop B its t = Some (Inr (gc, t')) \<Longrightarrow> (tstep B)\<^sup>*\<^sup>* (t, Poll_Load_Target) (t', Idle)"
proof (induction B its t rule: is_gc_required_loop.induct)
  case (2 B r spurious its t)
  let ?old = "target_footprint t" and ?p = "pending_allocation t"
  obtain new where new: "add_chk B r ?p = Inr new"
    using "2.prems" by (cases "add_chk B r ?p") auto
  note load = poll_load_run [OF new]
  consider (within) "new \<le> ?old" | (above) "\<not> new \<le> ?old" "growth_limit t < new"
    | (retry) "\<not> new \<le> ?old" "\<not> growth_limit t < new" spurious
    | (ok) "\<not> new \<le> ?old" "\<not> growth_limit t < new" "\<not> spurious" by blast
  then have "(tstep B)\<^sup>*\<^sup>* (t, Poll_Compare ?old ?p new) (t', Idle)"
  proof cases
    case within
    then have "t' = t" using "2.prems" new by simp
    then show ?thesis
      using tstep_within_target [OF within, of B t ?p] tstep_poll_returns [of B t False]
      by (meson converse_rtranclp_into_rtranclp rtranclp.rtrancl_refl)
  next
    case above
    then have "t' = t" using "2.prems" new by simp
    then show ?thesis
      using tstep_above_limit [OF above, of B ?p] tstep_poll_returns [of B t True]
      by (meson converse_rtranclp_into_rtranclp rtranclp.rtrancl_refl)
  next
    case retry
    then have "(tstep B)\<^sup>*\<^sup>* (t, Poll_Load_Target) (t', Idle)"
      using "2.IH" [OF refl refl new] "2.prems" new by simp
    then show ?thesis
      using tstep_between [OF retry(1,2), of B ?p] tstep_exchange_fails [of B t ?old ?p new]
      by (meson converse_rtranclp_into_rtranclp)
  next
    case ok
    let ?t = "t\<lparr>target_footprint := new\<rparr>"
    have "t' = ?t\<lparr>pending_allocation := pending_allocation ?t - ?p\<rparr>" using "2.prems" new ok by simp
    then show ?thesis
      using tstep_between [OF ok(1,2), of B ?p] tstep_exchange_ok [OF refl, of B t ?p new]
        subtract_run [of B ?t ?p]
      by (meson converse_rtranclp_into_rtranclp)
  qed
  with load show ?case by (rule rtranclp_trans)
qed simp

lemma jank_alone:
  assumes "grow_heap_size_for_event t = Some t'"
  shows "(tstep B)\<^sup>*\<^sup>* (t, Idle) (t', Idle)"
proof (cases "target_footprint t < min_foreground_target_footprint t")
  case True
  then have "t' = t\<lparr>target_footprint := min_foreground_target_footprint t\<rparr>"
    using assms by (simp add: grow_heap_size_for_event_def jank_switch_eq max.absorb1 max.absorb2 less_imp_le)
  then show ?thesis
    using jank_run [OF True, of B] tstep_jank_ok [OF refl, of B t "min_foreground_target_footprint t"]
    by (metis rtranclp.rtrancl_into_rtrancl)
next
  case False
  then have "t' = t"
    using assms by (simp add: grow_heap_size_for_event_def jank_switch_eq max.absorb1 max.absorb2 less_imp_le)
  then show ?thesis
    using tstep_jank [of B t] tstep_jank_load [of B t] tstep_jank_skip [OF False, of B]
    by (meson converse_rtranclp_into_rtranclp rtranclp.rtrancl_refl)
qed

lemma ideal_run:
  "(gstep E)\<^sup>*\<^sup>* (t, Ideal_Compare tf k) (t, Ideal_Store (target_footprint (set_ideal_footprint tf t)) k)"
proof (cases "growth_limit t < tf")
  case True
  then have "target_footprint (set_ideal_footprint tf t) = growth_limit t" by simp
  then show ?thesis
    using gstep_ideal_above [OF True, of E k] gstep_ideal_limit [of E t k]
    by (metis converse_rtranclp_into_rtranclp rtranclp.rtrancl_refl)
next
  case False
  then have "target_footprint (set_ideal_footprint tf t) = tf" by simp
  then show ?thesis using gstep_ideal_within [OF False, of E k] by auto
qed

lemma set_ideal_target: "t\<lparr>target_footprint := target_footprint (set_ideal_footprint tf t)\<rparr> = set_ideal_footprint tf t"
  by (simp add: set_ideal_footprint_def)

lemma clamp_max_alone:
  shows "(gstep E)\<^sup>*\<^sup>* (t, at_rest) (snd (clamp_max_heap_size E bytes t), at_rest)"
proof -
  let ?p = "drop_bit (LOG_BYTES_IN_PAGE E) bytes"
  let ?t = "t\<lparr>capacity := ?p, growth_limit := ?p\<rparr>"
  have "(gstep E)\<^sup>*\<^sup>* (t, at_rest) (?t, Ideal_Compare ?p None)"
    using gstep_max [of E t bytes] gstep_max_capacity [of E t ?p]
      gstep_max_limit [of E "t\<lparr>capacity := ?p\<rparr>" ?p]
    by (meson converse_rtranclp_into_rtranclp rtranclp.rtrancl_refl)
  also note ideal_run
  finally have run: "(gstep E)\<^sup>*\<^sup>* (t, at_rest) (?t, Ideal_Store (target_footprint (set_ideal_footprint ?p ?t)) None)" .
  have eq: "snd (clamp_max_heap_size E bytes t) = set_concurrent_start_pages (set_ideal_footprint ?p ?t)"
    by (simp add: clamp_max_heap_size_def Let_def)
  from run gstep_ideal_store_max [of E ?t "target_footprint (set_ideal_footprint ?p ?t)", unfolded set_ideal_target]
  show ?thesis unfolding eq by (rule rtranclp.rtrancl_into_rtrancl)
qed

lemma gc_target_run:
  assumes "target_and_growth E reserved (get_heap_growth_multiplier t jank) nursery t = Inr (target, grow)"
  shows "(gstep E)\<^sup>*\<^sup>* (t, at_rest)
    (t, Gc_Compare_Pending reserved (get_heap_growth_multiplier t jank) target grow)"
proof (cases nursery)
  case True
  let ?mu = "get_heap_growth_multiplier t jank"
  obtain s where s: "add_chk E reserved (u64_of_f64 (f64_mul (f64_of_u64 (max_free t)) ?mu)) = Inr s"
    and target: "(target, grow) =
      (if s < target_footprint t then (s, max_free t) else (Orderings.max reserved (target_footprint t), 0))"
    using assms True by (auto simp: target_and_growth_def and_then_eq_Inr split: if_splits)
  note start = gstep_gc_nursery [OF refl s]
  show ?thesis
  proof (cases "s < target_footprint t")
    case lt: True
    then show ?thesis
      using start gstep_gc_below [OF lt, of E reserved ?mu] target
      by (auto intro: converse_rtranclp_into_rtranclp)
  next
    case False
    then show ?thesis
      using start gstep_gc_not_below [OF False, of E reserved ?mu] gstep_gc_load_target [of E t reserved ?mu] target
      by (auto intro: converse_rtranclp_into_rtranclp)
  qed
next
  case False
  then show ?thesis using gstep_gc_full [OF refl, of E reserved t jank] assms by auto
qed

lemma gc_pending_run:
  assumes "add_pending E reserved target t = Inr target'"
  shows "(gstep E)\<^sup>*\<^sup>* (t, Gc_Compare_Pending reserved mult target grow)
    (t, Ideal_Compare target' (Some (reserved, mult, grow)))"
proof -
  obtain free where free: "sub_chk E target reserved = Inr free"
    using assms by (auto simp: add_pending_def and_then_eq_Inr)
  show ?thesis
  proof (cases "free < pending_allocation t")
    case True
    then have "add_chk E target (pending_allocation t) = Inr target'"
      using assms free by (simp add: add_pending_def)
    from gstep_gc_short [OF free True, of mult grow] gstep_gc_add [OF this, of reserved mult grow]
    show ?thesis by (meson converse_rtranclp_into_rtranclp rtranclp.rtrancl_refl)
  next
    case False
    then have "target' = target" using assms free by (simp add: add_pending_def)
    then show ?thesis using gstep_gc_fits [OF free False, of mult grow] by auto
  qed
qed

lemma gc_end_alone:
  assumes "on_gc_end E reserved jank nursery t = Inr t'"
  shows "(gstep E)\<^sup>*\<^sup>* (t, at_rest) (t', at_rest)"
proof -
  let ?mu = "get_heap_growth_multiplier t jank"
  obtain target grow target' fg where
      parts: "target_and_growth E reserved ?mu nursery t = Inr (target, grow)"
        "add_pending E reserved target t = Inr target'"
        "foreground_target E reserved ?mu grow (set_ideal_footprint target' t) = Inr fg"
      and t': "t' = (set_ideal_footprint target' t)\<lparr>min_foreground_target_footprint := fg,
        pending_allocation := 0, reserved_pages_before_gc := 0\<rparr>"
    using assms by (auto simp: on_gc_end_def grow_for_utilization_def and_then_eq_Inr Let_def)
  let ?t = "set_ideal_footprint target' t"
  have "(gstep E)\<^sup>*\<^sup>* (t, at_rest) (t, Gc_Compare_Pending reserved ?mu target grow)"
    by (rule gc_target_run [OF parts(1)])
  also note gc_pending_run [OF parts(2)]
  also note ideal_run
  also have "gstep E (t, Ideal_Store (target_footprint ?t) (Some (reserved, ?mu, grow))) (?t, Gc_Foreground reserved ?mu grow)"
    using gstep_ideal_store_gc [of E t "target_footprint ?t" reserved ?mu grow] unfolding set_ideal_target .
  also note gstep_gc_foreground [OF parts(3)]
  also note gstep_gc_store_foreground
  also note gstep_gc_clear_pending
  also note gstep_gc_clear_reserved
  finally show ?thesis by (simp add: t')
qed

text \<open>
  The sequential operations are what the atomic accesses do when nothing interferes: every
  sequence of calls of the trigger's methods, as the other theorems about the trigger describe them,
  is a run of the concurrent system.
\<close>

lemma call_is_run:
  assumes "trigger_call E call t t'"
  shows "(gstep E)\<^sup>*\<^sup>* (t, at_rest) (t', at_rest)"
  using assms
proof cases
  case (call_pending pages)
  then show ?thesis
    using lift_limits [OF lift_trigger [OF r_into_rtranclp [of "tstep E", OF tstep.pending]]] by simp
next
  case (call_gc_start reserved)
  then show ?thesis using gstep.gc_start [of E t reserved] by auto
next
  case (call_gc_end reserved jank nursery)
  then show ?thesis by (intro gc_end_alone)
next
  case (call_poll its c gc)
  then obtain gc' where "is_gc_required_loop E its t = Some (Inr (gc', t'))"
    by (auto simp: is_gc_required_def and_then_eq_Inr)
  from converse_rtranclp_into_rtranclp [of "tstep E", OF tstep_poll poll_alone [OF this]]
  show ?thesis by (intro lift_limits lift_trigger)
next
  case call_jank
  then show ?thesis by (intro lift_limits lift_trigger jank_alone)
next
  case call_clamp_growth
  then show ?thesis using lift_limits [OF clamp_alone] by simp
next
  case call_clear_growth
  then show ?thesis using lift_limits [OF clear_alone] by (simp add: policy_clear_growth_limit_def)
next
  case (call_clamp_max bytes)
  then show ?thesis using clamp_max_alone [of E t bytes] by simp
qed

lemma operations_are_runs:
  assumes "(trigger_step E)\<^sup>*\<^sup>* t t'"
  shows "(gsys_step E)\<^sup>*\<^sup>* (t, \<lambda>_. at_rest) (t', \<lambda>_. at_rest)"
  using assms
proof (induction rule: rtranclp_induct)
  case (step u v)
  then have "(gstep E)\<^sup>*\<^sup>* (u, at_rest) (v, at_rest)" by (auto simp: trigger_step_def intro: call_is_run)
  from step.IH thread_run_idle [OF this] show ?case by (rule rtranclp_trans)
qed simp

section \<open>Concrete runs\<close>

text \<open>A clamp of the maximum below the capacity, by a thread that runs alone.\<close>

theorem concurrent_capacity_witness:
  "\<exists>t. (interleave (gstep_upto concrete_env 2048))\<^sup>*\<^sup>* (sample_trigger, \<lambda>_. at_rest)
      (t, (\<lambda>_. at_rest)(3 := Max_Store_Limit 2048)) \<and>
    capacity t = 2048 \<and> growth_limit t \<le> max (capacity sample_trigger) 2048"
proof -
  let ?t = "sample_trigger\<lparr>capacity := 2048\<rparr>"
  have "gstep_upto concrete_env 2048 (sample_trigger, at_rest) (sample_trigger, Max_Store_Capacity 2048)"
    using gstep_max [of concrete_env sample_trigger "0x800000"]
    by (simp add: gstep_upto_def env_with_def drop_bit_eq_div)
  moreover have "gstep_upto concrete_env 2048 (sample_trigger, Max_Store_Capacity 2048) (?t, Max_Store_Limit 2048)"
    using gstep_max_capacity [of concrete_env sample_trigger 2048] by (simp add: gstep_upto_def)
  ultimately have "(gstep_upto concrete_env 2048)\<^sup>*\<^sup>* (sample_trigger, at_rest) (?t, Max_Store_Limit 2048)"
    by (rule converse_rtranclp_into_rtranclp [OF _ r_into_rtranclp])
  then have run: "(interleave (gstep_upto concrete_env 2048))\<^sup>*\<^sup>* (sample_trigger, \<lambda>_. at_rest)
      (?t, (\<lambda>_. at_rest)(3 := Max_Store_Limit 2048))" by (rule thread_run)
  from concurrent_capacity [OF sample_limits(1) run] run show ?thesis by (intro exI [of _ ?t]) simp
qed

end
