(* ===== verification/Slots.thy ===== *)
theory Slots
  imports Binding
begin

text \<open>
  Memory accesses of the crate and the slot types of \<^verbatim>\<open>lib.rs\<close>: little-endian loads and
  stores on byte memory, compression of object references to 32 bits, \<^verbatim>\<open>ArtSlot\<close>,
  \<^verbatim>\<open>ArtMemorySlice\<close> with its iterator, and the raw copy between slices.
\<close>

section \<open>Loads and stores\<close>

definition load8 :: "mem \<Rightarrow> addr \<Rightarrow> u8" where
  "load8 m a = m a"

definition load16 :: "mem \<Rightarrow> addr \<Rightarrow> u16" where
  "load16 m a = ucast (m a) OR push_bit 8 (ucast (m (a + 1)))"

definition load32 :: "mem \<Rightarrow> addr \<Rightarrow> u32" where
  "load32 m a = ucast (m a) OR push_bit 8 (ucast (m (a + 1)))
     OR push_bit 16 (ucast (m (a + 2))) OR push_bit 24 (ucast (m (a + 3)))"

definition load64 :: "mem \<Rightarrow> addr \<Rightarrow> u64" where
  "load64 m a = ucast (load32 m a) OR push_bit 32 (ucast (load32 m (a + 4)))"

definition store32 :: "mem \<Rightarrow> addr \<Rightarrow> u32 \<Rightarrow> mem" where
  "store32 m a v = m(a := ucast v, a + 1 := ucast (drop_bit 8 v),
     a + 2 := ucast (drop_bit 16 v), a + 3 := ucast (drop_bit 24 v))"

definition store64 :: "mem \<Rightarrow> addr \<Rightarrow> u64 \<Rightarrow> mem" where
  "store64 m a v = store32 (store32 m a (ucast v)) (a + 4) (ucast (drop_bit 32 v))"

text \<open>Two 32-bit accesses that share no byte.\<close>

definition apart :: "addr \<Rightarrow> addr \<Rightarrow> bool" where
  "apart a b \<longleftrightarrow> 4 \<le> unat (b - a) \<and> 4 \<le> unat (a - b)"

text \<open>Two 64-bit accesses that share no byte.\<close>

definition apart64 :: "addr \<Rightarrow> addr \<Rightarrow> bool" where
  "apart64 a b \<longleftrightarrow> 8 \<le> unat (b - a) \<and> 8 \<le> unat (a - b)"

lemma load32_store32_same: "load32 (store32 m a v) a = v"
proof (rule bit_word_eqI)
  fix n
  assume "n < LENGTH(32)"
  then consider "n < 8" | "8 \<le> n" "n < 16" | "16 \<le> n" "n < 24" | "24 \<le> n" "n < 32"
    by fastforce
  then show "bit (load32 (store32 m a v) a) n = bit v n"
    by cases (auto simp: load32_def store32_def bit_simps)
qed

lemma apart_bytes:
  assumes "apart a b" "i < 4" "j < 4"
  shows "b + of_nat j \<noteq> a + of_nat i"
proof
  assume eq: "b + of_nat j = a + of_nat i"
  show False
  proof (cases "j \<le> i")
    case True
    then have "b - a = of_nat (i - j)" using eq by (simp add: of_nat_diff algebra_simps)
    moreover have "unat (of_nat (i - j) :: addr) < 4"
      using assms(2) by (simp add: unat_of_nat_small)
    ultimately show False using assms(1) by (simp add: apart_def)
  next
    case False
    then have "a - b = of_nat (j - i)" using eq by (simp add: of_nat_diff algebra_simps)
    moreover have "unat (of_nat (j - i) :: addr) < 4"
      using assms(3) by (simp add: unat_of_nat_small)
    ultimately show False using assms(1) by (simp add: apart_def)
  qed
qed

lemma load32_store32_apart: "apart a b \<Longrightarrow> load32 (store32 m a v) b = load32 m b"
proof -
  assume ap: "apart a b"
  have "b + of_nat j \<notin> {a, a + 1, a + 2, a + 3}" if "j < 4" for j
    using apart_bytes [OF ap, of 0 j] apart_bytes [OF ap, of 1 j] apart_bytes [OF ap, of 2 j]
      apart_bytes [OF ap, of 3 j] that by simp
  from this [of 0] this [of 1] this [of 2] this [of 3] show ?thesis
    by (simp add: load32_def store32_def)
qed

lemma apart64_shift:
  assumes "apart64 a b"
  shows "apart a b" "apart a (b + 4)"
proof -
  have "unat (b - a) + unat (a - b) = 2 ^ 64"
    using assms unsigned_less [of a, where ?'a = nat] unsigned_less [of b, where ?'a = nat]
    by (auto simp: apart64_def unat_sub_if' split: if_splits)
  moreover have "8 \<le> unat (b - a)" "8 \<le> unat (a - b)" using assms by (simp_all add: apart64_def)
  ultimately have "unat (b - a + 4) = unat (b - a) + 4" "unat (a - b - 4) = unat (a - b) - 4"
    by (subst unat_add_exact unat_sub_exact; simp add: word_le_nat_alt)+
  moreover have "b - a + 4 = b + 4 - a" "a - b - 4 = a - (b + 4)" by (simp_all add: algebra_simps)
  ultimately show "apart a b" "apart a (b + 4)"
    using \<open>8 \<le> unat (b - a)\<close> \<open>8 \<le> unat (a - b)\<close> by (simp_all add: apart_def)
qed

lemma apart64_apart:
  assumes "apart64 a b"
  shows "apart a b" "apart a (b + 4)" "apart (a + 4) b" "apart (a + 4) (b + 4)"
  using apart64_shift [OF assms] apart64_shift [of b a] assms
  by (auto simp: apart64_def apart_def)

lemma load64_store64_same: "load64 (store64 m a v) a = v"
proof -
  have "apart (a + 4) a" by (simp add: apart_def)
  then have "load64 (store64 m a v) a = ucast (ucast v :: u32) OR push_bit 32 (ucast (ucast (drop_bit 32 v) :: u32))"
    by (simp add: load64_def store64_def load32_store32_same load32_store32_apart)
  also have "\<dots> = v"
    by (rule bit_word_eqI) (auto simp: bit_simps)
  finally show ?thesis .
qed

lemma load64_store64_apart: "apart64 a b \<Longrightarrow> load64 (store64 m a v) b = load64 m b"
  by (simp add: load64_def store64_def load32_store32_apart apart64_apart)

text \<open>The memory whose aligned 32-bit words are given by a function.\<close>

definition mem_of_words :: "(addr \<Rightarrow> u32) \<Rightarrow> mem" where
  "mem_of_words f = (\<lambda>a. ucast (drop_bit (8 * (unat a mod 4)) (f (a - of_nat (unat a mod 4)))))"

lemma load32_mem_of_words:
  assumes "unat a mod 4 = 0"
  shows "load32 (mem_of_words f) a = f a"
proof -
  have len: "unat a + 4 \<le> 2 ^ 64"
    using assms unsigned_less [of a, where ?'a = nat] by simp presburger
  have m: "mem_of_words f (a + of_nat j) = ucast (drop_bit (8 * j) (f a))" if "j < 4" for j
  proof -
    have "unat (a + of_nat j) = unat a + j"
      using that len by (subst unat_add_exact) (simp_all add: unat_of_nat_small)
    then have "unat (a + of_nat j) mod 4 = j" using that assms by presburger
    then show ?thesis by (simp add: mem_of_words_def)
  qed
  have "store32 (\<lambda>_. 0) 0 (f a) 0 = ucast (f a)" by (simp add: store32_def)
  have "load32 (mem_of_words f) a = load32 (store32 (\<lambda>_. 0) 0 (f a)) 0"
    using m [of 0] m [of 1] m [of 2] m [of 3] by (simp add: load32_def store32_def)
  then show ?thesis by (simp add: load32_store32_same)
qed

text \<open>
  The interface of a word-addressed store, as the collector uses it through slots: a store is
  read back, and leaves every word it does not overlap alone.
\<close>

locale word_store =
  fixes ld :: "'m \<Rightarrow> addr \<Rightarrow> 'v"
    and st :: "'m \<Rightarrow> addr \<Rightarrow> 'v \<Rightarrow> 'm"
    and sep :: "addr \<Rightarrow> addr \<Rightarrow> bool"
  assumes ld_st_same: "ld (st m a v) a = v"
    and ld_st_sep: "sep a b \<Longrightarrow> ld (st m a v) b = ld m b"
begin

text \<open>Updating a list of pairwise separate words sets each of them and nothing else.\<close>

lemma ld_fold_other:
  "(\<And>a v. (a, v) \<in> set ws \<Longrightarrow> sep a b) \<Longrightarrow> ld (fold (\<lambda>(a, v) m. st m a v) ws m) b = ld m b"
proof (induction ws arbitrary: m)
  case (Cons w ws)
  obtain a v where w: "w = (a, v)" by force
  have "ld (fold (\<lambda>(a, v) m. st m a v) ws (st m a v)) b = ld (st m a v) b"
    using Cons.prems by (intro Cons.IH) auto
  also have "\<dots> = ld m b" using Cons.prems by (intro ld_st_sep) (auto simp: w)
  finally show ?case by (simp add: w)
qed simp

lemma ld_fold_same:
  assumes "(a, v) \<in> set ws" "sorted_wrt (\<lambda>x y. sep (fst y) (fst x)) ws"
  shows "ld (fold (\<lambda>(a, v) m. st m a v) ws m) a = v"
  using assms
proof (induction ws arbitrary: m)
  case (Cons w ws)
  show ?case
  proof (cases "(a, v) \<in> set ws")
    case True
    with Cons show ?thesis by (auto split: prod.splits)
  next
    case False
    with Cons.prems(1) have w: "w = (a, v)" by simp
    have "ld (fold (\<lambda>(a, v) m. st m a v) ws (st m a v)) a = ld (st m a v) a"
      using Cons.prems(2) by (intro ld_fold_other) (auto simp: w)
    then show ?thesis by (simp add: w ld_st_same)
  qed
qed simp

end

interpretation mem32: word_store load32 store32 apart
  by unfold_locales (simp_all add: load32_store32_same load32_store32_apart)

interpretation mem64: word_store load64 store64 apart64
  by unfold_locales (simp_all add: load64_store64_same load64_store64_apart)

section \<open>Compressed references and slots\<close>

definition LOG_BYTES_IN_INT :: nat where "LOG_BYTES_IN_INT = 2"
definition LOG_BYTES_IN_SLOT :: nat where "LOG_BYTES_IN_SLOT = 2"

definition compress :: "objref \<Rightarrow> u32" where
  "compress ob = ucast ob"

definition decompress :: "'w env \<Rightarrow> u32 \<Rightarrow> objref option" where
  "decompress E v = (if v = 0 then None else from_raw_address E (ucast v))"

definition slot_load :: "'w env \<Rightarrow> mem \<Rightarrow> ArtSlot \<Rightarrow> objref option" where
  "slot_load E m s = decompress E (load32 m (slot_address s))"

definition slot_store :: "mem \<Rightarrow> ArtSlot \<Rightarrow> objref \<Rightarrow> mem" where
  "slot_store m s ob = store32 m (slot_address s) (compress ob)"

definition slot_as_address :: "ArtSlot \<Rightarrow> addr" where
  "slot_as_address s = slot_address s"

lemma ucast_ucast_low:
  assumes "unat (a :: u64) < 2 ^ 32"
  shows "ucast (ucast a :: u32) = a"
proof -
  have "unat (ucast (ucast a :: u32) :: u64) = unat a"
    using assms by (simp add: unsigned_ucast_eq take_bit_eq_mod unat_mod)
  then show ?thesis by (simp add: word_unat_eq_iff)
qed

text \<open>
  Storing a reference in a slot and loading the slot gives the reference back, as long as
  the reference lies in the low 4 GB that compressed references can express; other slots are
  unchanged.
\<close>

lemma slot_store_load:
  assumes "from_raw_address_law E" "ob \<noteq> 0" "unat ob < 2 ^ 32"
  shows "slot_load E (slot_store m s ob) s = Some ob \<and>
    (\<forall>t. apart (slot_address s) (slot_address t) \<longrightarrow>
      slot_load E (slot_store m s ob) t = slot_load E m t)"
proof -
  have low: "ucast (ucast ob :: u32) = ob" using assms(3) by (rule ucast_ucast_low)
  with assms(2) have "(ucast ob :: u32) \<noteq> 0" by (metis unsigned_0)
  with assms(1,2) low show ?thesis
    by (auto simp: slot_load_def slot_store_def decompress_def compress_def
        from_raw_address_law_def mem32.ld_st_same mem32.ld_st_sep)
qed

section \<open>Memory slices\<close>

record ArtMemorySlice =
  range_start :: ArtSlot
  range_end :: ArtSlot

record ArtSlotIterator =
  cursor :: addr
  limit :: addr

definition slice_from_range :: "addr \<Rightarrow> addr \<Rightarrow> ArtMemorySlice" where
  "slice_from_range a b = \<lparr>range_start = ArtSlot a, range_end = ArtSlot b\<rparr>"

definition slot_iterator_next :: "ArtSlotIterator \<Rightarrow> (ArtSlot \<times> ArtSlotIterator) option" where
  "slot_iterator_next it =
     (if limit it \<le> cursor it then None
      else Some (ArtSlot (cursor it), it\<lparr>cursor := cursor it + push_bit LOG_BYTES_IN_SLOT 1\<rparr>))"

definition iter_slots :: "ArtMemorySlice \<Rightarrow> ArtSlotIterator" where
  "iter_slots sl =
     \<lparr>cursor = slot_address (range_start sl), limit = slot_address (range_end sl)\<rparr>"

definition slice_object :: "ArtMemorySlice \<Rightarrow> objref option" where
  "slice_object sl = None"

definition slice_start :: "ArtMemorySlice \<Rightarrow> addr" where
  "slice_start sl = slot_address (range_start sl)"

definition slice_bytes :: "ArtMemorySlice \<Rightarrow> usize" where
  "slice_bytes sl = slot_address (range_end sl) - slot_address (range_start sl)"

definition slice_ordered :: "ArtMemorySlice \<Rightarrow> bool" where
  "slice_ordered sl \<longleftrightarrow> slot_address (range_start sl) \<le> slot_address (range_end sl)"

text \<open>
  \<^verbatim>\<open>std::ptr::copy\<close>: the \<open>n\<close> bytes at \<open>t\<close> become those that were at \<open>s\<close>, whether or not the
  two ranges overlap.
\<close>

definition ptr_copy :: "mem \<Rightarrow> addr \<Rightarrow> addr \<Rightarrow> nat \<Rightarrow> mem" where
  "ptr_copy m s t n = (\<lambda>a. if unat (a - t) < n then m (s + (a - t)) else m a)"

text \<open>
  The copy is in 32-bit words. The pointers \<^verbatim>\<open>std::ptr::copy\<close> is given must be aligned to such a word;
  otherwise it is undefined behaviour, the value \<open>None\<close>.
\<close>

definition slice_copy ::
  "'b build_scheme \<Rightarrow> mem \<Rightarrow> ArtMemorySlice \<Rightarrow> ArtMemorySlice \<Rightarrow> mem res option" where
  "slice_copy B m src tgt =
     (case and_then (debug_assert B ''src.bytes() == tgt.bytes()''
                 (Inr (slice_bytes src = slice_bytes tgt))) (\<lambda>_.
            debug_assert B ''bytes are not a multiple of 32-bit integers''
                 (Inr (slice_bytes src AND (push_bit LOG_BYTES_IN_INT 1 - 1) = 0))) of
        Inl p \<Rightarrow> Some (Inl p)
      | Inr _ \<Rightarrow>
          let words = drop_bit LOG_BYTES_IN_INT (slice_bytes tgt) in
          if unat (slice_start src) mod 4 = 0 \<and> unat (slice_start tgt) mod 4 = 0
          then Some (Inr (ptr_copy m (slice_start src) (slice_start tgt) (4 * unat words)))
          else None)"

definition iterator_contents :: "ArtSlotIterator \<Rightarrow> ArtSlot list" where
  "iterator_contents it =
     map (\<lambda>i. ArtSlot (cursor it + 4 * of_nat i))
       [0..<(unat (limit it) - unat (cursor it) + 3) div 4]"

lemma ceil_div4_step:
  assumes "c < l"
  shows "((l :: nat) - c + 3) div 4 = Suc ((l - (c + 4) + 3) div 4)"
proof (cases "c + 4 \<le> l")
  case True
  then obtain d where "l = c + 4 + d" by (auto simp: le_iff_add)
  then show ?thesis by simp
next
  case False
  with assms obtain d where d: "l = c + d" "0 < d" "d < 4"
    by (metis add_less_cancel_left less_imp_add_positive linorder_not_le)
  then have "d = 1 \<or> d = 2 \<or> d = 3" by linarith
  with d show ?thesis by auto
qed

interpretation slot_iterator: rust_iterator slot_iterator_next
  "\<lambda>it. unat (limit it) + 3 < 2 ^ 64" iterator_contents
proof unfold_locales
  fix it :: ArtSlotIterator
  assume "slot_iterator_next it = None"
  then have "limit it \<le> cursor it" by (simp add: slot_iterator_next_def split: if_splits)
  then show "iterator_contents it = []" by (simp add: iterator_contents_def word_le_nat_alt)
next
  fix it it' :: ArtSlotIterator and s
  assume ok: "unat (limit it) + 3 < 2 ^ 64" and nxt: "slot_iterator_next it = Some (s, it')"
  from nxt have lt: "cursor it < limit it" and s: "s = ArtSlot (cursor it)"
    and it': "it' = it\<lparr>cursor := cursor it + 4\<rparr>"
    by (auto simp: slot_iterator_next_def LOG_BYTES_IN_SLOT_def split: if_splits)
  define c where "c = unat (cursor it)"
  define l where "l = unat (limit it)"
  have cl: "c < l" using lt by (simp add: word_less_nat_alt c_def l_def)
  have c4: "unat (cursor it + 4) = c + 4"
    using cl ok by (subst unat_add_exact) (auto simp: c_def l_def)
  note n = ceil_div4_step [OF cl]
  have shift: "map (\<lambda>i. ArtSlot (x + 4 * of_nat i)) [0..<Suc k] =
      ArtSlot x # map (\<lambda>i. ArtSlot (x + 4 + 4 * of_nat i)) [0..<k]" for x k
    unfolding map_upt_Suc by (simp add: algebra_simps)
  have "iterator_contents it = s # iterator_contents it'"
    unfolding iterator_contents_def it' s by (simp add: c4 n shift del: upt_Suc flip: c_def l_def)
  then show "unat (limit it') + 3 < 2 ^ 64 \<and> iterator_contents it = s # iterator_contents it'"
    using ok by (simp add: it')
qed

text \<open>
  C19. Draining the iterator of a memory slice ends and yields exactly the slots of the slice, in
  ascending order and four bytes apart, for every slice that ends at least three bytes below the
  top of the address space.
\<close>

theorem iter_slots_complete:
  assumes "unat b + 3 < 2 ^ 64"
  shows "drain slot_iterator_next (iter_slots (slice_from_range a b)) =
    Some (map (\<lambda>i. ArtSlot (a + 4 * of_nat i)) [0..<(unat b - unat a + 3) div 4])"
  using slot_iterator.drain_contents [of "iter_slots (slice_from_range a b)"] assms
  by (simp add: iter_slots_def slice_from_range_def iterator_contents_def)

theorem iter_slots_complete_witness:
  "drain slot_iterator_next (iter_slots (slice_from_range 0x1000 0x100C)) =
     Some [ArtSlot 0x1000, ArtSlot 0x1004, ArtSlot 0x1008]"
  using iter_slots_complete [of "0x100C" "0x1000"] by (simp add: upt_rec)

section \<open>Raw copies\<close>

lemma ptr_copy_inside:
  assumes "i < n" "n \<le> 2 ^ 64"
  shows "ptr_copy m s t n (t + of_nat i) = m (s + of_nat i)"
proof -
  have "unat (of_nat i :: addr) = i" using assms by (intro unat_of_nat_small) simp
  then show ?thesis using assms by (simp add: ptr_copy_def)
qed

lemma ptr_copy_outside: "n \<le> unat (a - t) \<Longrightarrow> ptr_copy m s t n a = m a"
  by (simp add: ptr_copy_def)

lemma load32_ptr_copy_inside:
  assumes "4 * i + 4 \<le> n" "n \<le> 2 ^ 64"
  shows "load32 (ptr_copy m s t n) (t + 4 * of_nat i) = load32 m (s + 4 * of_nat i)"
proof -
  have "ptr_copy m s t n (t + of_nat (4 * i + j)) = m (s + of_nat (4 * i + j))" if "j < 4" for j
    using assms that by (intro ptr_copy_inside) auto
  from this [of 0] this [of 1] this [of 2] this [of 3] show ?thesis
    by (simp add: load32_def ac_simps)
qed

lemma and_three_zero_iff: "(w :: u64) AND (2 ^ LOG_BYTES_IN_INT - 1) = 0 \<longleftrightarrow> unat w mod 4 = 0"
proof -
  have "w AND 3 = take_bit 2 w" by (simp add: take_bit_eq_mask mask_eq_exp_minus_1)
  moreover have "take_bit 2 w = w mod 4" by (simp add: take_bit_eq_mod)
  moreover have "w mod 4 = 0 \<longleftrightarrow> unat w mod 4 = 0"
    by (simp add: word_unat_eq_iff unat_mod)
  ultimately show ?thesis by (simp add: LOG_BYTES_IN_INT_def)
qed

lemma words_of_bytes:
  assumes "unat (w :: u64) mod 4 = 0"
  shows "4 * unat (drop_bit LOG_BYTES_IN_INT w) = unat w"
proof -
  have "4 * (unat w div 4) = unat w" using assms by presburger
  then show ?thesis by (simp add: LOG_BYTES_IN_INT_def drop_bit_eq_div unat_div)
qed

text \<open>
  C18. Copying one slice onto another of the same length, in whole 32-bit words, never panics and
  gives every word of the target the value the corresponding word of the source had before the
  copy, even when the two slices overlap; memory outside the target is unchanged. Both slices start
  at a slot, which is aligned to four bytes, and neither ends before it starts: their lengths are
  differences of addresses, which MMTk computes only for ordered addresses.
\<close>

theorem slice_copy_correct:
  assumes "slice_bytes src = slice_bytes tgt" "unat (slice_bytes src) mod 4 = 0"
    "slice_ordered src" "slice_ordered tgt"
    "unat (slice_start src) mod 4 = 0" "unat (slice_start tgt) mod 4 = 0"
  shows "\<exists>m'. slice_copy B m src tgt = Some (Inr m') \<and>
    (\<forall>i. 4 * i < unat (slice_bytes src) \<longrightarrow>
       load32 m' (slice_start tgt + 4 * of_nat i) = load32 m (slice_start src + 4 * of_nat i)) \<and>
    (\<forall>a. unat (slice_bytes tgt) \<le> unat (a - slice_start tgt) \<longrightarrow> m' a = m a)"
proof -
  let ?n = "unat (slice_bytes tgt)"
  let ?m = "ptr_copy m (slice_start src) (slice_start tgt) ?n"
  have "slice_copy B m src tgt = Some (Inr ?m)"
    using assms words_of_bytes [of "slice_bytes tgt"]
    by (simp add: slice_copy_def and_three_zero_iff)
  moreover have "load32 ?m (slice_start tgt + 4 * of_nat i) = load32 m (slice_start src + 4 * of_nat i)"
    if "4 * i < ?n" for i
  proof (rule load32_ptr_copy_inside)
    show "4 * i + 4 \<le> ?n" using that assms by presburger
    show "?n \<le> 2 ^ 64" using unsigned_less [of "slice_bytes tgt", where ?'a = nat] by simp
  qed
  ultimately show ?thesis using assms(1) by (auto simp: ptr_copy_outside)
qed

theorem slice_copy_correct_witness:
  "\<exists>m'. slice_copy android_build (store32 (\<lambda>_. 0) 0x1004 7)
      (slice_from_range 0x1000 0x1008) (slice_from_range 0x1004 0x100C) = Some (Inr m') \<and>
    load32 m' 0x1008 = 7"
proof -
  let ?src = "slice_from_range 0x1000 0x1008" and ?tgt = "slice_from_range 0x1004 0x100C"
  have h: "slice_bytes ?src = slice_bytes ?tgt" "unat (slice_bytes ?src) mod 4 = 0"
      "slice_ordered ?src" "slice_ordered ?tgt"
      "unat (slice_start ?src) mod 4 = 0" "unat (slice_start ?tgt) mod 4 = 0"
    by (simp_all add: slice_bytes_def slice_start_def slice_from_range_def slice_ordered_def)
  obtain m' where m': "slice_copy android_build (store32 (\<lambda>_. 0) 0x1004 7) ?src ?tgt = Some (Inr m')"
    and ld: "\<forall>i. 4 * i < unat (slice_bytes ?src) \<longrightarrow> load32 m' (slice_start ?tgt + 4 * of_nat i) =
       load32 (store32 (\<lambda>_. 0) 0x1004 7) (slice_start ?src + 4 * of_nat i)"
    using slice_copy_correct [OF h, of android_build "store32 (\<lambda>_. 0) 0x1004 7"] by blast
  from ld [rule_format, of 1] have "load32 m' 0x1008 = 7"
    by (simp add: slice_bytes_def slice_start_def slice_from_range_def load32_store32_same)
  with m' show ?thesis by blast
qed

end
