(* ===== verification/Abi.thy ===== *)
theory Abi
  imports Slots
begin

text \<open>
  \<^verbatim>\<open>abi.rs\<close>: the Rust mirrors of ART's objects. The structs are records read from memory at
  the offsets of their C layout; the methods of \<^verbatim>\<open>Class\<close>, \<^verbatim>\<open>Array\<close>, \<^verbatim>\<open>ArtString\<close> and the
  object size are functions of memory and an address. A reference to a mirror struct is the
  address it points to.
\<close>

section \<open>C layout\<close>

text \<open>
  The fields of a \<^verbatim>\<open>#[repr(C)]\<close> struct with their sizes and alignments, in declaration order.
  Each field starts at the first multiple of its alignment after the previous one; the size of
  the struct is its end, rounded up to the largest alignment.
\<close>

type_synonym layout = "(string \<times> nat \<times> nat) list"

fun field_offsets :: "nat \<Rightarrow> layout \<Rightarrow> (string \<times> nat) list" where
  "field_offsets pos [] = []"
| "field_offsets pos ((f, sz, al) # fs) =
     (f, align_up_nat pos al) # field_offsets (align_up_nat pos al + sz) fs"

definition offset_of :: "layout \<Rightarrow> string \<Rightarrow> nat" where
  "offset_of l f = the (map_of (field_offsets 0 l) f)"

fun layout_end :: "nat \<Rightarrow> layout \<Rightarrow> nat" where
  "layout_end pos [] = pos"
| "layout_end pos ((f, sz, al) # fs) = layout_end (align_up_nat pos al + sz) fs"

definition layout_align :: "layout \<Rightarrow> nat" where
  "layout_align l = fold max (map (\<lambda>(f, sz, al). al) l) 1"

definition size_of_layout :: "layout \<Rightarrow> nat" where
  "size_of_layout l = align_up_nat (layout_end 0 l) (layout_align l)"

text \<open>Field types: \<^verbatim>\<open>u16\<close>, \<^verbatim>\<open>u32\<close>/\<^verbatim>\<open>i32\<close>/\<^verbatim>\<open>ArtHeapReference\<close>, \<^verbatim>\<open>u64\<close>/pointers, and the embedded header.\<close>

abbreviation f16 :: "string \<Rightarrow> string \<times> nat \<times> nat" where "f16 f \<equiv> (f, 2, 2)"
abbreviation f32 :: "string \<Rightarrow> string \<times> nat \<times> nat" where "f32 f \<equiv> (f, 4, 4)"
abbreviation f64bit :: "string \<Rightarrow> string \<times> nat \<times> nat" where "f64bit f \<equiv> (f, 8, 8)"
abbreviation fhdr :: "string \<times> nat \<times> nat" where "fhdr \<equiv> (''header'', 8, 4)"

definition ArtHeapReference_layout :: layout where
  "ArtHeapReference_layout = [f32 ''reference'']"

definition Object_layout :: layout where
  "Object_layout = [f32 ''klass'', f32 ''monitor'']"

definition Class_layout :: layout where
  "Class_layout =
    [fhdr, f32 ''class_loader'', f32 ''component_type'', f32 ''dex_cache'', f32 ''ext_data'',
     f32 ''iftable'', f32 ''name'', f32 ''super_class'', f32 ''vtable'',
     f64bit ''ifields'', f64bit ''methods'', f64bit ''sfields'',
     f32 ''access_flags'', f32 ''class_flags'', f32 ''class_size'', f32 ''clinit_thread_id'',
     f32 ''dex_class_def_idx'', f32 ''dex_type_idx'', f32 ''num_reference_instance_fields'',
     f32 ''num_reference_static_fields'', f32 ''object_size'', f32 ''object_size_alloc_fast_path'',
     f32 ''primitive_type'', f32 ''reference_instance_offsets'', f32 ''status'',
     f16 ''copied_methods_offset'', f16 ''virtual_methods_offset'']"

definition Array_layout :: layout where
  "Array_layout = [fhdr, f32 ''length'', f32 ''first_element'']"

definition ArtString_layout :: layout where
  "ArtString_layout = [fhdr, f32 ''count'', f32 ''hash_code'']"

definition Reference_layout :: layout where
  "Reference_layout =
    [fhdr, f32 ''pending_next'', f32 ''queue'', f32 ''queue_next'', f32 ''referent'']"

definition DexCache_layout :: layout where
  "DexCache_layout =
    [fhdr, f32 ''class_loader'', f32 ''location'', f64bit ''dex_file'',
     f64bit ''resolved_call_sites'', f64bit ''resolved_fields'', f64bit ''resolved_fields_array'',
     f64bit ''resolved_method_types'', f64bit ''resolved_method_types_array'',
     f64bit ''resolved_methods'', f64bit ''resolved_methods_array'', f64bit ''resolved_types'',
     f64bit ''resolved_types_array'', f64bit ''strings'', f64bit ''strings_array'']"

definition ClassLoader_layout :: layout where
  "ClassLoader_layout =
    [fhdr, f32 ''name'', f32 ''packages'', f32 ''parent'', f32 ''proxy_cache'',
     f64bit ''allocator'', f64bit ''class_table'']"

definition ArtField_layout :: layout where
  "ArtField_layout =
    [f32 ''declaring_class'', f32 ''access_flags'', f32 ''field_dex_idx'', f32 ''offset'']"

definition ArtMethod_layout :: layout where
  "ArtMethod_layout =
    [f32 ''declaring_class'', f32 ''access_flags'', f32 ''dex_method_index'',
     f16 ''method_index'', f16 ''hotness_count_or_imt_index'',
     f64bit ''data'', f64bit ''entry_point_from_quick_compiled_code'']"

definition PRIM_OBJECT_REFERENCE_SIZE :: u32 where "PRIM_OBJECT_REFERENCE_SIZE = 4"
definition OBJECT_HEADER_SIZE :: u32 where "OBJECT_HEADER_SIZE = 8"
definition ART_HEAP_REFERENCE_SIZE :: usize where
  "ART_HEAP_REFERENCE_SIZE = of_nat (size_of_layout ArtHeapReference_layout)"

lemmas layout_eval =
  offset_of_def size_of_layout_def layout_align_def align_up_nat_def
  ArtHeapReference_layout_def Object_layout_def Class_layout_def Array_layout_def
  ArtString_layout_def Reference_layout_def DexCache_layout_def ClassLoader_layout_def
  ArtField_layout_def ArtMethod_layout_def

lemma ART_HEAP_REFERENCE_SIZE_4 [simp]: "ART_HEAP_REFERENCE_SIZE = 4"
  by (simp add: ART_HEAP_REFERENCE_SIZE_def layout_eval)

section \<open>Field accesses, references and objects\<close>

definition get_field_address :: "addr \<Rightarrow> i32 \<Rightarrow> addr" where
  "get_field_address ob offset = ob + scast offset"

definition get_field_slot :: "addr \<Rightarrow> i32 \<Rightarrow> ArtSlot" where
  "get_field_slot ob offset = ArtSlot (get_field_address ob offset)"

record ArtHeapReference =
  reference :: "u32 option"

definition heap_reference :: "u32 \<Rightarrow> ArtHeapReference" where
  "heap_reference v = \<lparr>reference = (if v = 0 then None else Some v)\<rparr>"

definition load_class :: "mem \<Rightarrow> ArtSlot \<Rightarrow> ArtHeapReference" where
  "load_class m s = heap_reference (load32 m (slot_address s))"

definition is_object_sane :: "'w env \<Rightarrow> mem \<Rightarrow> objref \<Rightarrow> bool" where
  "is_object_sane E m ob = is_valid_object (upcalls E) m ob"

definition heap_reference_to_objref :: "'w env \<Rightarrow> ArtHeapReference \<Rightarrow> objref res" where
  "heap_reference_to_objref E r =
     and_then (debug_assert E ''o.reference != None'' (Inr (reference r \<noteq> None))) (\<lambda>_.
     case reference r of None \<Rightarrow> Inl Unwrap_None | Some v \<Rightarrow> Inr (ucast v))"

definition heap_reference_deref :: "'w env \<Rightarrow> mem \<Rightarrow> ArtHeapReference \<Rightarrow> addr res" where
  "heap_reference_deref E m r =
     and_then (debug_assert E ''self.reference != None'' (Inr (reference r \<noteq> None))) (\<lambda>_.
     and_then (debug_assert E ''is_object_sane(self)''
        (and_then (heap_reference_to_objref E r) (\<lambda>ob. Inr (is_object_sane E m ob)))) (\<lambda>_.
     case reference r of None \<Rightarrow> Inl Unwrap_None | Some v \<Rightarrow> Inr (ucast v)))"

record Object =
  klass :: ArtHeapReference
  monitor :: u32

definition read_ref :: "mem \<Rightarrow> addr \<Rightarrow> layout \<Rightarrow> string \<Rightarrow> ArtHeapReference" where
  "read_ref m a l f = heap_reference (load32 m (a + of_nat (offset_of l f)))"

definition read_u32 :: "mem \<Rightarrow> addr \<Rightarrow> layout \<Rightarrow> string \<Rightarrow> u32" where
  "read_u32 m a l f = load32 m (a + of_nat (offset_of l f))"

definition read_u64 :: "mem \<Rightarrow> addr \<Rightarrow> layout \<Rightarrow> string \<Rightarrow> u64" where
  "read_u64 m a l f = load64 m (a + of_nat (offset_of l f))"

definition read_u16 :: "mem \<Rightarrow> addr \<Rightarrow> layout \<Rightarrow> string \<Rightarrow> u16" where
  "read_u16 m a l f = load16 m (a + of_nat (offset_of l f))"

definition read_Object :: "mem \<Rightarrow> addr \<Rightarrow> Object" where
  "read_Object m a =
     \<lparr>klass = read_ref m a Object_layout ''klass'', monitor = read_u32 m a Object_layout ''monitor''\<rparr>"

definition object_from_objref :: "'w env \<Rightarrow> mem \<Rightarrow> objref \<Rightarrow> addr res" where
  "object_from_objref E m ob =
     and_then (debug_assert E ''is_object_sane(o)'' (Inr (is_object_sane E m ob))) (\<lambda>_. Inr ob)"

definition class_offset :: usize where
  "class_offset = of_nat (offset_of Object_layout ''klass'')"

definition klass_slot :: "addr \<Rightarrow> ArtSlot" where
  "klass_slot ob = get_field_slot ob (ucast class_offset)"

definition get_class :: "'w env \<Rightarrow> mem \<Rightarrow> addr \<Rightarrow> ArtHeapReference res" where
  "get_class E m ob =
     and_then (debug_assert E ''is_object_sane(self)'' (Inr (is_object_sane E m ob))) (\<lambda>_.
     Inr (load_class m (klass_slot ob)))"

text \<open>\<^verbatim>\<open>o.get_class()\<close> followed by the dereference every method call on the result makes.\<close>

definition class_of :: "'w env \<Rightarrow> mem \<Rightarrow> addr \<Rightarrow> addr res" where
  "class_of E m ob = and_then (get_class E m ob) (heap_reference_deref E m)"

definition component_size_shift_width :: "u32 \<Rightarrow> nat" where
  "component_size_shift_width component_size =
     (if component_size = 1 then 0
      else if component_size = 2 then 1
      else if component_size = 4 then 2
      else if component_size = 8 then 3
      else 0)"

section \<open>Primitive types and class status\<close>

datatype ArtPrimitive =
    Prim_Not | Prim_Boolean | Prim_Byte | Prim_Char | Prim_Short
  | Prim_Int | Prim_Long | Prim_Float | Prim_Double | Prim_Void

fun primitive_num :: "ArtPrimitive \<Rightarrow> nat" where
  "primitive_num Prim_Not = 0"
| "primitive_num Prim_Boolean = 1"
| "primitive_num Prim_Byte = 2"
| "primitive_num Prim_Char = 3"
| "primitive_num Prim_Short = 4"
| "primitive_num Prim_Int = 5"
| "primitive_num Prim_Long = 6"
| "primitive_num Prim_Float = 7"
| "primitive_num Prim_Double = 8"
| "primitive_num Prim_Void = 9"

definition primitive_from_u32 :: "u32 \<Rightarrow> ArtPrimitive res" where
  "primitive_from_u32 v =
     (if v = 0 then Inr Prim_Not
      else if v = 1 then Inr Prim_Boolean
      else if v = 2 then Inr Prim_Byte
      else if v = 3 then Inr Prim_Char
      else if v = 4 then Inr Prim_Short
      else if v = 5 then Inr Prim_Int
      else if v = 6 then Inr Prim_Long
      else if v = 7 then Inr Prim_Float
      else if v = 8 then Inr Prim_Double
      else if v = 9 then Inr Prim_Void
      else Inl (Panic ''Invalid ArtPrimitive value''))"

fun component_size_shift :: "ArtPrimitive \<Rightarrow> nat" where
  "component_size_shift Prim_Void = 0"
| "component_size_shift Prim_Boolean = 0"
| "component_size_shift Prim_Byte = 0"
| "component_size_shift Prim_Char = 1"
| "component_size_shift Prim_Short = 1"
| "component_size_shift Prim_Int = 2"
| "component_size_shift Prim_Float = 2"
| "component_size_shift Prim_Long = 3"
| "component_size_shift Prim_Double = 3"
| "component_size_shift Prim_Not = component_size_shift_width PRIM_OBJECT_REFERENCE_SIZE"

datatype ClassStatus =
    NotReady | Retired | ErrorResolved | ErrorUnresolved | Idx | Loaded | Resolving | Resolved
  | Verifying | RetryVerificationAtRuntime | VerifiedNeedsAccessChecks | Verified
  | SuperclassValidated | Initializing | Initialized | VisiblyInitialized

fun status_num :: "ClassStatus \<Rightarrow> nat" where
  "status_num NotReady = 0"
| "status_num Retired = 1"
| "status_num ErrorResolved = 2"
| "status_num ErrorUnresolved = 3"
| "status_num Idx = 4"
| "status_num Loaded = 5"
| "status_num Resolving = 6"
| "status_num Resolved = 7"
| "status_num Verifying = 8"
| "status_num RetryVerificationAtRuntime = 9"
| "status_num VerifiedNeedsAccessChecks = 10"
| "status_num Verified = 11"
| "status_num SuperclassValidated = 12"
| "status_num Initializing = 13"
| "status_num Initialized = 14"
| "status_num VisiblyInitialized = 15"

definition status_from_u32 :: "u32 \<Rightarrow> ClassStatus res" where
  "status_from_u32 v =
     (if v = 0 then Inr NotReady
      else if v = 1 then Inr Retired
      else if v = 2 then Inr ErrorResolved
      else if v = 3 then Inr ErrorUnresolved
      else if v = 4 then Inr Idx
      else if v = 5 then Inr Loaded
      else if v = 6 then Inr Resolving
      else if v = 7 then Inr Resolved
      else if v = 8 then Inr Verifying
      else if v = 9 then Inr RetryVerificationAtRuntime
      else if v = 10 then Inr VerifiedNeedsAccessChecks
      else if v = 11 then Inr Verified
      else if v = 12 then Inr SuperclassValidated
      else if v = 13 then Inr Initializing
      else if v = 14 then Inr Initialized
      else if v = 15 then Inr VisiblyInitialized
      else Inl (Panic ''Invalid ClassStatus value''))"

interpretation primitive: enum_codec primitive_num primitive_from_u32 10
proof unfold_locales
  fix e v
  show "primitive_num e < 10" by (cases e) simp_all
  show "primitive_from_u32 (word_of_nat (primitive_num e)) = Inr e"
    by (cases e) (simp_all add: primitive_from_u32_def)
  show "primitive_from_u32 v = Inr e \<Longrightarrow> primitive_num e = unat v"
    by (auto simp: primitive_from_u32_def split: if_splits)
qed simp

interpretation status: enum_codec status_num status_from_u32 16
proof unfold_locales
  fix e v
  show "status_num e < 16" by (cases e) simp_all
  show "status_from_u32 (word_of_nat (status_num e)) = Inr e"
    by (cases e) (simp_all add: status_from_u32_def)
  show "status_from_u32 v = Inr e \<Longrightarrow> status_num e = unat v"
    by (auto simp: status_from_u32_def split: if_splits)
qed simp

text \<open>The derived orders compare discriminants.\<close>

instantiation ClassStatus :: linorder
begin

definition less_eq_ClassStatus :: "ClassStatus \<Rightarrow> ClassStatus \<Rightarrow> bool" where
  "less_eq_ClassStatus a b \<longleftrightarrow> status_num a \<le> status_num b"

definition less_ClassStatus :: "ClassStatus \<Rightarrow> ClassStatus \<Rightarrow> bool" where
  "less_ClassStatus a b \<longleftrightarrow> status_num a < status_num b"

instance
  by standard
    (auto simp: less_eq_ClassStatus_def less_ClassStatus_def dest: status.num_inject)

end

section \<open>java.lang.Class\<close>

record Class =
  class_header :: Object
  class_loader :: ArtHeapReference
  component_type :: ArtHeapReference
  dex_cache :: ArtHeapReference
  ext_data :: ArtHeapReference
  iftable :: ArtHeapReference
  class_name :: ArtHeapReference
  super_class :: ArtHeapReference
  vtable :: ArtHeapReference
  ifields :: u64
  methods :: u64
  sfields :: u64
  access_flags :: u32
  class_flags :: u32
  class_size :: u32
  clinit_thread_id :: u32
  dex_class_def_idx :: i32
  dex_type_idx :: i32
  num_reference_instance_fields :: u32
  num_reference_static_fields :: u32
  object_size :: u32
  object_size_alloc_fast_path :: u32
  primitive_type :: u32
  reference_instance_offsets :: u32
  status_word :: u32
  copied_methods_offset :: u16
  virtual_methods_offset :: u16

definition read_Class :: "mem \<Rightarrow> addr \<Rightarrow> Class" where
  "read_Class m k =
     \<lparr>class_header = read_Object m (k + of_nat (offset_of Class_layout ''header'')),
      class_loader = read_ref m k Class_layout ''class_loader'',
      component_type = read_ref m k Class_layout ''component_type'',
      dex_cache = read_ref m k Class_layout ''dex_cache'',
      ext_data = read_ref m k Class_layout ''ext_data'',
      iftable = read_ref m k Class_layout ''iftable'',
      class_name = read_ref m k Class_layout ''name'',
      super_class = read_ref m k Class_layout ''super_class'',
      vtable = read_ref m k Class_layout ''vtable'',
      ifields = read_u64 m k Class_layout ''ifields'',
      methods = read_u64 m k Class_layout ''methods'',
      sfields = read_u64 m k Class_layout ''sfields'',
      access_flags = read_u32 m k Class_layout ''access_flags'',
      class_flags = read_u32 m k Class_layout ''class_flags'',
      class_size = read_u32 m k Class_layout ''class_size'',
      clinit_thread_id = read_u32 m k Class_layout ''clinit_thread_id'',
      dex_class_def_idx = read_u32 m k Class_layout ''dex_class_def_idx'',
      dex_type_idx = read_u32 m k Class_layout ''dex_type_idx'',
      num_reference_instance_fields = read_u32 m k Class_layout ''num_reference_instance_fields'',
      num_reference_static_fields = read_u32 m k Class_layout ''num_reference_static_fields'',
      object_size = read_u32 m k Class_layout ''object_size'',
      object_size_alloc_fast_path = read_u32 m k Class_layout ''object_size_alloc_fast_path'',
      primitive_type = read_u32 m k Class_layout ''primitive_type'',
      reference_instance_offsets = read_u32 m k Class_layout ''reference_instance_offsets'',
      status_word = read_u32 m k Class_layout ''status'',
      copied_methods_offset = read_u16 m k Class_layout ''copied_methods_offset'',
      virtual_methods_offset = read_u16 m k Class_layout ''virtual_methods_offset''\<rparr>"

definition size_of_Class :: usize where
  "size_of_Class = of_nat (size_of_layout Class_layout)"

definition kClassFlagNormal :: u32 where "kClassFlagNormal = 0x00000000"
definition kClassFlagNoReferenceFields :: u32 where "kClassFlagNoReferenceFields = 0x00000001"
definition kClassFlagString :: u32 where "kClassFlagString = 0x00000004"
definition kClassFlagObjectArray :: u32 where "kClassFlagObjectArray = 0x00000008"
definition kClassFlagClass :: u32 where "kClassFlagClass = 0x00000010"
definition kClassFlagClassLoader :: u32 where "kClassFlagClassLoader = 0x00000020"
definition kClassFlagDexCache :: u32 where "kClassFlagDexCache = 0x00000040"
definition kClassFlagSoftReference :: u32 where "kClassFlagSoftReference = 0x00000080"
definition kClassFlagWeakReference :: u32 where "kClassFlagWeakReference = 0x00000100"
definition kClassFlagFinalizerReference :: u32 where "kClassFlagFinalizerReference = 0x00000200"
definition kClassFlagPhantomReference :: u32 where "kClassFlagPhantomReference = 0x00000400"
definition kClassFlagRecord :: u32 where "kClassFlagRecord = 0x00000800"
definition kClassFlagPrimitiveArray :: u32 where "kClassFlagPrimitiveArray = 0x00001000"
definition kArrayComponentSizeShiftShift :: u32 where "kArrayComponentSizeShiftShift = 30"

definition kClassFlagReference :: u32 where
  "kClassFlagReference = kClassFlagSoftReference OR kClassFlagWeakReference
     OR kClassFlagFinalizerReference OR kClassFlagPhantomReference"

definition kAccInterface :: u32 where "kAccInterface = 0x0200"
definition kAccAbstract :: u32 where "kAccAbstract = 0x0400"
definition kVisitReferencesSlowpathShift :: nat where "kVisitReferencesSlowpathShift = 31"
definition kVisitReferencesSlowpathMask :: u32 where
  "kVisitReferencesSlowpathMask = push_bit kVisitReferencesSlowpathShift 1"
definition kPrimitiveTypeSizeShiftShift :: nat where "kPrimitiveTypeSizeShiftShift = 16"
definition kPrimitiveTypeMask :: u32 where
  "kPrimitiveTypeMask = push_bit kPrimitiveTypeSizeShiftShift 1 - 1"

lemmas class_consts =
  kClassFlagNormal_def kClassFlagNoReferenceFields_def kClassFlagString_def
  kClassFlagObjectArray_def kClassFlagClass_def kClassFlagClassLoader_def kClassFlagDexCache_def
  kClassFlagSoftReference_def kClassFlagWeakReference_def kClassFlagFinalizerReference_def
  kClassFlagPhantomReference_def kClassFlagRecord_def kClassFlagPrimitiveArray_def
  kClassFlagReference_def kAccInterface_def kAccAbstract_def kVisitReferencesSlowpathShift_def
  kVisitReferencesSlowpathMask_def kPrimitiveTypeSizeShiftShift_def kPrimitiveTypeMask_def

subsection \<open>Predicates and accessors\<close>

definition get_primitive_type :: "'w env \<Rightarrow> mem \<Rightarrow> addr \<Rightarrow> ArtPrimitive res" where
  "get_primitive_type E m k =
     (let pt = primitive_type (read_Class m k) in
      and_then (primitive_from_u32 (pt AND kPrimitiveTypeMask)) (\<lambda>ty.
      and_then (debug_assert E ''primitive_type size shift''
        (Inr (unat (drop_bit kPrimitiveTypeSizeShiftShift pt) = component_size_shift ty))) (\<lambda>_.
      Inr ty)))"

definition get_primitive_type_size_shift :: "'w env \<Rightarrow> mem \<Rightarrow> addr \<Rightarrow> nat res" where
  "get_primitive_type_size_shift E m k =
     (let pt = primitive_type (read_Class m k);
          size_shift = unat (drop_bit kPrimitiveTypeSizeShiftShift pt) in
      and_then (debug_assert E ''primitive_type size shift''
        (and_then (primitive_from_u32 (pt AND kPrimitiveTypeMask)) (\<lambda>ty.
           Inr (size_shift = component_size_shift ty)))) (\<lambda>_.
      Inr size_shift))"

definition get_component_size_shift :: "'w env \<Rightarrow> mem \<Rightarrow> addr \<Rightarrow> nat res" where
  "get_component_size_shift E m k =
     and_then (heap_reference_deref E m (component_type (read_Class m k))) (\<lambda>c.
     get_primitive_type_size_shift E m c)"

definition get_status :: "mem \<Rightarrow> addr \<Rightarrow> ClassStatus res" where
  "get_status m k =
     (let st = load32 m (get_field_address k (of_nat (offset_of Class_layout ''status'')))
      in status_from_u32 (drop_bit (32 - 4) st))"

definition is_class_class :: "'w env \<Rightarrow> mem \<Rightarrow> addr \<Rightarrow> bool res" where
  "is_class_class E m k =
     and_then (get_class E m k) (\<lambda>java_lang_class.
     Inr (k = (case reference java_lang_class of None \<Rightarrow> 0 | Some v \<Rightarrow> ucast v)))"

definition is_string_class :: "mem \<Rightarrow> addr \<Rightarrow> bool" where
  "is_string_class m k \<longleftrightarrow> class_flags (read_Class m k) AND kClassFlagString \<noteq> 0"

definition is_classloader_class :: "mem \<Rightarrow> addr \<Rightarrow> bool" where
  "is_classloader_class m k \<longleftrightarrow> class_flags (read_Class m k) AND kClassFlagClassLoader \<noteq> 0"

definition is_array_class :: "mem \<Rightarrow> addr \<Rightarrow> bool" where
  "is_array_class m k \<longleftrightarrow> reference (component_type (read_Class m k)) \<noteq> None"

definition is_dexcache_class :: "mem \<Rightarrow> addr \<Rightarrow> bool" where
  "is_dexcache_class m k \<longleftrightarrow> class_flags (read_Class m k) AND kClassFlagDexCache \<noteq> 0"

definition is_type_of_reference_class :: "mem \<Rightarrow> addr \<Rightarrow> bool" where
  "is_type_of_reference_class m k \<longleftrightarrow> class_flags (read_Class m k) AND kClassFlagReference \<noteq> 0"

definition is_abstract :: "mem \<Rightarrow> addr \<Rightarrow> bool" where
  "is_abstract m k \<longleftrightarrow> access_flags (read_Class m k) AND kAccAbstract \<noteq> 0"

definition is_interface :: "mem \<Rightarrow> addr \<Rightarrow> bool" where
  "is_interface m k \<longleftrightarrow> access_flags (read_Class m k) AND kAccInterface \<noteq> 0"

definition is_primitive :: "'w env \<Rightarrow> mem \<Rightarrow> addr \<Rightarrow> bool res" where
  "is_primitive E m k = and_then (get_primitive_type E m k) (\<lambda>ty. Inr (ty \<noteq> Prim_Not))"

definition is_object_array_class :: "'w env \<Rightarrow> mem \<Rightarrow> addr \<Rightarrow> bool res" where
  "is_object_array_class E m k =
     (let ct = component_type (read_Class m k) in
      and_also (Inr (reference ct \<noteq> None))
        (not_res (and_then (heap_reference_deref E m ct) (is_primitive E m))))"

definition is_variable_size :: "'w env \<Rightarrow> mem \<Rightarrow> addr \<Rightarrow> bool res" where
  "is_variable_size E m k =
     or_else (or_else (is_class_class E m k) (Inr (is_array_class m k))) (Inr (is_string_class m k))"

definition is_instantiable :: "'w env \<Rightarrow> mem \<Rightarrow> addr \<Rightarrow> bool res" where
  "is_instantiable E m k =
     or_else
       (and_also (and_also (not_res (is_primitive E m k)) (Inr (\<not> is_interface m k)))
          (Inr (\<not> is_abstract m k)))
       (Inr (is_abstract m k \<and> is_array_class m k))"

definition is_instantiable_non_array :: "'w env \<Rightarrow> mem \<Rightarrow> addr \<Rightarrow> bool res" where
  "is_instantiable_non_array E m k =
     and_also (not_res (is_primitive E m k))
       (Inr (\<not> is_interface m k \<and> \<not> is_abstract m k \<and> \<not> is_array_class m k))"

definition should_have_embedded_vtable :: "'w env \<Rightarrow> mem \<Rightarrow> addr \<Rightarrow> bool res" where
  "should_have_embedded_vtable E m k = is_instantiable E m k"

definition is_temp :: "'w env \<Rightarrow> mem \<Rightarrow> addr \<Rightarrow> bool res" where
  "is_temp E m k =
     and_then (get_status m k) (\<lambda>st.
     and_also (Inr (st < Resolving \<and> st \<noteq> ErrorResolved)) (should_have_embedded_vtable E m k))"

definition is_resolved :: "mem \<Rightarrow> addr \<Rightarrow> bool res" where
  "is_resolved m k =
     and_then (get_status m k) (\<lambda>st. Inr (st \<ge> Resolved \<or> st = ErrorResolved))"

definition is_erroneous :: "mem \<Rightarrow> addr \<Rightarrow> bool res" where
  "is_erroneous m k =
     and_then (get_status m k) (\<lambda>st. Inr (st = ErrorResolved \<or> st = ErrorUnresolved))"

definition check_normal_class :: "'w env \<Rightarrow> mem \<Rightarrow> addr \<Rightarrow> unit res" where
  "check_normal_class E m k =
     and_then (debug_assert E ''!is_variable_size'' (not_res (is_variable_size E m k))) (\<lambda>_.
     and_then (debug_assert E ''!is_class_class'' (not_res (is_class_class E m k))) (\<lambda>_.
     and_then (debug_assert E ''!is_string_class'' (Inr (\<not> is_string_class m k))) (\<lambda>_.
     and_then (debug_assert E ''!is_classloader_class'' (Inr (\<not> is_classloader_class m k))) (\<lambda>_.
     debug_assert E ''!is_array_class'' (Inr (\<not> is_array_class m k))))))"

text \<open>
  The loop of \<^verbatim>\<open>check_no_reference_fields\<close> up the superclass chain, adding the number of reference
  instance fields. A cyclic chain would not end: \<open>None\<close>.
\<close>

partial_function (option) total_reference_instance_fields ::
  "'w env \<Rightarrow> mem \<Rightarrow> usize \<Rightarrow> addr \<Rightarrow> usize res option" where
  "total_reference_instance_fields E m acc k =
     (case add_chk E acc (ucast (num_reference_instance_fields (read_Class m k))) of
        Inl p \<Rightarrow> Some (Inl p)
      | Inr acc' \<Rightarrow>
          (case reference (super_class (read_Class m k)) of
             None \<Rightarrow> Some (Inr acc')
           | Some v \<Rightarrow>
               (case heap_reference_deref E m (super_class (read_Class m k)) of
                  Inl p \<Rightarrow> Some (Inl p)
                | Inr s \<Rightarrow> total_reference_instance_fields E m acc' s)))"

definition check_no_reference_fields :: "'w env \<Rightarrow> mem \<Rightarrow> addr \<Rightarrow> unit res option" where
  "check_no_reference_fields E m k =
     (case and_then (debug_assert E ''!is_class_class'' (not_res (is_class_class E m k))) (\<lambda>_.
           debug_assert E ''!is_object_array_class'' (not_res (is_object_array_class E m k))) of
        Inl p \<Rightarrow> Some (Inl p)
      | Inr _ \<Rightarrow>
          if debug_assertions E \<and> \<not> is_string_class m k then
            map_option (\<lambda>r. and_then r (\<lambda>n. assert_true ''total == 1'' (n = 1)))
              (total_reference_instance_fields E m 0 k)
          else Some (Inr ()))"

definition get_reference_instance_offsets :: "'w env \<Rightarrow> mem \<Rightarrow> addr \<Rightarrow> u32 res" where
  "get_reference_instance_offsets E m k =
     and_then (debug_assert E ''is_resolved || is_erroneous''
        (or_else (is_resolved m k) (is_erroneous m k))) (\<lambda>_.
     Inr (reference_instance_offsets (read_Class m k)))"

definition get_embedded_vtable_length :: "mem \<Rightarrow> addr \<Rightarrow> u32" where
  "get_embedded_vtable_length m k = load32 m (get_field_address k (ucast size_of_Class))"

definition class_get_object_size :: "'w env \<Rightarrow> mem \<Rightarrow> addr \<Rightarrow> usize res" where
  "class_get_object_size E m k =
     and_then (debug_assert E ''!is_variable_size'' (not_res (is_variable_size E m k))) (\<lambda>_.
     Inr (ucast (object_size (read_Class m k))))"

subsection \<open>The size of a class object\<close>

text \<open>
  One of the three loops that move static fields into the padding before the 64-bit fields: while
  a field of \<open>w\<close> bytes fits in the gap and one is left, it is taken out of the count.
\<close>

function shuffle_forward :: "u32 \<Rightarrow> u32 \<Rightarrow> u32 \<Rightarrow> u32 \<times> u32" where
  "shuffle_forward w n gap =
     (if w \<le> gap \<and> n \<noteq> 0 then shuffle_forward w (n - 1) (gap - w) else (n, gap))"
  by pat_completeness auto
termination
  by (relation "measure (\<lambda>(w, n, gap). unat n)") (auto simp: measure_unat)

declare shuffle_forward.simps [simp del]

definition compute_class_size ::
  "'w env \<Rightarrow> bool \<Rightarrow> u32 \<Rightarrow> u32 \<Rightarrow> u32 \<Rightarrow> u32 \<Rightarrow> u32 \<Rightarrow> u32 \<Rightarrow> u32 \<Rightarrow> usize \<Rightarrow> usize res"
where
  "compute_class_size E has_embedded_vtable num_vtable_entries n8 n16 n32 n64 nref nbitmap ptr_size =
     and_then
       (if has_embedded_vtable then
          and_then (add_chk E size_of_Class 4) (\<lambda>s.
          and_then (add_chk E (raw_align_up E s ptr_size) ptr_size) (\<lambda>s.
          and_then (mul_chk E (ucast num_vtable_entries) ptr_size) (\<lambda>v.
          add_chk E s v)))
        else Inr size_of_Class) (\<lambda>s1.
     and_then (mul_chk E (ucast nref) ART_HEAP_REFERENCE_SIZE) (\<lambda>refs.
     and_then (add_chk E s1 refs) (\<lambda>s2.
     and_then
       (if \<not> raw_is_aligned E s2 8 \<and> n64 > 0 then
          (let gap = 8 - ucast (s2 AND 7) in
           and_then (add_chk E s2 (ucast gap)) (\<lambda>s3.
           let (n32', gap1) = shuffle_forward 4 n32 gap;
               (n16', gap2) = shuffle_forward 2 n16 gap1;
               (n8', gap3) = shuffle_forward 1 n8 gap2
           in Inr (s3, n8', n16', n32')))
        else Inr (s2, n8, n16, n32)) (\<lambda>(s3, n8', n16', n32').
     and_then (mul_chk E (ucast n8') 1) (\<lambda>b8.
     and_then (mul_chk E (ucast n16') 2) (\<lambda>b16.
     and_then (add_chk E b8 b16) (\<lambda>p1.
     and_then (mul_chk E (ucast n32') 4) (\<lambda>b32.
     and_then (add_chk E p1 b32) (\<lambda>p2.
     and_then (mul_chk E (ucast n64) 8) (\<lambda>b64.
     and_then (add_chk E p2 b64) (\<lambda>p3.
     and_then (add_chk E s3 p3) (\<lambda>s4.
     if nbitmap > 0 then
       and_then (mul_chk E (ucast nbitmap) 4) (\<lambda>bm.
       add_chk E (raw_align_up E s4 4) bm)
     else Inr s4))))))))))))"

definition get_first_reference_static_fields_offset ::
  "'w env \<Rightarrow> mem \<Rightarrow> addr \<Rightarrow> usize \<Rightarrow> usize res" where
  "get_first_reference_static_fields_offset E m k ptr_size =
     and_then (debug_assert E ''is_resolved'' (is_resolved m k)) (\<lambda>_.
     and_then (should_have_embedded_vtable E m k) (\<lambda>embedded.
     if embedded then
       compute_class_size E True (get_embedded_vtable_length m k) 0 0 0 0 0 0 ptr_size
     else Inr size_of_Class))"

section \<open>Arrays and strings\<close>

record Array =
  array_header :: Object
  array_length :: i32
  first_element :: u32

definition read_Array :: "mem \<Rightarrow> addr \<Rightarrow> Array" where
  "read_Array m a =
     \<lparr>array_header = read_Object m (a + of_nat (offset_of Array_layout ''header'')),
      array_length = read_u32 m a Array_layout ''length'',
      first_element = read_u32 m a Array_layout ''first_element''\<rparr>"

definition is_power_of_two :: "usize \<Rightarrow> bool" where
  "is_power_of_two n \<longleftrightarrow> n \<noteq> 0 \<and> n AND (n - 1) = 0"

definition data_offset :: "'w env \<Rightarrow> usize \<Rightarrow> usize res" where
  "data_offset E component_size =
     and_then (debug_assert E ''component_size.is_power_of_two()''
        (Inr (is_power_of_two component_size))) (\<lambda>_.
     let d = raw_align_up E (of_nat (offset_of Array_layout ''first_element'')) component_size in
     and_then (debug_assert E ''raw_align_up(data_offset) == data_offset''
        (Inr (raw_align_up E d component_size = d))) (\<lambda>_.
     Inr d))"

definition array_component_size_shift :: "'w env \<Rightarrow> mem \<Rightarrow> addr \<Rightarrow> nat res" where
  "array_component_size_shift E m a =
     and_then (class_of E m (a + of_nat (offset_of Array_layout ''header''))) (\<lambda>k.
     get_component_size_shift E m k)"

definition array_size_of :: "'w env \<Rightarrow> mem \<Rightarrow> addr \<Rightarrow> usize res" where
  "array_size_of E m a =
     and_then (array_component_size_shift E m a) (\<lambda>shift.
     let component_count = scast (array_length (read_Array m a)) in
     and_then (shl_chk E 1 shift) (\<lambda>component_size.
     and_then (data_offset E component_size) (\<lambda>header_size.
     and_then (shl_chk E component_count shift) (\<lambda>data_size.
     add_chk E header_size data_size))))"

definition offset_of_element :: "'w env \<Rightarrow> usize \<Rightarrow> usize res" where
  "offset_of_element E index =
     and_then (data_offset E ART_HEAP_REFERENCE_SIZE) (\<lambda>d.
     and_then (mul_chk E index ART_HEAP_REFERENCE_SIZE) (\<lambda>o'.
     add_chk E d o'))"

record ArtString =
  string_header :: Object
  count :: i32
  hash_code :: u32

definition read_ArtString :: "mem \<Rightarrow> addr \<Rightarrow> ArtString" where
  "read_ArtString m a =
     \<lparr>string_header = read_Object m (a + of_nat (offset_of ArtString_layout ''header'')),
      count = read_u32 m a ArtString_layout ''count'',
      hash_code = read_u32 m a ArtString_layout ''hash_code''\<rparr>"

definition is_compressed :: "ArtString \<Rightarrow> bool" where
  "is_compressed s \<longleftrightarrow> count s AND 1 = 0"

definition get_length :: "ArtString \<Rightarrow> i32" where
  "get_length s = signed_drop_bit 1 (count s)"

definition MIN_ALIGNMENT :: usize where "MIN_ALIGNMENT = 8"

definition string_size_of :: "'w env \<Rightarrow> ArtString \<Rightarrow> usize res" where
  "string_size_of E s =
     (let size = of_nat (size_of_layout ArtString_layout) in
      and_then
        (if is_compressed s
         then and_then (mul_chk E 1 (scast (get_length s))) (add_chk E size)
         else and_then (mul_chk E 2 (scast (get_length s))) (add_chk E size)) (\<lambda>size'.
      Inr (raw_align_up E size' MIN_ALIGNMENT)))"

section \<open>Object sizes\<close>

text \<open>The checked conversions from an object to the mirror of its kind.\<close>

definition object_as_array :: "'w env \<Rightarrow> mem \<Rightarrow> addr \<Rightarrow> addr res" where
  "object_as_array E m ob =
     and_then (debug_assert E ''is_array_class''
       (and_then (class_of E m ob) (\<lambda>k. Inr (is_array_class m k)))) (\<lambda>_. Inr ob)"

definition object_as_class :: "'w env \<Rightarrow> mem \<Rightarrow> addr \<Rightarrow> addr res" where
  "object_as_class E m ob =
     and_then (debug_assert E ''is_class_class''
       (and_then (class_of E m ob) (is_class_class E m))) (\<lambda>_. Inr ob)"

definition object_as_string :: "'w env \<Rightarrow> mem \<Rightarrow> addr \<Rightarrow> addr res" where
  "object_as_string E m ob =
     and_then (debug_assert E ''is_string_class''
       (and_then (class_of E m ob) (\<lambda>k. Inr (is_string_class m k)))) (\<lambda>_. Inr ob)"

definition object_as_object_array :: "'w env \<Rightarrow> mem \<Rightarrow> addr \<Rightarrow> addr res" where
  "object_as_object_array E m ob =
     and_then (debug_assert E ''is_object_array_class''
       (and_then (class_of E m ob) (is_object_array_class E m))) (\<lambda>_. Inr ob)"

definition get_object_size :: "'w env \<Rightarrow> mem \<Rightarrow> objref \<Rightarrow> usize res" where
  "get_object_size E m object =
     and_then (object_from_objref E m object) (\<lambda>ob.
     and_then
       (and_then (class_of E m ob) (\<lambda>k1.
        if is_array_class m k1 then
          and_then (object_as_array E m ob) (\<lambda>a. array_size_of E m a)
        else
          and_then (and_then (class_of E m ob) (is_class_class E m)) (\<lambda>is_class.
          if is_class then
            and_then (object_as_class E m ob) (\<lambda>k. Inr (ucast (class_size (read_Class m k))))
          else
            and_then (class_of E m ob) (\<lambda>k2.
            if is_string_class m k2 then
              and_then (object_as_string E m ob) (\<lambda>s. string_size_of E (read_ArtString m s))
            else
              and_then (class_of E m ob) (\<lambda>k3. class_get_object_size E m k3))))) (\<lambda>result.
     and_then (debug_assert E ''result >= OBJECT_HEADER_SIZE''
        (Inr (ucast OBJECT_HEADER_SIZE \<le> result))) (\<lambda>_.
     Inr result)))"

section \<open>Layouts\<close>

lemma class_offsets:
  "offset_of Class_layout ''header'' = 0"
  "offset_of Class_layout ''component_type'' = 12"
  "offset_of Class_layout ''super_class'' = 32"
  "offset_of Class_layout ''access_flags'' = 64"
  "offset_of Class_layout ''class_flags'' = 68"
  "offset_of Class_layout ''class_size'' = 72"
  "offset_of Class_layout ''num_reference_instance_fields'' = 88"
  "offset_of Class_layout ''num_reference_static_fields'' = 92"
  "offset_of Class_layout ''object_size'' = 96"
  "offset_of Class_layout ''primitive_type'' = 104"
  "offset_of Class_layout ''reference_instance_offsets'' = 108"
  "offset_of Class_layout ''status'' = 112"
  by (simp_all add: layout_eval)

lemma size_of_Class_120: "size_of_Class = 120"
  by (simp add: size_of_Class_def layout_eval)

text \<open>A layout in which no byte is lost to alignment.\<close>

definition no_padding :: "layout \<Rightarrow> bool" where
  "no_padding l \<longleftrightarrow> size_of_layout l = sum_list (map (\<lambda>(f, sz, al). sz) l)"

text \<open>
  The mirrors have the sizes of their C++ counterparts on a 64-bit ART with 32-bit heap
  references and contain no padding, so every field lies where ART writes it.
\<close>

lemma layouts:
  "list_all no_padding
     [Object_layout, Class_layout, Array_layout, ArtString_layout, Reference_layout,
      DexCache_layout, ClassLoader_layout, ArtField_layout, ArtMethod_layout] \<and>
   map size_of_layout
     [ArtHeapReference_layout, Object_layout, Class_layout, Array_layout, ArtString_layout,
      Reference_layout, DexCache_layout, ClassLoader_layout, ArtField_layout, ArtMethod_layout]
   = [4, 8, 120, 16, 16, 24, 112, 40, 16, 32]"
  by (simp add: no_padding_def layout_eval)

section \<open>Status and kinds of classes\<close>

lemma get_field_address_of_nat:
  "n < 2 ^ 31 \<Longrightarrow> get_field_address ob (of_nat n) = ob + of_nat n"
proof -
  assume n: "n < 2 ^ 31"
  then have u: "unat (of_nat n :: i32) = n" by (intro unat_of_nat_small) simp
  then have "scast (of_nat n :: i32) = (ucast (of_nat n :: i32) :: u64)"
    using n by (intro scast_low) simp
  also have "\<dots> = of_nat n" using n by (intro ucast_of_nat_small) simp
  finally show ?thesis by (simp only: get_field_address_def)
qed

lemma status_word_address:
  "load32 m (get_field_address k (of_nat (offset_of Class_layout ''status''))) =
     status_word (read_Class m k)"
  by (subst get_field_address_of_nat) (simp_all add: class_offsets read_Class_def read_u32_def)

lemma status_from_u32_returns: "unat v < 16 \<Longrightarrow> \<exists>st. status_from_u32 v = Inr st \<and> status_num st = unat v"
proof -
  assume v: "unat v < 16"
  have "\<exists>st. status_num st = n" if "n < 16" for n
  proof -
    have "n \<in> status_num ` {NotReady, Retired, ErrorResolved, ErrorUnresolved, Idx, Loaded,
      Resolving, Resolved, Verifying, RetryVerificationAtRuntime, VerifiedNeedsAccessChecks,
      Verified, SuperclassValidated, Initializing, Initialized, VisiblyInitialized}"
      using that by simp arith
    then show ?thesis by blast
  qed
  with v obtain st where "status_from_u32 v = Inr st"
    using status.of_num_returns_iff by blast
  then show ?thesis using status.of_num_in by blast
qed

text \<open>
  Reading the status of a class never panics, whatever the class object holds: the four top
  bits of the status word always name a status.
\<close>

lemma get_status_total:
  "\<exists>st. get_status m k = Inr st \<and> status_num st = unat (status_word (read_Class m k)) div 2 ^ 28"
proof -
  have "unat (drop_bit 28 (status_word (read_Class m k))) = unat (status_word (read_Class m k)) div 2 ^ 28"
    by (simp add: drop_bit_eq_div unat_div)
  moreover have "\<dots> < 16"
    using unsigned_less [of "status_word (read_Class m k)", where ?'a = nat] by simp
  ultimately show ?thesis
    using status_from_u32_returns [of "drop_bit 28 (status_word (read_Class m k))"]
    unfolding get_status_def status_word_address by simp
qed

text \<open>An object with its class, both accepted by the sanity check of the debug build.\<close>

definition has_class :: "'w env \<Rightarrow> mem \<Rightarrow> addr \<Rightarrow> addr \<Rightarrow> bool" where
  "has_class E m ob k \<longleftrightarrow>
     is_object_sane E m ob \<and> is_object_sane E m k \<and> k \<noteq> 0 \<and> k = ucast (load32 m ob)"

lemma klass_slot_address [simp]: "slot_address (klass_slot ob) = ob"
  by (simp add: klass_slot_def get_field_slot_def get_field_address_def class_offset_def layout_eval)

lemma klass_slot_eq: "klass_slot ob = ArtSlot ob"
  by (rule ArtSlot.expand) simp

lemma has_class_get:
  assumes "has_class E m ob k"
  shows "get_class E m ob = Inr \<lparr>reference = Some (load32 m ob)\<rparr>"
    "heap_reference_deref E m \<lparr>reference = Some (load32 m ob)\<rparr> = Inr k"
    "class_of E m ob = Inr k" "object_from_objref E m ob = Inr ob"
proof -
  have "load32 m ob \<noteq> 0" using assms unfolding has_class_def by (metis unsigned_0)
  then show get: "get_class E m ob = Inr \<lparr>reference = Some (load32 m ob)\<rparr>"
    using assms by (simp add: get_class_def load_class_def heap_reference_def has_class_def)
  show deref: "heap_reference_deref E m \<lparr>reference = Some (load32 m ob)\<rparr> = Inr k"
    using assms by (auto simp: heap_reference_deref_def heap_reference_to_objref_def has_class_def)
  show "class_of E m ob = Inr k" by (simp add: class_of_def get deref)
  show "object_from_objref E m ob = Inr ob"
    using assms by (simp add: object_from_objref_def has_class_def)
qed

lemma is_class_class_iff:
  "is_object_sane E m k \<Longrightarrow> is_class_class E m k = Inr (k = ucast (load32 m k))"
  by (simp add: is_class_class_def get_class_def load_class_def heap_reference_def)

text \<open>The \<^verbatim>\<open>primitive_type\<close> word of a class of objects: not primitive, four-byte references.\<close>

definition reference_type_word :: u32 where "reference_type_word = 0x20000"

lemma is_primitive_reference:
  "primitive_type (read_Class m k) = reference_type_word \<Longrightarrow> is_primitive E m k = Inr False"
  by (simp add: is_primitive_def get_primitive_type_def reference_type_word_def class_consts
      primitive_from_u32_def component_size_shift_width_def PRIM_OBJECT_REFERENCE_SIZE_def)

text \<open>A resolved class of ordinary objects: no array, not abstract, not an interface, not primitive.\<close>

definition plain_class :: "'w env \<Rightarrow> mem \<Rightarrow> addr \<Rightarrow> bool" where
  "plain_class E m k \<longleftrightarrow>
     is_object_sane E m k \<and>
     \<not> is_array_class m k \<and> \<not> is_interface m k \<and> \<not> is_abstract m k \<and>
     primitive_type (read_Class m k) = reference_type_word \<and>
     is_resolved m k = Inr True"

lemma plain_class_instantiable: "plain_class E m k \<Longrightarrow> is_instantiable_non_array E m k = Inr True"
  by (simp add: plain_class_def is_instantiable_non_array_def is_primitive_reference)

lemma plain_class_normal:
  assumes "plain_class E m k" "k \<noteq> ucast (load32 m k)"
    "class_flags (read_Class m k) \<in> {kClassFlagNormal, kClassFlagRecord}"
  shows "check_normal_class E m k = Inr ()"
  using assms
  by (auto simp: check_normal_class_def plain_class_def is_variable_size_def is_class_class_iff
      is_string_class_def is_classloader_class_def class_consts)

lemma resolved_not_temp: "is_resolved m k = Inr True \<Longrightarrow> is_temp E m k = Inr False"
proof -
  assume "is_resolved m k = Inr True"
  then obtain st where st: "get_status m k = Inr st" "Resolved \<le> st \<or> st = ErrorResolved"
    by (auto simp: is_resolved_def and_then_eq_Inr)
  from st(2) have "\<not> (st < Resolving \<and> st \<noteq> ErrorResolved)"
    by (auto simp: less_eq_ClassStatus_def less_ClassStatus_def)
  with st(1) show ?thesis by (auto simp: is_temp_def)
qed

section \<open>Sizes\<close>

lemma data_offset_reference: "raw_align_up_law E \<Longrightarrow> data_offset E 4 = Inr 12"
proof -
  assume "raw_align_up_law E"
  then have "raw_align_up E 12 4 = 12"
    using unat_align_up [of E 2 12] by (simp add: align_up_nat_def word_unat_eq_iff)
  then show ?thesis by (simp add: data_offset_def is_power_of_two_def layout_eval)
qed

lemma offset_of_element_ok:
  assumes "raw_align_up_law E" "i < 2 ^ 29"
  shows "offset_of_element E (of_nat i) = Inr (of_nat (12 + i * 4))"
proof -
  have "mul_chk E (of_nat i) 4 = Inr (of_nat (i * 4) :: usize)"
    using assms(2) mul_chk_of_nat [of i 4, where ?'a = 64] by simp
  moreover have "add_chk E 12 (of_nat (i * 4)) = Inr (of_nat (12 + i * 4) :: usize)"
    using assms(2) add_chk_of_nat [of 12 "i * 4", where ?'a = 64] by simp
  ultimately show ?thesis
    by (simp add: offset_of_element_def data_offset_reference [OF assms(1)] del: of_nat_mult of_nat_add)
qed

end
