(* ===== verification/Sample_Heap.thy ===== *)
theory Sample_Heap
  imports Abi
begin

text \<open>
  A small heap of class objects, instances, an array and a string, on which the theorems about
  scanning and object sizes are applied.
\<close>

text \<open>
  \<^verbatim>\<open>java.lang.Class\<close> at 0x1000 with a reference field at offset 36; an abstract class at 0x2000
  with two static reference fields; a class of ordinary objects at 0x6000 with reference fields
  at offsets 8 and 16 and one instance of it at 0x3000; the class of its arrays at 0x5000 and an
  array of two elements at 0x4000; the class of strings at 0x7000 and an uncompressed string of
  three characters at 0x8000.
\<close>

definition sample_words :: "addr \<Rightarrow> u32" where
  "sample_words a =
     (case map_of
        [(0x1000, 0x1000), (0x1044, 0x10), (0x1048, 120), (0x1068, 0x20000), (0x106C, 0x80),
         (0x1070, 0xF0000000),
         (0x2000, 0x1000), (0x2024, 0x4000), (0x2040, 0x400), (0x2048, 128), (0x205C, 2),
         (0x2068, 0x20000), (0x2070, 0xF0000000), (0x2078, 0x3000), (0x207C, 0),
         (0x3000, 0x6000), (0x3008, 0x3000), (0x3010, 0x4000),
         (0x4000, 0x5000), (0x4008, 2), (0x400C, 0x3000), (0x4010, 0),
         (0x5000, 0x1000), (0x500C, 0x6000), (0x5044, 0x8), (0x5068, 0x20000),
         (0x5070, 0xF0000000),
         (0x6000, 0x1000), (0x6048, 120), (0x6060, 20), (0x6068, 0x20000), (0x606C, 0x5),
         (0x6070, 0xF0000000),
         (0x7000, 0x1000), (0x7044, 0x5), (0x7068, 0x20000), (0x7070, 0xF0000000),
         (0x8000, 0x7000), (0x8008, 7)] a of
        None \<Rightarrow> 0 | Some v \<Rightarrow> v)"

definition sample_mem :: mem where "sample_mem = mem_of_words sample_words"

lemma sample_load: "unat a mod 4 = 0 \<Longrightarrow> load32 sample_mem a = sample_words a"
  by (simp add: sample_mem_def load32_mem_of_words)

lemmas sample_heap =
  sample_load sample_words_def read_Class_def read_Array_def read_ref_def read_u32_def class_offsets
  heap_reference_def

lemma sample_sane [simp]: "is_object_sane concrete_env sample_mem a"
  by (simp add: is_object_sane_def env_with_def idle_upcalls_def)

lemma sample_resolved: "is_resolved sample_mem k = Inr True" if "status_word (read_Class sample_mem k) = 0xF0000000"
proof -
  have "get_status sample_mem k = Inr VisiblyInitialized"
    using that unfolding get_status_def status_word_address by (simp add: status_from_u32_def)
  then show ?thesis by (simp add: is_resolved_def less_eq_ClassStatus_def)
qed

end
