(* ===== verification/Abi_Sizes.thy ===== *)
theory Abi_Sizes
  imports Sample_Heap
begin

text \<open>
  The sizes that \<^verbatim>\<open>abi.rs\<close> computes: arrays, strings and class objects. Each is compared with
  a closed formula over the natural numbers; the machine arithmetic never overflows.
\<close>

section \<open>Arrays\<close>

text \<open>The \<^verbatim>\<open>primitive_type\<close> word of the class of a type: its size shift above its discriminant.\<close>

definition primitive_word :: "ArtPrimitive \<Rightarrow> u32" where
  "primitive_word ty = of_nat (component_size_shift ty * 2 ^ 16 + primitive_num ty)"

lemma component_size_shift_le: "component_size_shift ty \<le> 3"
  by (cases ty) (simp_all add: component_size_shift_width_def PRIM_OBJECT_REFERENCE_SIZE_def)

lemma primitive_word_read:
  "primitive_from_u32 (primitive_word ty AND kPrimitiveTypeMask) = Inr ty"
  "unat (drop_bit kPrimitiveTypeSizeShiftShift (primitive_word ty)) = component_size_shift ty"
  by (cases ty; simp add: primitive_word_def primitive_from_u32_def class_consts
      component_size_shift_width_def PRIM_OBJECT_REFERENCE_SIZE_def)+

lemma data_offset_ok:
  assumes "raw_align_up_law E" "s \<le> 3"
  shows "data_offset E (2 ^ s) = Inr (of_nat (align_up_nat 12 (2 ^ s)))"
proof -
  let ?d = "align_up_nat 12 (2 ^ s)"
  from assms(2) have s: "s = 0 \<or> s = 1 \<or> s = 2 \<or> s = 3" by linarith
  have d: "raw_align_up E (of_nat 12) (2 ^ s) = of_nat ?d" "raw_align_up E (of_nat ?d) (2 ^ s) = of_nat (align_up_nat ?d (2 ^ s))"
    using s by (intro raw_align_up_of_nat [OF assms(1)]; auto simp: align_up_nat_def)+
  have "align_up_nat ?d (2 ^ s) = ?d"
    by (intro align_up_nat_id align_up_nat_dvd) simp
  moreover have "is_power_of_two (2 ^ s)" using s by (auto simp: is_power_of_two_def)
  moreover have "offset_of Array_layout ''first_element'' = 12" by (simp add: layout_eval)
  ultimately show ?thesis
    unfolding data_offset_def by (simp only: d Let_def debug_assert_True and_then_Inr simp_thms)
qed

text \<open>The bytes of an array of \<open>n\<close> components.\<close>

definition array_bytes :: "ArtPrimitive \<Rightarrow> nat \<Rightarrow> nat" where
  "array_bytes ty n = align_up_nat 12 (2 ^ component_size_shift ty) + n * 2 ^ component_size_shift ty"

lemma array_bytes_bounds:
  assumes "n < 2 ^ 31"
  shows "12 \<le> array_bytes ty n" "array_bytes ty n < 2 ^ 35"
proof -
  let ?k = "(2 :: nat) ^ component_size_shift ty"
  show "12 \<le> array_bytes ty n" using align_up_nat_ge [of ?k 12] by (simp add: array_bytes_def)
  have k: "?k \<le> 2 ^ 3" using component_size_shift_le by (intro power_increasing) auto
  have "align_up_nat 12 ?k < 12 + ?k" by (rule align_up_nat_less) simp
  moreover have "n * ?k \<le> 2 ^ 31 * 2 ^ 3" using assms k by (intro mult_mono) auto
  ultimately show "array_bytes ty n < 2 ^ 35" using k by (simp add: array_bytes_def)
qed

lemma array_size_of_ok:
  assumes "raw_align_up_law E" "has_class E m a k"
    "reference (component_type (read_Class m k)) = Some c" "is_object_sane E m (ucast c)"
    "primitive_type (read_Class m (ucast c)) = primitive_word ty"
    "unat (array_length (read_Array m a)) < 2 ^ 31"
  shows "array_size_of E m a = Inr (of_nat (array_bytes ty (unat (array_length (read_Array m a)))))"
proof -
  let ?s = "component_size_shift ty" and ?n = "unat (array_length (read_Array m a))"
  have s3: "?s \<le> 3" by (rule component_size_shift_le)
  have "heap_reference_deref E m (component_type (read_Class m k)) = Inr (ucast c)"
    using assms(3,4) by (simp add: heap_reference_deref_def heap_reference_to_objref_def)
  moreover have "get_primitive_type_size_shift E m (ucast c) = Inr ?s"
    by (simp add: get_primitive_type_size_shift_def assms(5) primitive_word_read Let_def)
  ultimately have "array_component_size_shift E m a = Inr ?s"
    by (simp add: array_component_size_shift_def get_component_size_shift_def layout_eval
        has_class_get [OF assms(2)])
  moreover have "shl_chk E 1 ?s = Inr (2 ^ ?s :: usize)"
    using s3 by (simp add: shl_chk_def push_bit_eq_mult)
  moreover have "scast (array_length (read_Array m a)) = (of_nat ?n :: usize)"
    using assms(6) by (simp add: scast_low of_nat_unat)
  moreover have "shl_chk E (of_nat ?n) ?s = Inr (of_nat (?n * 2 ^ ?s) :: usize)"
    using s3 by (simp add: shl_chk_def push_bit_eq_mult)
  moreover have "add_chk E (of_nat (align_up_nat 12 (2 ^ ?s))) (of_nat (?n * 2 ^ ?s)) =
      Inr (of_nat (array_bytes ty ?n) :: usize)"
    using array_bytes_bounds(2) [OF assms(6), of ty] unfolding array_bytes_def
    by (intro add_chk_of_nat) simp
  ultimately show ?thesis
    unfolding array_size_of_def by (simp only: data_offset_ok [OF assms(1) s3] and_then_Inr Let_def)
qed

text \<open>The last check of the object size: a size that fits and covers the header is returned.\<close>

lemma header_check:
  assumes "8 \<le> v" "v < 2 ^ 64"
  shows "(ucast OBJECT_HEADER_SIZE \<le> (of_nat v :: usize)) = True" "unat (of_nat v :: usize) = v"
proof -
  show u: "unat (of_nat v :: usize) = v" using assms(2) by (intro unat_of_nat_small) simp
  show "(ucast OBJECT_HEADER_SIZE \<le> (of_nat v :: usize)) = True"
    using assms(1) u by (simp add: word_le_nat_alt OBJECT_HEADER_SIZE_def)
qed

lemma array_object_size:
  assumes "raw_align_up_law E" "has_class E m ob k"
    "reference (component_type (read_Class m k)) = Some c" "is_object_sane E m (ucast c)"
    "primitive_type (read_Class m (ucast c)) = primitive_word ty"
    "unat (array_length (read_Array m ob)) < 2 ^ 31"
  shows "get_object_size E m ob = Inr (of_nat (array_bytes ty (unat (array_length (read_Array m ob)))))"
proof -
  let ?v = "array_bytes ty (unat (array_length (read_Array m ob)))"
  have "8 \<le> ?v" "?v < 2 ^ 64" using array_bytes_bounds [OF assms(6), of ty] by simp_all
  note fits = header_check [OF this]
  have arr: "is_array_class m k" using assms(3) by (simp add: is_array_class_def)
  then have "object_as_array E m ob = Inr ob"
    by (simp add: object_as_array_def has_class_get [OF assms(2)])
  with arr show ?thesis
    by (simp add: get_object_size_def has_class_get [OF assms(2)] array_size_of_ok [OF assms] fits(1))
qed

text \<open>
  C26. The size of an array object, in every build: the payload starts at the first multiple of the
  component size after the 12-byte header and holds one component per element.
\<close>

theorem get_object_size_array:
  assumes "raw_align_up_law E" "has_class E m ob k"
    "reference (component_type (read_Class m k)) = Some c" "is_object_sane E m (ucast c)"
    "primitive_type (read_Class m (ucast c)) = primitive_word ty"
    "unat (array_length (read_Array m ob)) < 2 ^ 31"
  shows "\<exists>size. get_object_size E m ob = Inr size \<and>
    unat size = array_bytes ty (unat (array_length (read_Array m ob)))"
  using array_object_size [OF assms] array_bytes_bounds [OF assms(6), of ty]
  by (simp add: unat_of_nat_small)

subsection \<open>Strings\<close>

text \<open>The bytes of a string with a given count word.\<close>

definition string_bytes :: "u32 \<Rightarrow> nat" where
  "string_bytes c = align_up_nat (16 + (if even (unat c) then 1 else 2) * (unat c div 2)) 8"

lemma get_length_value:
  assumes "unat (count s) < 2 ^ 31"
  shows "scast (get_length s) = (of_nat (unat (count s) div 2) :: usize)"
proof -
  have "signed_drop_bit 1 (count s) = drop_bit 1 (count s)"
    using bit_above [OF assms] by (intro bit_word_eqI) (auto simp: bit_simps min_def not_le dest: bit_imp_le_length)
  then have u: "unat (get_length s) = unat (count s) div 2"
    by (simp add: get_length_def drop_bit_eq_div unat_div)
  have "scast (get_length s) = (ucast (get_length s) :: usize)"
    using assms by (intro scast_low) (simp add: u)
  then show ?thesis by (metis of_nat_unat u)
qed

lemma string_size_of_ok:
  assumes "raw_align_up_law E" "unat (count s) < 2 ^ 31"
  shows "string_size_of E s = Inr (of_nat (string_bytes (count s)))"
proof -
  let ?n = "unat (count s) div 2"
  define w where "w = (if even (unat (count s)) then 1 else 2 :: nat)"
  have wn: "w * ?n < 2 ^ 31" using assms(2) by (auto simp: w_def)
  have c: "is_compressed s \<longleftrightarrow> even (unat (count s))"
    using and_one_nonzero [of "count s"] bit_unsigned_iff [where ?'a = nat, of "count s" 0]
    by (auto simp: is_compressed_def bit_0)
  have "mul_chk E (of_nat w) (of_nat ?n) = Inr (of_nat (w * ?n) :: usize)"
    using wn assms(2) by (intro mul_chk_of_nat) (auto simp: w_def)
  moreover have "add_chk E (of_nat 16) (of_nat (w * ?n)) = Inr (of_nat (16 + w * ?n) :: usize)"
    using wn by (intro add_chk_of_nat) simp
  moreover have "raw_align_up E (of_nat (16 + w * ?n)) (2 ^ 3) = of_nat (align_up_nat (16 + w * ?n) (2 ^ 3))"
    using wn by (intro raw_align_up_of_nat [OF assms(1)]) simp_all
  ultimately show ?thesis
    using get_length_value [OF assms(2)] c
    by (simp add: string_size_of_def layout_eval string_bytes_def w_def MIN_ALIGNMENT_def split: if_splits)
qed

text \<open>
  C27. The size of a string object, in every build: sixteen bytes and one or two bytes per character,
  as the low bit of the count says, rounded up to eight.
\<close>

theorem get_object_size_string:
  assumes "raw_align_up_law E" "has_class E m ob k" "\<not> is_array_class m k" "k \<noteq> ucast (load32 m k)"
    "is_string_class m k" "unat (count (read_ArtString m ob)) < 2 ^ 31"
  shows "\<exists>size. get_object_size E m ob = Inr size \<and>
    unat size = string_bytes (count (read_ArtString m ob))"
proof -
  let ?c = "count (read_ArtString m ob)"
  have len: "16 + (if even (unat ?c) then 1 else 2) * (unat ?c div 2) \<le> 2 ^ 32" using assms(6) by auto
  then have "align_up_nat (16 + (if even (unat ?c) then 1 else 2) * (unat ?c div 2)) 8 < 2 ^ 32 + 8"
    using align_up_nat_less [of 8 "16 + (if even (unat ?c) then 1 else 2) * (unat ?c div 2)"] by linarith
  moreover have "16 \<le> string_bytes ?c"
    unfolding string_bytes_def by (rule order_trans [OF _ align_up_nat_ge]) simp_all
  ultimately have "8 \<le> string_bytes ?c" "string_bytes ?c < 2 ^ 64" by (simp_all add: string_bytes_def)
  note fits = header_check [OF this]
  have "is_class_class E m k = Inr False"
    using assms(2,4) is_class_class_iff [of E m k] by (auto simp: has_class_def)
  moreover have "object_as_string E m ob = Inr ob"
    using assms(5) by (simp add: object_as_string_def has_class_get [OF assms(2)])
  ultimately have "get_object_size E m ob = Inr (of_nat (string_bytes ?c))"
    using assms(3,5) by (simp add: get_object_size_def has_class_get [OF assms(2)]
        string_size_of_ok [OF assms(1,6)] fits(1))
  then show ?thesis using fits(2) by blast
qed

subsection \<open>Classes\<close>

text \<open>The loops that move fields into the gap trade fields for gap bytes and stop.\<close>

lemma shuffle_forward_spec:
  assumes "shuffle_forward w n gap = (n', gap')" "0 < unat w"
  shows "unat w * unat n + unat gap' = unat w * unat n' + unat gap" "n' \<le> n" "gap' \<le> gap"
proof -
  have "unat w * unat n + unat gap' = unat w * unat n' + unat gap \<and> n' \<le> n \<and> gap' \<le> gap"
    using assms
  proof (induction w n gap arbitrary: n' gap' rule: shuffle_forward.induct)
    case (1 w n gap)
    show ?case
    proof (cases "w \<le> gap \<and> n \<noteq> 0")
      case True
      then have u: "unat (n - 1) = unat n - 1" "unat (gap - w) = unat gap - unat w" "0 < unat n" "unat w \<le> unat gap"
        by (simp_all add: unat_sub_exact word_le_nat_alt unat_gt_0 Suc_le_eq flip: word_neq_0_conv)
      have "shuffle_forward w (n - 1) (gap - w) = (n', gap')"
        using "1.prems"(1) True by (simp add: shuffle_forward.simps [of w n gap])
      from "1.IH" [OF True this "1.prems"(2)]
      have ih: "unat w * (unat n - 1) + unat gap' = unat w * unat n' + (unat gap - unat w)"
        "unat n' \<le> unat n - 1" "unat gap' \<le> unat gap - unat w"
        by (simp_all add: u word_le_nat_alt)
      moreover have "unat w * unat n = unat w * (unat n - 1) + unat w"
        using u(3) by (metis Suc_diff_1 mult_Suc_right add.commute)
      ultimately show ?thesis
        unfolding word_le_nat_alt using u by (intro conjI; linarith)
    next
      case False
      then show ?thesis using "1.prems" by (auto simp: shuffle_forward.simps [of w n gap] split: if_splits)
    qed
  qed
  then show "unat w * unat n + unat gap' = unat w * unat n' + unat gap" "n' \<le> n" "gap' \<le> gap" by blast+
qed

text \<open>The bytes of a class object before its static fields, and of all its fields together.\<close>

definition vtable_bytes :: "bool \<Rightarrow> u32 \<Rightarrow> nat \<Rightarrow> nat" where
  "vtable_bytes embedded entries p =
     (if embedded then align_up_nat 124 p + p + unat entries * p else 120)"

definition field_bytes :: "u32 \<Rightarrow> u32 \<Rightarrow> u32 \<Rightarrow> u32 \<Rightarrow> nat" where
  "field_bytes n8 n16 n32 n64 = unat n8 + unat n16 * 2 + unat n32 * 4 + unat n64 * 8"

lemma unat_u32_less: "unat (n :: u32) < 2 ^ 32"
  using unsigned_less [of n, where ?'a = nat] by simp

lemma vtable_bytes_bound: "p \<in> {4, 8} \<Longrightarrow> vtable_bytes e v p < 2 ^ 36 \<and> vtable_bytes e v p mod 4 = 0"
  using unat_u32_less [of v] by (auto simp: vtable_bytes_def align_up_nat_def)

lemma class_header_ok:
  assumes "raw_align_up_law E" "unat p \<in> {4, 8}"
  shows "(if embedded then
          and_then (add_chk E size_of_Class 4) (\<lambda>s.
          and_then (add_chk E (raw_align_up E s p) p) (\<lambda>s.
          and_then (mul_chk E (ucast entries) p) (\<lambda>v.
          add_chk E s v)))
        else Inr size_of_Class) = Inr (of_nat (vtable_bytes embedded entries (unat p)))"
proof (cases embedded)
  case True
  have p: "p = of_nat (unat p)" by (simp add: of_nat_unat)
  define s where "s = (if unat p = 4 then 2 else 3 :: nat)"
  have s: "unat p = 2 ^ s" "s = 2 \<or> s = 3" using assms(2) by (auto simp: s_def)
  then have ps: "p = 2 ^ s" using p by simp
  have "add_chk E size_of_Class 4 = Inr (of_nat 124)"
    by (simp add: size_of_Class_120 add_chk_def)
  moreover have "raw_align_up E (of_nat 124) p = of_nat (align_up_nat 124 (unat p))"
    unfolding s(1) unfolding ps using s(2) by (intro raw_align_up_of_nat [OF assms(1)]) auto
  moreover have "add_chk E (of_nat (align_up_nat 124 (unat p))) p = Inr (of_nat (align_up_nat 124 (unat p) + unat p))"
    using assms(2) by (subst (2) p, intro add_chk_of_nat) (auto simp: align_up_nat_def)
  moreover have "mul_chk E (ucast entries) p = Inr (of_nat (unat entries * unat p))"
    unfolding ucast_u32_nat using assms(2) unat_u32_less [of entries]
    by (subst p, intro mul_chk_of_nat) auto
  moreover have "add_chk E (of_nat (align_up_nat 124 (unat p) + unat p)) (of_nat (unat entries * unat p)) =
      Inr (of_nat (align_up_nat 124 (unat p) + unat p + unat entries * unat p) :: usize)"
    using assms(2) unat_u32_less [of entries] by (intro add_chk_of_nat) (auto simp: align_up_nat_def)
  ultimately show ?thesis using True unfolding vtable_bytes_def by (simp only: if_True and_then_Inr)
qed (simp add: vtable_bytes_def size_of_Class_120)


lemma gap_ok:
  assumes "raw_is_aligned_law E" "A < 2 ^ 40" "A mod 4 = 0"
  obtains B m8 m16 m32 where
    "(if \<not> raw_is_aligned E (of_nat A) 8 \<and> n64 > 0 then
          (let gap = 8 - ucast ((of_nat A :: usize) AND 7) in
           and_then (add_chk E (of_nat A) (ucast gap)) (\<lambda>s3.
           let (n32', gap1) = shuffle_forward 4 n32 gap;
               (n16', gap2) = shuffle_forward 2 n16 gap1;
               (n8', gap3) = shuffle_forward 1 n8 gap2
           in Inr (s3, n8', n16', n32')))
        else Inr (of_nat A, n8, n16, n32)) = Inr (of_nat B :: usize, m8, m16, m32)"
    "A + field_bytes n8 n16 n32 n64 \<le> B + field_bytes m8 m16 m32 n64"
    "B + field_bytes m8 m16 m32 n64 \<le> A + field_bytes n8 n16 n32 n64 + 4" "B \<le> A + 4"
proof (cases "A mod 8 = 0 \<or> n64 = 0")
  case True
  have "raw_is_aligned E (of_nat A) (2 ^ 3) \<longleftrightarrow> A mod 2 ^ 3 = 0"
    using assms(2) by (intro raw_is_aligned_of_nat [OF assms(1)]) simp_all
  with True that [of A n8 n16 n32] show ?thesis by auto
next
  case False
  have uA: "unat (of_nat A :: usize) = A" using assms(2) by (intro unat_of_nat_small) simp
  have al: "raw_is_aligned E (of_nat A) (2 ^ 3) \<longleftrightarrow> A mod 2 ^ 3 = 0"
    using assms(2) by (intro raw_is_aligned_of_nat [OF assms(1)]) simp_all
  have "A mod 8 \<noteq> 0" using False by simp
  with assms(3) have "A mod 8 = 4" by presburger
  moreover have "(of_nat A :: usize) AND 7 = of_nat (A mod 8)"
  proof -
    have "(of_nat A :: usize) AND 7 = take_bit 3 (of_nat A)" by (simp add: take_bit_eq_mask mask_eq_exp_minus_1)
    then show ?thesis using assms(2) by (simp add: word_unat_eq_iff unat_mod take_bit_eq_mod unat_of_nat)
  qed
  ultimately have gap: "8 - ucast ((of_nat A :: usize) AND 7) = (4 :: u32)" by simp
  obtain m32 g1 m16 g2 m8 g3 where sh: "shuffle_forward 4 n32 4 = (m32, g1)"
    "shuffle_forward 2 n16 g1 = (m16, g2)" "shuffle_forward 1 n8 g2 = (m8, g3)"
    by (metis surj_pair)
  note s32 = shuffle_forward_spec [OF sh(1)] and s16 = shuffle_forward_spec [OF sh(2)]
    and s8 = shuffle_forward_spec [OF sh(3)]
  have "add_chk E (of_nat A) (of_nat 4) = Inr (of_nat (A + 4) :: usize)"
    using assms(2) by (intro add_chk_of_nat) simp
  then show ?thesis
    using False al s32 s16 s8
    by (intro that [of "A + 4" m8 m16 m32])
      (simp_all add: gap sh word_gt_0 field_bytes_def word_le_nat_alt)
qed

lemma field_bytes_bound: "field_bytes n8 n16 n32 n64 < 2 ^ 36"
  using unat_u32_less [of n8] unat_u32_less [of n16] unat_u32_less [of n32] unat_u32_less [of n64]
  by (simp add: field_bytes_def)

lemma static_fields_ok:
  assumes "B < 2 ^ 41"
  shows "and_then (mul_chk E (ucast n8) 1) (\<lambda>b8.
     and_then (mul_chk E (ucast n16) 2) (\<lambda>b16.
     and_then (add_chk E b8 b16) (\<lambda>p1.
     and_then (mul_chk E (ucast n32) 4) (\<lambda>b32.
     and_then (add_chk E p1 b32) (\<lambda>p2.
     and_then (mul_chk E (ucast n64) 8) (\<lambda>b64.
     and_then (add_chk E p2 b64) (\<lambda>p3.
     and_then (add_chk E (of_nat B) p3) f))))))) = f (of_nat (B + field_bytes n8 n16 n32 n64) :: usize)"
proof -
  note lim = unat_u32_less [of n8] unat_u32_less [of n16] unat_u32_less [of n32] unat_u32_less [of n64]
  have mul: "mul_chk E (ucast n) (of_nat w) = Inr (of_nat (unat n * w) :: usize)" if "w \<le> 8" for n :: u32 and w
  proof -
    have "unat n * w \<le> 2 ^ 32 * 8" using that unat_u32_less [of n] by (intro mult_mono) auto
    then show ?thesis using unat_u32_less [of n] that unfolding ucast_u32_nat by (intro mul_chk_of_nat) simp_all
  qed
  have add: "add_chk E (of_nat a) (of_nat b) = Inr (of_nat (a + b) :: usize)" if "a < 2 ^ 42" "b < 2 ^ 42" for a b
    using that by (intro add_chk_of_nat) simp
  show ?thesis
    using mul [of 1 n8] mul [of 2 n16] mul [of 4 n32] mul [of 8 n64] lim assms field_bytes_bound [of n8 n16 n32 n64]
      add [of "unat n8 * 1" "unat n16 * 2"] add [of "unat n8 * 1 + unat n16 * 2" "unat n32 * 4"]
      add [of "unat n8 * 1 + unat n16 * 2 + unat n32 * 4" "unat n64 * 8"] add [of B "field_bytes n8 n16 n32 n64"]
    by (simp add: field_bytes_def del: of_nat_add of_nat_mult)
qed

lemma bitmap_tail_ok:
  assumes "raw_align_up_law E" "C < 2 ^ 42"
  shows "and_then (mul_chk E (ucast n) 4) (\<lambda>bm. add_chk E (raw_align_up E (of_nat C) 4) bm) =
    Inr (of_nat (align_up_nat C 4 + unat (n :: u32) * 4) :: usize)"
proof -
  have "mul_chk E (ucast n) 4 = Inr (of_nat (unat n * 4) :: usize)"
    using mul_chk_of_nat [of "unat n" 4, where ?'a = 64] unat_u32_less [of n] unfolding ucast_u32_nat by simp
  moreover have "raw_align_up E (of_nat C) 4 = of_nat (align_up_nat C 4)"
    using raw_align_up_of_nat [OF assms(1), of 2 C] assms(2) by simp
  moreover have "add_chk E (of_nat (align_up_nat C 4)) (of_nat (unat n * 4)) =
      Inr (of_nat (align_up_nat C 4 + unat n * 4) :: usize)"
    using assms(2) align_up_nat_less [of 4 C] unat_u32_less [of n] by (intro add_chk_of_nat) simp
  ultimately show ?thesis by (simp only: and_then_Inr)
qed

text \<open>All bytes a class object needs.\<close>

definition class_bytes :: "bool \<Rightarrow> u32 \<Rightarrow> u32 \<Rightarrow> u32 \<Rightarrow> u32 \<Rightarrow> u32 \<Rightarrow> u32 \<Rightarrow> u32 \<Rightarrow> usize \<Rightarrow> nat" where
  "class_bytes e entries n8 n16 n32 n64 nref nbitmap p =
     vtable_bytes e entries (unat p) + unat nref * 4 + field_bytes n8 n16 n32 n64 + unat nbitmap * 4"

text \<open>
  C15. The size of a class object never overflows, covers the header, the embedded table, every
  static field and the reference bitmap, and wastes at most seven bytes on alignment, for every
  number of fields of each width.
\<close>

theorem compute_class_size_bounds:
  assumes "raw_align_up_law E" "raw_is_aligned_law E" "unat p \<in> {4, 8}"
  shows "\<exists>r. compute_class_size E e entries n8 n16 n32 n64 nref nbitmap p = Inr r \<and>
    class_bytes e entries n8 n16 n32 n64 nref nbitmap p \<le> unat r \<and>
    unat r \<le> class_bytes e entries n8 n16 n32 n64 nref nbitmap p + 7"
proof -
  let ?V = "vtable_bytes e entries (unat p)" and ?F = "field_bytes n8 n16 n32 n64"
  note V = vtable_bytes_bound [OF assms(3), of e entries]
  note lim = unat_u32_less [of nref] unat_u32_less [of nbitmap] field_bytes_bound [of n8 n16 n32 n64]
  define A where "A = ?V + unat nref * 4"
  have A: "A < 2 ^ 40" "A mod 4 = 0" using V lim by (simp_all add: A_def mod_add_eq [symmetric])
  have refs: "mul_chk E (ucast nref) 4 = Inr (of_nat (unat nref * 4) :: usize)"
    using mul_chk_of_nat [of "unat nref" 4, where ?'a = 64] lim unfolding ucast_u32_nat by simp
  have s2: "add_chk E (of_nat ?V) (of_nat (unat nref * 4)) = Inr (of_nat A :: usize)"
    unfolding A_def using V lim by (intro add_chk_of_nat) simp
  obtain B m8 m16 m32 where g: "(if \<not> raw_is_aligned E (of_nat A) 8 \<and> n64 > 0 then
          (let gap = 8 - ucast ((of_nat A :: usize) AND 7) in
           and_then (add_chk E (of_nat A) (ucast gap)) (\<lambda>s3.
           let (n32', gap1) = shuffle_forward 4 n32 gap;
               (n16', gap2) = shuffle_forward 2 n16 gap1;
               (n8', gap3) = shuffle_forward 1 n8 gap2
           in Inr (s3, n8', n16', n32')))
        else Inr (of_nat A, n8, n16, n32)) = Inr (of_nat B :: usize, m8, m16, m32)"
    and lo: "A + ?F \<le> B + field_bytes m8 m16 m32 n64"
    and hi: "B + field_bytes m8 m16 m32 n64 \<le> A + ?F + 4" and B: "B \<le> A + 4"
    by (rule gap_ok [OF assms(2) A])
  define C where "C = B + field_bytes m8 m16 m32 n64"
  have C: "C < 2 ^ 42" using hi A lim by (simp add: C_def)
  have B41: "B < 2 ^ 41" using A B by simp
  define R where "R = (if nbitmap > 0 then align_up_nat C 4 + unat nbitmap * 4 else C)"
  have al: "C \<le> align_up_nat C 4" "align_up_nat C 4 < C + 4"
    by (rule align_up_nat_ge align_up_nat_less; simp)+
  have R: "class_bytes e entries n8 n16 n32 n64 nref nbitmap p \<le> R"
    "R \<le> class_bytes e entries n8 n16 n32 n64 nref nbitmap p + 7"
    using lo hi al unat_gt_0 [of nbitmap]
    by (auto simp: R_def class_bytes_def word_gt_0 C_def A_def)
  have "R < 2 ^ 64" using C al lim by (simp add: R_def)
  then have uR: "unat (of_nat R :: usize) = R" by (intro unat_of_nat_small) simp
  have "(if nbitmap > 0 then and_then (mul_chk E (ucast nbitmap) 4) (\<lambda>bm.
       add_chk E (raw_align_up E (of_nat C) 4) bm) else Inr (of_nat C)) = Inr (of_nat R :: usize)"
    unfolding R_def using bitmap_tail_ok [OF assms(1) C] by simp
  then have "compute_class_size E e entries n8 n16 n32 n64 nref nbitmap p = Inr (of_nat R)"
    unfolding compute_class_size_def ART_HEAP_REFERENCE_SIZE_4
    by (simp only: class_header_ok [OF assms(1,3)] refs s2 g and_then_Inr prod.case static_fields_ok [OF B41] flip: C_def)
  with R uR show ?thesis by auto
qed

text \<open>
  The static reference fields of a resolved class start right after the embedded vtable, or
  after the fixed part of the class object when it has none.
\<close>

lemma static_fields_offset:
  assumes "raw_align_up_law E" "unat p \<in> {4, 8}"
    "is_resolved m k = Inr True" "is_instantiable E m k = Inr e"
  shows "get_first_reference_static_fields_offset E m k p =
    Inr (of_nat (vtable_bytes e (get_embedded_vtable_length m k) (unat p)))"
proof -
  let ?V = "vtable_bytes True (get_embedded_vtable_length m k) (unat p)"
  have zero: "mul_chk E 0 n = Inr 0" "add_chk E n 0 = Inr n" for n :: usize
    using unsigned_less [of n, where ?'a = nat] by (simp_all add: mul_chk_def add_chk_def)
  have "compute_class_size E True (get_embedded_vtable_length m k) 0 0 0 0 0 0 p = Inr (of_nat ?V)"
    unfolding compute_class_size_def
    by (simp only: class_header_ok [OF assms(1,2)] and_then_Inr) (simp add: zero)
  then show ?thesis
    using assms(3,4)
    by (simp add: get_first_reference_static_fields_offset_def should_have_embedded_vtable_def
        vtable_bytes_def size_of_Class_120)
qed

section \<open>Sizes in the sample heap\<close>

lemma sample_array:
  "array_length (read_Array sample_mem 0x4000) = 2" "array_bytes Prim_Not 2 = 20"
  "has_class concrete_env sample_mem 0x4000 0x5000"
  "reference (component_type (read_Class sample_mem 0x5000)) = Some 0x6000"
  "primitive_type (read_Class sample_mem (ucast (0x6000 :: u32))) = primitive_word Prim_Not"
  by (simp_all add: read_Array_def read_u32_def layout_eval sample_load sample_words_def)
    (simp_all add: array_bytes_def align_up_nat_def component_size_shift_width_def has_class_def
        PRIM_OBJECT_REFERENCE_SIZE_def sample_heap primitive_word_def)

theorem get_object_size_array_witness:
  "\<exists>size. get_object_size concrete_env sample_mem 0x4000 = Inr size \<and> unat size = 20"
  using get_object_size_array [OF concrete_env_laws(2) sample_array(3,4) sample_sane sample_array(5)]
  by (simp add: sample_array)

theorem get_object_size_string_witness:
  "\<exists>size. get_object_size concrete_env sample_mem 0x8000 = Inr size \<and> unat size = 24"
proof -
  have "count (read_ArtString sample_mem 0x8000) = 7"
    by (simp add: read_ArtString_def read_u32_def layout_eval sample_load sample_words_def)
  moreover have "string_bytes 7 = 24" by (simp add: string_bytes_def align_up_nat_def)
  ultimately show ?thesis
    using get_object_size_string [OF concrete_env_laws(2), of sample_mem "0x8000" "0x7000"]
    by (simp add: has_class_def sample_heap is_array_class_def is_string_class_def class_consts)
qed

theorem compute_class_size_bounds_witness:
  "\<exists>r. compute_class_size concrete_env False 0 3 1 0 2 1 0 4 = Inr r \<and> 145 \<le> unat r \<and> unat r \<le> 152"
  using compute_class_size_bounds [OF concrete_env_laws(2,3), of 4 False 0 3 1 0 2 1 0]
  by (simp add: class_bytes_def vtable_bytes_def field_bytes_def)

end
