(* ===== verification/Object_Model.thy ===== *)
theory Object_Model
  imports Abi_Sizes
begin

text \<open>
  \<^verbatim>\<open>object_model.rs\<close>: where MMTk keeps its per-object metadata, the size of an object in the
  heap and copying an object. The copy context of mmtk-core is a parameter: a pair of functions
  on memory and an opaque state.
\<close>

section \<open>Definitions\<close>

datatype metadata_spec =
    Side_First
  | Side_After metadata_spec
  | In_Header int

definition GLOBAL_LOG_BIT_SPEC :: metadata_spec where "GLOBAL_LOG_BIT_SPEC = Side_First"
definition LOCAL_FORWARDING_POINTER_SPEC :: metadata_spec where
  "LOCAL_FORWARDING_POINTER_SPEC = In_Header 32"
definition LOCAL_FORWARDING_BITS_SPEC :: metadata_spec where
  "LOCAL_FORWARDING_BITS_SPEC = In_Header 61"
definition LOCAL_LOS_MARK_NURSERY_SPEC :: metadata_spec where
  "LOCAL_LOS_MARK_NURSERY_SPEC = Side_First"
definition LOCAL_MARK_BIT_SPEC :: metadata_spec where
  "LOCAL_MARK_BIT_SPEC = Side_After LOCAL_LOS_MARK_NURSERY_SPEC"
definition LOCAL_PINNING_BIT_SPEC :: metadata_spec where
  "LOCAL_PINNING_BIT_SPEC = Side_After LOCAL_MARK_BIT_SPEC"
definition UNIFIED_OBJECT_REFERENCE_ADDRESS :: bool where "UNIFIED_OBJECT_REFERENCE_ADDRESS = True"
definition OBJECT_REF_OFFSET_LOWER_BOUND :: int where "OBJECT_REF_OFFSET_LOWER_BOUND = 0"

definition get_current_size :: "'w env \<Rightarrow> mem \<Rightarrow> objref \<Rightarrow> usize res" where
  "get_current_size E m object =
     and_then (get_object_size E m object) (\<lambda>size. Inr (raw_align_up E size MIN_ALIGNMENT))"

definition get_size_when_copied :: "'w env \<Rightarrow> mem \<Rightarrow> objref \<Rightarrow> usize res" where
  "get_size_when_copied E m object = get_current_size E m object"

definition get_align_when_copied :: "objref \<Rightarrow> usize" where
  "get_align_when_copied object = MIN_ALIGNMENT"

definition get_align_offset_when_copied :: "objref \<Rightarrow> usize" where
  "get_align_offset_when_copied object = 0"

definition MAX_ALIGNMENT :: usize where "MAX_ALIGNMENT = 8"
definition ALLOC_END_ALIGNMENT :: usize where "ALLOC_END_ALIGNMENT = 8"
definition USE_ALLOCATION_OFFSET :: bool where "USE_ALLOCATION_OFFSET = False"

definition ref_to_object_start :: "objref \<Rightarrow> addr" where
  "ref_to_object_start object = object"

definition ref_to_header :: "objref \<Rightarrow> addr" where
  "ref_to_header object = object"

definition dump_object :: "'w env \<Rightarrow> objref \<Rightarrow> 'w \<Rightarrow> 'w" where
  "dump_object E object w = dump_object_upcall (upcalls E) object w"

definition copy_to :: "objref \<Rightarrow> objref \<Rightarrow> addr \<Rightarrow> addr res" where
  "copy_to from to region = Inl Unimplemented"

definition get_reference_when_copied_to :: "objref \<Rightarrow> addr \<Rightarrow> objref res" where
  "get_reference_when_copied_to from to = Inl Unimplemented"

definition get_type_descriptor :: "objref \<Rightarrow> u8 list res" where
  "get_type_descriptor object = Inl Unimplemented"

text \<open>Two byte ranges of the same length that share no byte.\<close>

definition disjoint_ranges :: "addr \<Rightarrow> addr \<Rightarrow> nat \<Rightarrow> bool" where
  "disjoint_ranges s t n \<longleftrightarrow> n \<le> unat (t - s) \<and> n \<le> unat (s - t)"

text \<open>\<^verbatim>\<open>copy_nonoverlapping\<close>: undefined behaviour (\<open>None\<close>) on overlapping ranges.\<close>

definition copy_nonoverlapping :: "mem \<Rightarrow> addr \<Rightarrow> addr \<Rightarrow> nat \<Rightarrow> mem option" where
  "copy_nonoverlapping m s t n = (if n = 0 \<or> disjoint_ranges s t n then Some (ptr_copy m s t n) else None)"

record ('s, 'c) copy_context =
  alloc_copy :: "objref \<Rightarrow> usize \<Rightarrow> usize \<Rightarrow> usize \<Rightarrow> 's \<Rightarrow> mem \<times> 'c \<Rightarrow> addr \<times> mem \<times> 'c"
  post_copy :: "objref \<Rightarrow> usize \<Rightarrow> 's \<Rightarrow> mem \<times> 'c \<Rightarrow> mem \<times> 'c"

definition copy ::
  "'w env \<Rightarrow> ('s, 'c) copy_context \<Rightarrow> objref \<Rightarrow> 's \<Rightarrow> mem \<times> 'c \<Rightarrow> (objref \<times> mem \<times> 'c) res option" where
  "copy E C from semantics st =
     (case get_size_when_copied E (fst st) from of
        Inl p \<Rightarrow> Some (Inl p)
      | Inr bytes \<Rightarrow>
          let (dst, m1, c1) = alloc_copy C from bytes MIN_ALIGNMENT 0 semantics st
          in (case copy_nonoverlapping m1 from dst (unat bytes) of
                None \<Rightarrow> None
              | Some m2 \<Rightarrow>
                  let to_obj = dst;
                      st' = post_copy C to_obj bytes semantics (m2, c1)
                  in Some (Inr (to_obj, st'))))"

text \<open>
  What a copy allocator promises for objects that a 2 GB heap can hold: space for the copy that
  does not overlap the object, which is left as it was.
\<close>

definition alloc_copy_law :: "('s, 'c) copy_context \<Rightarrow> bool" where
  "alloc_copy_law C \<longleftrightarrow>
     (\<forall>from bytes align offset sem m c dst m' c'. unat bytes \<le> 2 ^ 31 \<longrightarrow>
        alloc_copy C from bytes align offset sem (m, c) = (dst, m', c') \<longrightarrow>
        disjoint_ranges from dst (unat bytes) \<and>
        (\<forall>a. unat (a - from) < unat bytes \<longrightarrow> m' a = m a))"

section \<open>Sizes and copies\<close>

text \<open>
  The size MMTk uses for an object is the smallest multiple of eight that holds it.
\<close>

lemma get_current_size_aligned:
  assumes "raw_align_up_law E" "get_object_size E m ob = Inr n" "unat n + 8 \<le> 2 ^ 64"
  shows "\<exists>s. get_current_size E m ob = Inr s \<and> 8 dvd unat s \<and> unat n \<le> unat s \<and> unat s < unat n + 8"
proof -
  have s: "unat (raw_align_up E n (2 ^ 3)) = align_up_nat (unat n) (2 ^ 3)"
    using assms by (intro unat_align_up) simp_all
  have "8 dvd align_up_nat (unat n) 8" "unat n \<le> align_up_nat (unat n) 8"
    "align_up_nat (unat n) 8 < unat n + 8"
    by (rule align_up_nat_dvd align_up_nat_ge align_up_nat_less; simp)+
  with s show ?thesis by (simp add: get_current_size_def assms(2) MIN_ALIGNMENT_def)
qed

text \<open>
  The alignment and offset that a copy asks for are among those the binding tells MMTk it uses, and
  an object that starts on such a boundary also ends on one.
\<close>

lemma copy_alignment_declared:
  "MIN_ALIGNMENT \<le> get_align_when_copied ob \<and> get_align_when_copied ob \<le> MAX_ALIGNMENT \<and>
   (\<not> USE_ALLOCATION_OFFSET \<longrightarrow> get_align_offset_when_copied ob = 0)"
  by (simp add: get_align_when_copied_def get_align_offset_when_copied_def MIN_ALIGNMENT_def MAX_ALIGNMENT_def)

lemma copy_end_aligned:
  assumes "raw_align_up_law E" "get_object_size E m ob = Inr n" "unat n + 8 \<le> 2 ^ 64"
    "unat a mod unat (get_align_when_copied ob) = 0" "get_size_when_copied E m ob = Inr s" "unat a + unat s < 2 ^ 64"
  shows "unat (a + s) mod unat ALLOC_END_ALIGNMENT = 0"
proof -
  have "8 dvd unat s"
    using get_current_size_aligned [OF assms(1-3)] assms(5) by (auto simp: get_size_when_copied_def)
  moreover have "unat (a + s) = unat a + unat s" using assms(6) by (subst unat_add_exact) simp_all
  ultimately show ?thesis
    using assms(4) by (simp add: ALLOC_END_ALIGNMENT_def get_align_when_copied_def MIN_ALIGNMENT_def dvd_eq_mod_eq_0 mod_add_eq [symmetric])
qed

lemma copy_bytes:
  assumes "get_current_size E m from = Inr bytes"
    "alloc_copy C from bytes MIN_ALIGNMENT 0 sem (m, c) = (dst, m1, c1)"
    "disjoint_ranges from dst (unat bytes)" "\<And>a. unat (a - from) < unat bytes \<Longrightarrow> m1 a = m a"
  shows "copy E C from sem (m, c) =
      Some (Inr (dst, post_copy C dst bytes sem (ptr_copy m1 from dst (unat bytes), c1)))"
    "i < unat bytes \<Longrightarrow> ptr_copy m1 from dst (unat bytes) (dst + of_nat i) = m (from + of_nat i)"
    "i < unat bytes \<Longrightarrow> ptr_copy m1 from dst (unat bytes) (from + of_nat i) = m (from + of_nat i)"
proof -
  let ?m = "ptr_copy m1 from dst (unat bytes)"
  show "copy E C from sem (m, c) = Some (Inr (dst, post_copy C dst bytes sem (?m, c1)))"
    using assms(3) by (simp add: copy_def get_size_when_copied_def assms(1,2) copy_nonoverlapping_def Let_def)
  assume i: "i < unat bytes"
  have u: "unat (of_nat i :: addr) = i"
    using i unsigned_less [of bytes, where ?'a = nat] by (intro unat_of_nat_small) simp
  have m1: "m1 (from + of_nat i) = m (from + of_nat i)" using i assms(4) by (simp add: u)
  then show "?m (dst + of_nat i) = m (from + of_nat i)"
    using i unsigned_less [of bytes, where ?'a = nat] by (subst ptr_copy_inside) simp_all
  have apart: "unat bytes \<le> unat (dst - from)" "unat bytes \<le> unat (from - dst)"
    using assms(3) by (simp_all add: disjoint_ranges_def)
  moreover have "unat (from - dst) + unat (dst - from) = 2 ^ 64"
    using i apart by (intro unat_sub_swap) auto
  ultimately have "unat (from - dst + of_nat i) = unat (from - dst) + i"
    using i u by (subst unat_add_exact) simp_all
  then have "unat bytes \<le> unat (from + of_nat i - dst)" using apart by (simp add: algebra_simps)
  then show "?m (from + of_nat i) = m (from + of_nat i)" by (simp add: ptr_copy_outside m1)
qed

text \<open>
  C13. Copying an object never is undefined behaviour and gives MMTk's \<^verbatim>\<open>post_copy\<close> a memory in which
  every byte of the object, class word and padding included, is found at the same offset of the
  copy, and the original is unchanged.
\<close>

theorem copy_preserves_object:
  assumes "alloc_copy_law C" "get_current_size E m from = Inr bytes" "unat bytes \<le> 2 ^ 31"
  shows "\<exists>to m' c'. copy E C from sem (m, c) = Some (Inr (to, post_copy C to bytes sem (m', c'))) \<and>
    (\<forall>i < unat bytes. m' (to + of_nat i) = m (from + of_nat i) \<and> m' (from + of_nat i) = m (from + of_nat i))"
proof -
  obtain dst m1 c1 where al: "alloc_copy C from bytes MIN_ALIGNMENT 0 sem (m, c) = (dst, m1, c1)"
    by (metis prod_cases3)
  with assms(1,3) have "disjoint_ranges from dst (unat bytes)"
    and "\<And>a. unat (a - from) < unat bytes \<Longrightarrow> m1 a = m a"
    unfolding alloc_copy_law_def by blast+
  from copy_bytes [OF assms(2) al this] show ?thesis by blast
qed

section \<open>Copying the array of the sample heap\<close>

lemma sample_array_size: "get_object_size concrete_env sample_mem 0x4000 = Inr 20"
  using array_object_size [OF concrete_env_laws(2) sample_array(3,4) sample_sane sample_array(5)]
  by (simp add: sample_array)

lemma sample_current_size: "get_current_size concrete_env sample_mem 0x4000 = Inr 24"
proof -
  have "raw_align_up concrete_env 20 MIN_ALIGNMENT = 24"
    by (simp add: env_with_def MIN_ALIGNMENT_def align_up_nat_def)
  then show ?thesis by (simp add: get_current_size_def sample_array_size)
qed

text \<open>A context that copies 4 GB upwards.\<close>

definition sample_context :: "(unit, unit) copy_context" where
  "sample_context =
     \<lparr>alloc_copy = (\<lambda>from bytes al off sem (m, c). (from + 0x100000000, m, c)),
      post_copy = (\<lambda>ob bytes sem st. st)\<rparr>"

lemma sample_context_law: "alloc_copy_law sample_context"
  by (auto simp: alloc_copy_law_def sample_context_def disjoint_ranges_def)

theorem copy_preserves_object_witness:
  "\<exists>to m' c'. copy concrete_env sample_context 0x4000 () (sample_mem, ()) = Some (Inr (to, m', c')) \<and>
    (\<forall>i < 24. m' (to + of_nat i) = sample_mem (0x4000 + of_nat i))"
  using copy_preserves_object [OF sample_context_law sample_current_size, of "()" "()"]
  by (auto simp: sample_context_def)
end
