(* ===== verification/Object_Scanning.thy ===== *)
theory Object_Scanning
  imports Sample_Heap
begin

text \<open>
  \<^verbatim>\<open>object_scanning.rs\<close>: scanning an object for reference slots. The effect of a scan on its slot
  visitor is the list of slots passed to \<^verbatim>\<open>visit_slot\<close>, in order; upcalls contribute the slots
  they pass to their closure. A scan may panic (\<open>Inl\<close>) and, through the debug check on the
  superclass chain, may fail to return on a cyclic chain (\<open>None\<close>).
\<close>

section \<open>Definitions\<close>

definition visit_slot :: "'w env \<Rightarrow> mem \<Rightarrow> ArtSlot \<Rightarrow> ArtSlot list" where
  "visit_slot E m s = (if slot_load E m s \<noteq> None then [s] else [])"

function visit_one_word :: "'w env \<Rightarrow> mem \<Rightarrow> addr \<Rightarrow> u32 \<Rightarrow> u32 \<Rightarrow> ArtSlot list res" where
  "visit_one_word E m ob field_offset ref_offsets =
     (if ref_offsets = 0 then Inr []
      else
        let here = (if ref_offsets AND 1 \<noteq> 0
                    then visit_slot E m (get_field_slot ob field_offset) else []) in
        and_then (add_chk E field_offset (ucast ART_HEAP_REFERENCE_SIZE)) (\<lambda>field_offset'.
        and_then (visit_one_word E m ob field_offset' (drop_bit 1 ref_offsets)) (\<lambda>rest.
        Inr (here @ rest))))"
  by pat_completeness auto
termination
  by (relation "measure (\<lambda>(E, m, ob, off, refs). unat refs)") (auto intro: drop_bit_one_less [unfolded One_nat_def])

declare visit_one_word.simps [simp del]

definition visit_instance_fields_references ::
  "'w env \<Rightarrow> mem \<Rightarrow> addr \<Rightarrow> addr \<Rightarrow> ArtSlot list res" where
  "visit_instance_fields_references E m ob k =
     and_then (get_reference_instance_offsets E m k) (\<lambda>ref_offsets.
     and_then (debug_assert E ''ref_offsets != 0'' (Inr (ref_offsets \<noteq> 0))) (\<lambda>_.
     if ref_offsets AND kVisitReferencesSlowpathMask \<noteq> 0 then
       let bitmap_num_words = ref_offsets AND NOT kVisitReferencesSlowpathMask in
       and_then (add_chk E k (ucast (class_size (read_Class m k)))) (\<lambda>klass_end.
       and_then (mul_chk E bitmap_num_words 4) (\<lambda>bitmap_bytes.
       and_then (sub_chk E klass_end (ucast bitmap_bytes)) (\<lambda>overflow_bitmap.
       concat_res (\<lambda>i.
           and_then (mul_chk E i (ucast ART_HEAP_REFERENCE_SIZE)) (\<lambda>x.
           and_then (mul_chk E x 32) (\<lambda>y.
           and_then (add_chk E OBJECT_HEADER_SIZE y) (\<lambda>field_offset.
           visit_one_word E m ob field_offset (load32 m (overflow_bitmap + 4 * ucast i))))))
         (map word_of_nat [0..<unat bitmap_num_words]))))
     else visit_one_word E m ob OBJECT_HEADER_SIZE ref_offsets))"

fun visit_static_loop :: "'w env \<Rightarrow> mem \<Rightarrow> addr \<Rightarrow> usize \<Rightarrow> nat \<Rightarrow> ArtSlot list res" where
  "visit_static_loop E m ob field_offset 0 = Inr []"
| "visit_static_loop E m ob field_offset (Suc n) =
     and_then (debug_assert E ''field_offset != class_offset'' (Inr (field_offset \<noteq> class_offset))) (\<lambda>_.
     let here = visit_slot E m (get_field_slot ob (ucast field_offset)) in
     and_then (add_chk E field_offset ART_HEAP_REFERENCE_SIZE) (\<lambda>field_offset'.
     and_then (visit_static_loop E m ob field_offset' n) (\<lambda>rest.
     Inr (here @ rest))))"

definition visit_static_fields_references ::
  "'w env \<Rightarrow> mem \<Rightarrow> usize \<Rightarrow> addr \<Rightarrow> ArtSlot list res" where
  "visit_static_fields_references E m pointer_size k =
     and_then (debug_assert E ''!is_temp'' (not_res (is_temp E m k))) (\<lambda>_.
     and_then (debug_assert E ''is_resolved'' (is_resolved m k)) (\<lambda>_.
     let num_reference_fields = num_reference_static_fields (read_Class m k) in
     if num_reference_fields > 0 then
       and_then (get_first_reference_static_fields_offset E m k pointer_size) (\<lambda>field_offset.
       visit_static_loop E m k field_offset (unat num_reference_fields))
     else Inr []))"

definition class_visit_references ::
  "'w env \<Rightarrow> mem \<Rightarrow> usize \<Rightarrow> bool \<Rightarrow> addr \<Rightarrow> objref \<Rightarrow> ArtSlot list res" where
  "class_visit_references E m pointer_size kVisitNativeRoots k object =
     and_then (is_resolved m k) (\<lambda>resolved.
     and_then (if resolved then visit_static_fields_references E m pointer_size k else Inr [])
       (\<lambda>statics.
     Inr (statics @ (if kVisitNativeRoots
                     then scan_native_roots (upcalls E) m object Roots_Class else []))))"

definition array_visit_references :: "'w env \<Rightarrow> mem \<Rightarrow> addr \<Rightarrow> ArtSlot list res" where
  "array_visit_references E m a =
     (let len = scast (array_length (read_Array m a)) :: usize in
      concat_res (\<lambda>i.
          and_then (offset_of_element E i) (\<lambda>off.
          Inr (visit_slot E m (get_field_slot a (ucast off)))))
        (map word_of_nat [0..<unat len]))"

definition visit_referent :: "'w env \<Rightarrow> mem \<Rightarrow> objref \<Rightarrow> ArtHeapReference \<Rightarrow> ArtSlot list res" where
  "visit_referent E m object klass_ref =
     and_then (heap_reference_to_objref E klass_ref) (\<lambda>k.
     Inr (process_referent (upcalls E) m k object))"

definition dexcache_visit_native_roots :: "'w env \<Rightarrow> mem \<Rightarrow> objref \<Rightarrow> ArtSlot list" where
  "dexcache_visit_native_roots E m object = scan_native_roots (upcalls E) m object Roots_DexCache"

definition classloader_visit_classes :: "'w env \<Rightarrow> mem \<Rightarrow> objref \<Rightarrow> ArtSlot list" where
  "classloader_visit_classes E m object = scan_native_roots (upcalls E) m object Roots_ClassLoader"

text \<open>The kinds of class the scan dispatches on, in the order of its tests.\<close>

datatype scan_kind =
    Scan_Instance
  | Scan_No_References
  | Scan_Class
  | Scan_Object_Array
  | Scan_Reference
  | Scan_DexCache
  | Scan_ClassLoader
  | Scan_Unexpected

definition scan_kind_of :: "u32 \<Rightarrow> scan_kind" where
  "scan_kind_of flags =
     (if flags = kClassFlagNormal \<or> flags = kClassFlagRecord then Scan_Instance
      else if flags AND kClassFlagNoReferenceFields \<noteq> 0 then Scan_No_References
      else if flags = kClassFlagClass then Scan_Class
      else if flags AND kClassFlagObjectArray \<noteq> 0 then Scan_Object_Array
      else if flags AND kClassFlagReference \<noteq> 0 then Scan_Reference
      else if flags AND kClassFlagDexCache \<noteq> 0 then Scan_DexCache
      else if flags AND kClassFlagClassLoader \<noteq> 0 then Scan_ClassLoader
      else Scan_Unexpected)"

text \<open>What is visited after the klass slot, for each kind but the one without references.\<close>

definition scan_body ::
  "'w env \<Rightarrow> mem \<Rightarrow> usize \<Rightarrow> bool \<Rightarrow> scan_kind \<Rightarrow> objref \<Rightarrow> ArtHeapReference \<Rightarrow> addr
     \<Rightarrow> ArtSlot list res" where
  "scan_body E m pointer_size kVisitNativeRoots kind ob klass_ref k =
     (case kind of
        Scan_Instance \<Rightarrow>
          and_then (check_normal_class E m k) (\<lambda>_.
          and_then (debug_assert E ''is_instantiable_non_array'' (is_instantiable_non_array E m k)) (\<lambda>_.
          visit_instance_fields_references E m ob k))
      | Scan_No_References \<Rightarrow> Inr []
      | Scan_Class \<Rightarrow>
          and_then (debug_assert E ''!is_string_class'' (Inr (\<not> is_string_class m k))) (\<lambda>_.
          and_then (debug_assert E ''is_class_class'' (is_class_class E m k)) (\<lambda>_.
          and_then (debug_assert E ''is_instantiable_non_array'' (is_instantiable_non_array E m k)) (\<lambda>_.
          and_then (visit_instance_fields_references E m ob k) (\<lambda>fields.
          and_then (object_as_class E m ob) (\<lambda>as_klass.
          and_then (class_visit_references E m pointer_size kVisitNativeRoots as_klass ob) (\<lambda>refs.
          Inr (fields @ refs)))))))
      | Scan_Object_Array \<Rightarrow>
          and_then (debug_assert E ''!is_string_class'' (Inr (\<not> is_string_class m k))) (\<lambda>_.
          and_then (debug_assert E ''is_object_array_class'' (is_object_array_class E m k)) (\<lambda>_.
          and_then (object_as_object_array E m ob) (\<lambda>a.
          array_visit_references E m a)))
      | Scan_Reference \<Rightarrow>
          and_then (debug_assert E ''!is_string_class'' (Inr (\<not> is_string_class m k))) (\<lambda>_.
          and_then (debug_assert E ''is_instantiable_non_array'' (is_instantiable_non_array E m k)) (\<lambda>_.
          and_then (visit_instance_fields_references E m ob k) (\<lambda>fields.
          and_then (visit_referent E m ob klass_ref) (\<lambda>refs.
          Inr (fields @ refs)))))
      | Scan_DexCache \<Rightarrow>
          and_then (debug_assert E ''!is_string_class'' (Inr (\<not> is_string_class m k))) (\<lambda>_.
          and_then (debug_assert E ''is_instantiable_non_array'' (is_instantiable_non_array E m k)) (\<lambda>_.
          and_then (debug_assert E ''is_dexcache_class'' (Inr (is_dexcache_class m k))) (\<lambda>_.
          and_then (visit_instance_fields_references E m ob k) (\<lambda>fields.
          Inr (fields @ (if kVisitNativeRoots then dexcache_visit_native_roots E m ob else []))))))
      | Scan_ClassLoader \<Rightarrow>
          and_then (debug_assert E ''!is_string_class'' (Inr (\<not> is_string_class m k))) (\<lambda>_.
          and_then (debug_assert E ''is_instantiable_non_array'' (is_instantiable_non_array E m k)) (\<lambda>_.
          and_then (debug_assert E ''is_classloader_class'' (Inr (is_classloader_class m k))) (\<lambda>_.
          and_then (visit_instance_fields_references E m ob k) (\<lambda>fields.
          Inr (fields @ (if kVisitNativeRoots then classloader_visit_classes E m ob else []))))))
      | Scan_Unexpected \<Rightarrow>
          and_then (debug_assert E ''!is_string_class'' (Inr (\<not> is_string_class m k))) (\<lambda>_.
          Inl (Panic ''Unexpected class flags'')))"

definition scan_object ::
  "'w env \<Rightarrow> mem \<Rightarrow> usize \<Rightarrow> bool \<Rightarrow> objref \<Rightarrow> ArtSlot list res option" where
  "scan_object E m pointer_size kVisitNativeRoots object =
     (case and_then (object_from_objref E m object) (\<lambda>ob.
           and_then (get_class E m ob) (\<lambda>r.
           and_then (heap_reference_deref E m r) (\<lambda>k. Inr (ob, r, k)))) of
        Inl p \<Rightarrow> Some (Inl p)
      | Inr (ob, r, k) \<Rightarrow>
          let kind = scan_kind_of (class_flags (read_Class m k));
              body = and_then (scan_body E m pointer_size kVisitNativeRoots kind ob r k)
                       (\<lambda>slots. Inr (klass_slot ob # slots))
          in if kind = Scan_No_References
             then map_option (\<lambda>c. and_then c (\<lambda>_. body)) (check_no_reference_fields E m k)
             else Some body)"

section \<open>Bitmaps of reference fields\<close>

lemma visit_one_word_bits:
  assumes "unat refs < 2 ^ n" "unat off + 4 * n < 2 ^ 32"
  shows "visit_one_word E m ob off refs =
    Inr (concat (map (\<lambda>i. if bit refs i then visit_slot E m (get_field_slot ob (off + 4 * of_nat i))
                          else []) [0..<n]))"
  using assms
proof (induction n arbitrary: off refs)
  case 0
  then have "refs = 0" by (simp add: unat_eq_zero)
  then show ?case by (simp add: visit_one_word.simps)
next
  case (Suc n)
  show ?case
  proof (cases "refs = 0")
    case True
    then show ?thesis by (simp add: visit_one_word.simps del: upt_Suc)
  next
    case False
    have off': "unat (off + 4) = unat off + 4"
      using Suc.prems(2) by (intro unat_add_exact [of off 4, simplified]) simp
    have add: "add_chk E off (ucast ART_HEAP_REFERENCE_SIZE) = Inr (off + 4)"
      using Suc.prems(2) by (simp add: add_chk_def)
    have shift: "off + 4 * of_nat (Suc i) = off + 4 + 4 * of_nat i" for i
      by (simp add: algebra_simps)
    have rest: "visit_one_word E m ob (off + 4) (drop_bit 1 refs) =
      Inr (concat (map (\<lambda>i. if bit refs (Suc i)
         then visit_slot E m (get_field_slot ob (off + 4 * of_nat (Suc i))) else []) [0..<n]))"
      using Suc.IH [of "drop_bit 1 refs" "off + 4"] Suc.prems drop_bit_one_bound [of refs n]
      by (simp add: off' bit_simps shift del: of_nat_Suc cong: if_cong)
    show ?thesis
      unfolding map_upt_Suc visit_one_word.simps [of E m ob off refs] and_one_nonzero add
      by (simp only: Let_def and_then_Inr rest False if_False) simp
  qed
qed

text \<open>
  The specification of a scan: the slots among a list that hold a reference; the words of a class's
  reference bitmap; the slots of an object that the bitmap marks.
\<close>

definition non_null :: "'w env \<Rightarrow> mem \<Rightarrow> ArtSlot list \<Rightarrow> ArtSlot list" where
  "non_null E m ss = filter (\<lambda>s. slot_load E m s \<noteq> None) ss"

definition reference_bitmap :: "mem \<Rightarrow> addr \<Rightarrow> u32 list" where
  "reference_bitmap m k =
     (let refs = reference_instance_offsets (read_Class m k);
          n = unat refs mod 2 ^ 31
      in if bit refs 31
         then map (\<lambda>i. load32 m (k + ucast (class_size (read_Class m k)) - of_nat (4 * n) + of_nat (4 * i)))
                [0..<n]
         else [refs])"

definition instance_slots :: "mem \<Rightarrow> addr \<Rightarrow> addr \<Rightarrow> ArtSlot list" where
  "instance_slots m ob k =
     (let bm = reference_bitmap m k in
      map (\<lambda>j. ArtSlot (ob + of_nat (8 + 4 * j)))
        (filter (\<lambda>j. bit (bm ! (j div 32)) (j mod 32)) [0..<32 * length bm]))"

lemma visit_slot_non_null: "visit_slot E m s = non_null E m [s]"
  by (simp add: visit_slot_def non_null_def)

lemma non_null_Nil [simp]: "non_null E m [] = []"
  by (simp add: non_null_def)

lemma non_null_append [simp]: "non_null E m (xs @ ys) = non_null E m xs @ non_null E m ys"
  by (simp add: non_null_def)

lemma concat_visit_slot:
  "concat (map (\<lambda>i. if P i then visit_slot E m (f i) else []) xs) =
     non_null E m (map f (filter P xs))"
  by (induction xs) (auto simp: visit_slot_def non_null_def)

lemma field_slot_address:
  assumes "unat off + 4 * i < 2 ^ 31"
  shows "get_field_slot ob (off + 4 * of_nat i) = ArtSlot (ob + of_nat (unat off + 4 * i))"
proof -
  have i: "unat (of_nat (4 * i) :: u32) = 4 * i" using assms by (intro unat_of_nat_small) simp
  have u: "unat (off + 4 * of_nat i) = unat off + 4 * i"
    using assms i by (subst unat_add_exact) auto
  then have "scast (off + 4 * of_nat i) = (ucast (off + 4 * of_nat i) :: u64)"
    using assms by (intro scast_low) simp
  also have "\<dots> = of_nat (unat off + 4 * i)" unfolding u [symmetric] by (rule of_nat_unat [symmetric])
  finally show ?thesis by (simp only: get_field_slot_def get_field_address_def)
qed

lemma visit_one_word_slots:
  assumes "unat off + 128 < 2 ^ 31"
  shows "visit_one_word E m ob off refs =
    Inr (non_null E m (map (\<lambda>i. ArtSlot (ob + of_nat (unat off + 4 * i))) (filter (bit refs) [0..<32])))"
proof -
  have "unat refs < 2 ^ 32" using unsigned_less [of refs, where ?'a = nat] by simp
  then have "visit_one_word E m ob off refs = Inr (non_null E m
     (map (\<lambda>i. get_field_slot ob (off + 4 * of_nat i)) (filter (bit refs) [0..<32])))"
    using assms by (subst visit_one_word_bits [of _ 32]) (simp_all add: concat_visit_slot)
  moreover have "map (\<lambda>i. get_field_slot ob (off + 4 * of_nat i)) (filter (bit refs) [0..<32]) =
     map (\<lambda>i. ArtSlot (ob + of_nat (unat off + 4 * i))) (filter (bit refs) [0..<32])"
    using assms by (intro map_cong refl field_slot_address) auto
  ultimately show ?thesis by simp
qed

text \<open>Walking the words of a bitmap one after the other walks its bits.\<close>

lemma upt_add: "[a..<a + n] = map (\<lambda>i. a + i) [0..<n]" for a n :: nat
  by (simp add: map_add_upt add.commute)

lemma bitmap_words:
  "concat (map (\<lambda>i. non_null E m (map (\<lambda>b. f (32 * i + b)) (filter (bit (bm ! i)) [0..<32]))) [0..<n])
     = non_null E m (map f (filter (\<lambda>j. bit (bm ! (j div 32)) (j mod 32)) [0..<32 * n]))"
proof (induction n)
  case (Suc n)
  have split: "[0..<32 * Suc n] = [0..<32 * n] @ map (\<lambda>i. 32 * n + i) [0..<32]"
    using upt_add_eq_append [of 0 "32 * n" 32] upt_add [of "32 * n" 32] by (simp add: ac_simps)
  have "filter (\<lambda>j. bit (bm ! (j div 32)) (j mod 32)) (map (\<lambda>i. 32 * n + i) [0..<32]) =
      map (\<lambda>i. 32 * n + i) (filter (bit (bm ! n)) [0..<32])"
    unfolding filter_map by (intro arg_cong [of _ _ "map _"] filter_cong) auto
  then show ?case
    using Suc.IH unfolding split filter_append map_append non_null_append map_map comp_def
    by (simp add: comp_def)
qed simp

lemma bit_slowpath_mask: "bit kVisitReferencesSlowpathMask n \<longleftrightarrow> n = 31"
  unfolding kVisitReferencesSlowpathMask_def kVisitReferencesSlowpathShift_def
    bit_push_bit_iff bit_1_iff by (auto simp: possible_bit_def)

lemma slowpath_bit: "refs AND kVisitReferencesSlowpathMask \<noteq> 0 \<longleftrightarrow> bit refs 31"
proof -
  have "bit (refs AND kVisitReferencesSlowpathMask) n \<longleftrightarrow> bit refs 31 \<and> n = 31" for n
    by (auto simp: bit_and_iff bit_slowpath_mask)
  then show ?thesis by (metis bit_0_eq bot_apply bot_bool_def bit_eqI)
qed

lemma slowpath_words: "unat (refs AND NOT kVisitReferencesSlowpathMask) = unat refs mod 2 ^ 31"
proof -
  have "refs AND NOT kVisitReferencesSlowpathMask = take_bit 31 refs"
    by (rule bit_word_eqI) (auto simp: bit_and_iff bit_not_iff bit_take_bit_iff bit_slowpath_mask)
  then show ?thesis by (simp add: take_bit_eq_mod unat_mod)
qed

lemma visit_bitmap_word:
  assumes "8 + 128 * (i + 1) < 2 ^ 31"
  shows "and_then (mul_chk E (of_nat i) (ucast ART_HEAP_REFERENCE_SIZE)) (\<lambda>x.
           and_then (mul_chk E x 32) (\<lambda>y.
           and_then (add_chk E OBJECT_HEADER_SIZE y) (\<lambda>field_offset.
           visit_one_word E m ob field_offset refs)))
       = Inr (non_null E m (map (\<lambda>b. ArtSlot (ob + of_nat (8 + 4 * (32 * i + b)))) 
           (filter (bit refs) [0..<32])))"
proof -
  have "mul_chk E (of_nat i) (ucast ART_HEAP_REFERENCE_SIZE) = Inr (of_nat (i * 4) :: u32)"
    using assms mul_chk_of_nat [of i 4, where ?'a = 32] by simp
  moreover have "mul_chk E (of_nat (i * 4)) 32 = Inr (of_nat (i * 4 * 32) :: u32)"
    using assms mul_chk_of_nat [of "i * 4" 32, where ?'a = 32] by simp
  moreover have "add_chk E OBJECT_HEADER_SIZE (of_nat (i * 4 * 32)) = Inr (of_nat (8 + i * 4 * 32))"
    using assms add_chk_of_nat [of 8 "i * 4 * 32", where ?'a = 32] by (simp add: OBJECT_HEADER_SIZE_def)
  moreover have "visit_one_word E m ob (of_nat (8 + i * 4 * 32)) refs = Inr (non_null E m
      (map (\<lambda>b. ArtSlot (ob + of_nat (8 + i * 4 * 32 + 4 * b))) (filter (bit refs) [0..<32])))"
    using assms by (subst visit_one_word_slots) (simp_all add: unat_of_nat_small del: of_nat_add of_nat_mult)
  moreover have "8 + i * 4 * 32 + 4 * b = 8 + 4 * (32 * i + b)" for b by simp
  ultimately show ?thesis by (simp only: and_then_Inr)
qed

text \<open>The overflow bitmap lies inside the class and its fields lie within 31 bits of offset.\<close>

definition bitmap_fits :: "mem \<Rightarrow> addr \<Rightarrow> bool" where
  "bitmap_fits m k \<longleftrightarrow>
     length (reference_bitmap m k) < 2 ^ 24 - 1 \<and>
     unat k + unat (class_size (read_Class m k)) < 2 ^ 64 \<and>
     4 * length (reference_bitmap m k) \<le> unat (class_size (read_Class m k))"

lemma visit_instance_fields_fast:
  assumes get: "get_reference_instance_offsets E m k = Inr (reference_instance_offsets (read_Class m k))"
    and "reference_instance_offsets (read_Class m k) \<noteq> 0"
    and False: "\<not> bit (reference_instance_offsets (read_Class m k)) 31"
  shows "visit_instance_fields_references E m ob k = Inr (non_null E m (instance_slots m ob k))"
proof -
  let ?refs = "reference_instance_offsets (read_Class m k)"
  let ?bm = "reference_bitmap m k"
  have bm: "?bm = [?refs]" using False by (simp add: reference_bitmap_def)
  have "visit_one_word E m ob OBJECT_HEADER_SIZE ?refs =
      Inr (non_null E m (map (\<lambda>i. ArtSlot (ob + of_nat (8 + 4 * i))) (filter (bit ?refs) [0..<32])))"
    by (subst visit_one_word_slots) (simp_all add: OBJECT_HEADER_SIZE_def)
  moreover have "filter (bit ?refs) [0..<32] =
      filter (\<lambda>j. bit ([?refs] ! (j div 32)) (j mod 32)) [0..<32]"
    by (rule filter_cong) auto
  ultimately show ?thesis
    using get False assms(2)
    by (simp add: visit_instance_fields_references_def slowpath_bit instance_slots_def bm)
qed

lemma visit_instance_fields_slow:
  assumes get: "get_reference_instance_offsets E m k = Inr (reference_instance_offsets (read_Class m k))"
    and "reference_instance_offsets (read_Class m k) \<noteq> 0" "bitmap_fits m k"
    and True: "bit (reference_instance_offsets (read_Class m k)) 31"
  shows "visit_instance_fields_references E m ob k = Inr (non_null E m (instance_slots m ob k))"
proof -
  let ?refs = "reference_instance_offsets (read_Class m k)"
  let ?size = "class_size (read_Class m k)"
  let ?bm = "reference_bitmap m k"
  define n where "n = unat ?refs mod 2 ^ 31"
  have len: "length ?bm = n" using True by (simp add: reference_bitmap_def n_def Let_def)
  then have n: "n < 2 ^ 24 - 1" and kn: "unat k + unat ?size < 2 ^ 64" and nk: "4 * n \<le> unat ?size"
    using assms(3) by (simp_all add: bitmap_fits_def)
  define w where "w = ?refs AND NOT kVisitReferencesSlowpathMask"
  have w: "unat w = n" by (simp add: w_def n_def slowpath_words)
  let ?base = "k + ucast ?size - of_nat (4 * n)"
  have bm: "?bm ! i = load32 m (?base + 4 * ucast (of_nat i :: u32))" if "i < n" for i
    using True that n by (simp add: reference_bitmap_def n_def Let_def ucast_of_nat_small)
  have end_eq: "unat (k + ucast ?size) = unat k + unat ?size"
    using kn by (subst unat_add_exact) simp_all
  have u4: "ucast (of_nat (n * 4) :: u32) = (of_nat (n * 4) :: u64)" "unat (of_nat (n * 4) :: u64) = n * 4"
    using n by (intro ucast_of_nat_small unat_of_nat_small; simp)+
  have end_chk: "add_chk E k (ucast ?size) = Inr (k + ucast ?size)"
    using kn by (intro add_chk_ok) simp
  have bytes: "mul_chk E w 4 = Inr (of_nat (n * 4))"
    using n mul_chk_of_nat [of n 4, where ?'a = 32] by (simp add: w [symmetric] of_nat_unat)
  have start: "sub_chk E (k + ucast ?size) (ucast (of_nat (n * 4) :: u32)) = Inr ?base"
    unfolding u4(1) using nk by (subst sub_chk_ok) (simp_all add: word_le_nat_alt end_eq u4(2) mult.commute del: of_nat_mult)
  have lim: "8 + 128 * (i + 1) < 2 ^ 31" if "i < n" for i using n that by simp
  have "concat_res (\<lambda>i.
         and_then (mul_chk E i (ucast ART_HEAP_REFERENCE_SIZE)) (\<lambda>x.
         and_then (mul_chk E x 32) (\<lambda>y.
         and_then (add_chk E OBJECT_HEADER_SIZE y) (\<lambda>field_offset.
         visit_one_word E m ob field_offset (load32 m (?base + 4 * ucast i))))))
       (map word_of_nat [0..<unat w]) = Inr (concat (map (\<lambda>i. non_null E m
         (map (\<lambda>b. ArtSlot (ob + of_nat (8 + 4 * (32 * i + b)))) (filter (bit (?bm ! i)) [0..<32]))) [0..<n]))"
    unfolding w concat_res_map
    by (intro concat_res_Inr) (simp only: visit_bitmap_word lim bm set_upt atLeastLessThan_iff)
  also have "\<dots> = Inr (non_null E m (instance_slots m ob k))"
    unfolding bitmap_words [where f = "\<lambda>j. ArtSlot (ob + of_nat (8 + 4 * j))"]
    by (simp only: instance_slots_def len Let_def)
  finally show ?thesis
    using get True assms(2)
    by (simp add: visit_instance_fields_references_def slowpath_bit end_chk bytes start Let_def del: of_nat_mult flip: w_def)
qed

lemma visit_instance_fields:
  assumes "is_resolved m k = Inr True" "reference_instance_offsets (read_Class m k) \<noteq> 0"
    "bitmap_fits m k"
  shows "visit_instance_fields_references E m ob k = Inr (non_null E m (instance_slots m ob k))"
  using assms
    visit_instance_fields_fast [of E m k ob] visit_instance_fields_slow [of E m k ob]
  by (cases "bit (reference_instance_offsets (read_Class m k)) 31")
    (simp_all add: get_reference_instance_offsets_def)

section \<open>Scans\<close>

subsection \<open>Instances\<close>

lemma instance_slots_one_word:
  assumes "reference_bitmap m k = [w]"
  shows "instance_slots m ob k = map (\<lambda>j. ArtSlot (ob + of_nat (8 + 4 * j))) (filter (bit w) [0..<32])"
proof -
  have "filter (\<lambda>j. bit ([w] ! (j div 32)) (j mod 32)) [0..<32] = filter (bit w) [0..<32]"
    by (rule filter_cong) auto
  then show ?thesis by (simp add: instance_slots_def assms Let_def)
qed

text \<open>The bitmap of a class whose instances have reference fields.\<close>

definition instance_ready :: "mem \<Rightarrow> addr \<Rightarrow> bool" where
  "instance_ready m k \<longleftrightarrow>
     reference_instance_offsets (read_Class m k) \<noteq> 0 \<and> bitmap_fits m k"

lemma scan_instance_slots:
  assumes "has_class E m ob k" "plain_class E m k" "k \<noteq> ucast (load32 m k)" "instance_ready m k"
    "class_flags (read_Class m k) \<in> {kClassFlagNormal, kClassFlagRecord}"
  shows "scan_object E m p roots ob =
    Some (Inr (klass_slot ob # non_null E m (instance_slots m ob k)))"
proof -
  have "scan_kind_of (class_flags (read_Class m k)) = Scan_Instance"
    using assms(5) by (auto simp: scan_kind_of_def)
  moreover have "scan_body E m p roots Scan_Instance ob \<lparr>reference = Some (load32 m ob)\<rparr> k =
      Inr (non_null E m (instance_slots m ob k))"
    using assms by (simp add: scan_body_def plain_class_normal plain_class_instantiable
        visit_instance_fields plain_class_def instance_ready_def)
  ultimately show ?thesis
    by (simp add: scan_object_def has_class_get [OF assms(1)])
qed

text \<open>
  C1. Scanning an instance of a normal or record class visits the klass slot and then exactly the
  non-null reference fields that the class's bitmap marks, in ascending order, whether the bitmap
  is in the class word or in the overflow words at the end of the class; the scan returns and no
  check of the debug build fires.
\<close>

theorem scan_instance_complete:
  assumes "has_class E m ob k" "plain_class E m k" "k \<noteq> ucast (load32 m k)" "instance_ready m k"
    "class_flags (read_Class m k) \<in> {kClassFlagNormal, kClassFlagRecord}"
  shows "scan_object E m p roots ob =
    Some (Inr (klass_slot ob # non_null E m (instance_slots m ob k)))"
  by (rule scan_instance_slots [OF assms])

subsection \<open>Object arrays\<close>

lemma array_visit_references_ok:
  assumes "raw_align_up_law E" "unat (array_length (read_Array m a)) < 2 ^ 29 - 3"
  shows "array_visit_references E m a = Inr (non_null E m
    (map (\<lambda>i. ArtSlot (a + of_nat (12 + 4 * i))) [0..<unat (array_length (read_Array m a))]))"
proof -
  let ?n = "unat (array_length (read_Array m a))"
  have len: "unat (scast (array_length (read_Array m a)) :: usize) = ?n"
    using assms(2) by (subst scast_low) simp_all
  have slot: "get_field_slot a (ucast (of_nat (12 + i * 4) :: usize)) = ArtSlot (a + of_nat (12 + 4 * i))"
    if "i < ?n" for i
  proof -
    have "ucast (of_nat (12 + i * 4) :: usize) = (of_nat (12 + i * 4) :: i32)"
      using that assms(2) by (intro ucast_of_nat_small) simp
    then show ?thesis
      using that assms(2) by (simp add: get_field_slot_def get_field_address_of_nat mult.commute del: of_nat_add of_nat_mult)
  qed
  have "array_visit_references E m a =
      Inr (concat (map (\<lambda>i. visit_slot E m (ArtSlot (a + of_nat (12 + 4 * i)))) [0..<?n]))"
    unfolding array_visit_references_def Let_def len concat_res_map
    using assms by (intro concat_res_Inr) (simp add: offset_of_element_ok slot del: of_nat_add of_nat_mult)
  then show ?thesis using concat_visit_slot [of "\<lambda>_. True"] by simp
qed

text \<open>A class of arrays whose components are references.\<close>

definition object_array_class :: "'w env \<Rightarrow> mem \<Rightarrow> addr \<Rightarrow> bool" where
  "object_array_class E m k \<longleftrightarrow>
     scan_kind_of (class_flags (read_Class m k)) = Scan_Object_Array \<and> \<not> is_string_class m k \<and>
     (case reference (component_type (read_Class m k)) of
        None \<Rightarrow> False
      | Some c \<Rightarrow> is_object_sane E m (ucast c) \<and>
                  primitive_type (read_Class m (ucast c)) = reference_type_word)"

lemma object_array_class_check: "object_array_class E m k \<Longrightarrow> is_object_array_class E m k = Inr True"
  by (auto simp: object_array_class_def is_object_array_class_def heap_reference_deref_def
      heap_reference_to_objref_def is_primitive_reference split: option.splits)

lemma object_array_slots:
  assumes "raw_align_up_law E" "has_class E m ob k" "object_array_class E m k"
    "unat (array_length (read_Array m ob)) < 2 ^ 29 - 3"
  shows "scan_object E m p roots ob = Some (Inr (klass_slot ob #
    non_null E m (map (\<lambda>i. ArtSlot (ob + of_nat (12 + 4 * i)))
      [0..<unat (array_length (read_Array m ob))])))"
proof -
  have kind: "scan_kind_of (class_flags (read_Class m k)) = Scan_Object_Array"
    and str: "\<not> is_string_class m k"
    using assms(3) by (simp_all add: object_array_class_def)
  have "object_as_object_array E m ob = Inr ob"
    by (simp add: object_as_object_array_def has_class_get [OF assms(2)] object_array_class_check [OF assms(3)])
  with kind str show ?thesis
    by (simp add: scan_object_def scan_body_def has_class_get [OF assms(2)]
        object_array_class_check [OF assms(3)] array_visit_references_ok [OF assms(1,4)])
qed

text \<open>
  C9. Scanning an object array visits the klass slot and then exactly its non-null elements, in order,
  for every length whose last element offset fits in 31 bits.
\<close>

theorem scan_object_array_complete:
  assumes "raw_align_up_law E" "has_class E m ob k" "object_array_class E m k"
    "unat (array_length (read_Array m ob)) < 2 ^ 29 - 3"
  shows "scan_object E m p roots ob = Some (Inr (klass_slot ob #
    non_null E m (map (\<lambda>i. ArtSlot (ob + of_nat (12 + 4 * i)))
      [0..<unat (array_length (read_Array m ob))])))"
  by (rule object_array_slots [OF assms])

subsection \<open>Classes\<close>

lemma visit_static_loop_ok:
  assumes "unat off + 4 * n < 2 ^ 31" "0 < unat off"
  shows "visit_static_loop E m k off n =
    Inr (non_null E m (map (\<lambda>i. ArtSlot (k + of_nat (unat off + 4 * i))) [0..<n]))"
  using assms
proof (induction n arbitrary: off)
  case (Suc n)
  have off4: "unat (off + 4) = unat off + 4"
    using Suc.prems(1) by (subst unat_add_exact) simp_all
  have "off \<noteq> class_offset"
    using Suc.prems(2) by (auto simp: class_offset_def layout_eval)
  moreover have "add_chk E off 4 = Inr (off + 4)" using Suc.prems(1) by (intro add_chk_ok) simp
  moreover have "get_field_slot k (ucast off) = ArtSlot (k + of_nat (unat off))"
    using Suc.prems(1) get_field_address_of_nat [of "unat off" k]
    by (simp add: get_field_slot_def ucast_of_nat_small [symmetric] of_nat_unat)
  moreover have "visit_static_loop E m k (off + 4) n =
      Inr (non_null E m (map (\<lambda>i. ArtSlot (k + of_nat (unat off + 4 * Suc i))) [0..<n]))"
    using Suc.prems by (subst Suc.IH) (simp_all add: off4 add.assoc)
  ultimately show ?case
    by (simp add: map_upt_Suc visit_slot_non_null del: upt_Suc flip: non_null_append)
qed simp

lemma visit_static_fields_ok:
  assumes "is_resolved m k = Inr True"
    "get_first_reference_static_fields_offset E m k p = Inr off" "0 < unat off"
    "unat off + 4 * unat (num_reference_static_fields (read_Class m k)) < 2 ^ 31"
  shows "visit_static_fields_references E m p k = Inr (non_null E m
    (map (\<lambda>i. ArtSlot (k + of_nat (unat off + 4 * i)))
      [0..<unat (num_reference_static_fields (read_Class m k))]))"
  using assms
  by (auto simp: visit_static_fields_references_def resolved_not_temp visit_static_loop_ok
      word_gt_0 Let_def)

text \<open>The part of the scan of a class object that does not depend on its static fields.\<close>

lemma scan_class_slots:
  assumes "has_class E m ob k" "plain_class E m k" "instance_ready m k" "k = ucast (load32 m k)"
    "class_flags (read_Class m k) = kClassFlagClass"
    "class_visit_references E m p roots ob ob = Inr rest"
  shows "scan_object E m p roots ob =
    Some (Inr (klass_slot ob # non_null E m (instance_slots m ob k) @ rest))"
proof -
  have kind: "scan_kind_of (class_flags (read_Class m k)) = Scan_Class"
    and str: "\<not> is_string_class m k"
    using assms(5) by (simp_all add: scan_kind_of_def is_string_class_def class_consts)
  have class_class: "is_class_class E m k = Inr True"
    using assms(2,4) is_class_class_iff [of E m k] by (simp add: plain_class_def)
  have "object_as_class E m ob = Inr ob"
    by (simp add: object_as_class_def has_class_get [OF assms(1)] class_class)
  moreover have "visit_instance_fields_references E m ob k = Inr (non_null E m (instance_slots m ob k))"
    using assms(2,3) by (intro visit_instance_fields) (simp_all add: plain_class_def instance_ready_def)
  ultimately show ?thesis
    using kind str
    by (simp add: scan_object_def scan_body_def has_class_get [OF assms(1)] class_class
        plain_class_instantiable [OF assms(2)] assms(6))
qed

text \<open>
  Scanning an object whose class flags name no known kind of class panics in every build instead
  of returning without visiting its fields.
\<close>

lemma scan_unexpected_panics:
  assumes "has_class E m ob k" "scan_kind_of (class_flags (read_Class m k)) = Scan_Unexpected"
  shows "\<exists>p. scan_object E m ptr roots ob = Some (Inl p)"
  using assms(2)
  by (simp add: scan_object_def scan_body_def has_class_get [OF assms(1)] debug_assert_def)

section \<open>Scans of the sample heap\<close>

lemma sample_non_null: "non_null concrete_env sample_mem = filter (\<lambda>s. load32 sample_mem (slot_address s) \<noteq> 0)"
  by (rule ext) (auto simp: non_null_def slot_load_def decompress_def env_with_def intro: filter_cong)

lemma sample_bitmaps:
  "reference_bitmap sample_mem 0x6000 = [0x5]" "reference_bitmap sample_mem 0x1000 = [0x80]"
  by (simp_all add: reference_bitmap_def sample_heap)

lemma sample_has_class:
  "has_class concrete_env sample_mem 0x3000 0x6000"
  "has_class concrete_env sample_mem 0x4000 0x5000"
  "has_class concrete_env sample_mem 0x2000 0x1000"
  by (simp_all add: has_class_def sample_load sample_words_def)

lemma sample_plain_class:
  "k = 0x6000 \<or> k = 0x1000 \<Longrightarrow> plain_class concrete_env sample_mem k"
  by (auto simp: plain_class_def sample_resolved is_array_class_def is_interface_def is_abstract_def
      reference_type_word_def sample_heap)

lemma sample_ready: "instance_ready sample_mem 0x6000" "instance_ready sample_mem 0x1000"
  by (simp_all add: instance_ready_def bitmap_fits_def sample_bitmaps sample_heap)

lemmas sample_classes =
  sample_has_class sample_plain_class [OF disjI1, OF refl] sample_plain_class [OF disjI2, OF refl] sample_ready

lemma upt_32: "[0..<32] = [0, 1, 2, 3, 4, 5, 6, 7, 8, 9, 10, 11, 12, 13, 14, 15, 16, 17, 18, 19, 20,
    21, 22, 23, 24, 25, 26, 27, 28, 29, 30, 31]"
  by (simp add: upt_rec_numeral upt_conv_Cons)

lemma sample_bits: "filter (bit (0x5 :: u32)) [0..<32] = [0, 2]" "filter (bit (0x80 :: u32)) [0..<32] = [7]"
  by (simp_all add: upt_32)

lemma sample_slots:
  "instance_slots sample_mem 0x3000 0x6000 = [ArtSlot 0x3008, ArtSlot 0x3010]"
  "instance_slots sample_mem 0x2000 0x1000 = [ArtSlot 0x2024]"
  by (simp_all add: instance_slots_one_word [OF sample_bitmaps(1)]
      instance_slots_one_word [OF sample_bitmaps(2)] sample_bits)

lemma sample_object_array_class: "object_array_class concrete_env sample_mem 0x5000"
  by (simp add: object_array_class_def scan_kind_of_def is_string_class_def class_consts
      reference_type_word_def sample_heap)

theorem scan_instance_complete_witness:
  "scan_object concrete_env sample_mem 8 True 0x3000 =
     Some (Inr [ArtSlot 0x3000, ArtSlot 0x3008, ArtSlot 0x3010])"
proof -
  have "scan_object concrete_env sample_mem 8 True 0x3000 = Some (Inr (klass_slot 0x3000 #
      non_null concrete_env sample_mem (instance_slots sample_mem 0x3000 0x6000)))"
    by (rule scan_instance_complete [OF sample_classes(1,4) _ sample_classes(6)])
      (simp_all add: sample_heap class_consts)
  then show ?thesis
    by (simp add: sample_slots sample_non_null klass_slot_eq sample_load sample_words_def)
qed

theorem scan_object_array_complete_witness:
  "scan_object concrete_env sample_mem 8 True 0x4000 =
     Some (Inr [ArtSlot 0x4000, ArtSlot 0x400C])"
proof -
  have len: "array_length (read_Array sample_mem 0x4000) = 2"
    by (simp add: read_Array_def read_u32_def layout_eval sample_load sample_words_def)
  have "scan_object concrete_env sample_mem 8 True 0x4000 = Some (Inr (klass_slot 0x4000 #
      non_null concrete_env sample_mem (map (\<lambda>i. ArtSlot (0x4000 + of_nat (12 + 4 * i)))
        [0..<unat (array_length (read_Array sample_mem 0x4000))])))"
    by (rule scan_object_array_complete [OF concrete_env_laws(2) sample_classes(2)
          sample_object_array_class]) (simp add: len)
  then show ?thesis
    by (simp add: len upt_rec sample_non_null klass_slot_eq sample_load sample_words_def)
qed

lemma sample_native_roots [simp]: "scan_native_roots (upcalls concrete_env) m ob t = []"
  by (simp add: env_with_def idle_upcalls_def)

end
