(* ===== verification/Evacuation.thy ===== *)
theory Evacuation
  imports Object_Model Object_Scanning
begin

text \<open>
  Copying and scanning together (\<^verbatim>\<open>object_model.rs\<close> with \<^verbatim>\<open>object_scanning.rs\<close> and \<^verbatim>\<open>abi.rs\<close>): a collector
  that moves an object scans the copy, and finds in it what it would have found in the original.
\<close>

section \<open>Memory that agrees\<close>

text \<open>The \<open>n\<close> bytes at \<open>a\<close> in one memory are those at \<open>b\<close> in another.\<close>

definition agree :: "mem \<Rightarrow> addr \<Rightarrow> mem \<Rightarrow> addr \<Rightarrow> nat \<Rightarrow> bool" where
  "agree m a m' b n \<longleftrightarrow> (\<forall>i < n. m' (b + of_nat i) = m (a + of_nat i))"

lemma agree_byte: "agree m a m' b n \<Longrightarrow> i < n \<Longrightarrow> m' (b + of_nat i) = m (a + of_nat i)"
  by (simp add: agree_def)

lemma agree_mono: "agree m a m' b n \<Longrightarrow> k \<le> n \<Longrightarrow> agree m a m' b k"
  by (simp add: agree_def)

lemma load32_agree:
  assumes "agree m a m' b n" "i + 4 \<le> n"
  shows "load32 m' (b + of_nat i) = load32 m (a + of_nat i)"
proof -
  have "m' (b + of_nat (i + j)) = m (a + of_nat (i + j))" if "j < 4" for j
    using assms that by (intro agree_byte) auto
  from this [of 0] this [of 1] this [of 2] this [of 3] show ?thesis
    by (simp add: load32_def ac_simps)
qed

lemma load16_agree:
  assumes "agree m a m' b n" "i + 2 \<le> n"
  shows "load16 m' (b + of_nat i) = load16 m (a + of_nat i)"
proof -
  have "m' (b + of_nat (i + j)) = m (a + of_nat (i + j))" if "j < 2" for j
    using assms that by (intro agree_byte) auto
  from this [of 0] this [of 1] show ?thesis by (simp add: load16_def ac_simps)
qed

lemma load64_agree:
  assumes "agree m a m' b n" "i + 8 \<le> n"
  shows "load64 m' (b + of_nat i) = load64 m (a + of_nat i)"
  using load32_agree [OF assms(1), of i] load32_agree [OF assms(1), of "i + 4"] assms(2)
  by (simp add: load64_def ac_simps)

text \<open>The mirror of a class, and what is computed from it, depend on its bytes only.\<close>

lemma read_Class_agree:
  assumes "agree m k m' k n" "120 \<le> n"
  shows "read_Class m' k = read_Class m k"
proof -
  have "read_ref m' k Class_layout f = read_ref m k Class_layout f"
      "read_u32 m' k Class_layout f = read_u32 m k Class_layout f"
    if "offset_of Class_layout f + 4 \<le> 120" for f
    using load32_agree [OF assms(1), of "offset_of Class_layout f"] that assms(2)
    by (simp_all add: read_ref_def read_u32_def)
  moreover have "read_u64 m' k Class_layout f = read_u64 m k Class_layout f"
    if "offset_of Class_layout f + 8 \<le> 120" for f
    using load64_agree [OF assms(1), of "offset_of Class_layout f"] that assms(2)
    by (simp add: read_u64_def)
  moreover have "read_u16 m' k Class_layout f = read_u16 m k Class_layout f"
    if "offset_of Class_layout f + 2 \<le> 120" for f
    using load16_agree [OF assms(1), of "offset_of Class_layout f"] that assms(2)
    by (simp add: read_u16_def)
  moreover have "read_Object m' k = read_Object m k"
    using load32_agree [OF assms(1), of 0] load32_agree [OF assms(1), of 4] assms(2)
    by (simp add: read_Object_def read_ref_def read_u32_def layout_eval)
  ultimately show ?thesis by (simp add: read_Class_def layout_eval)
qed

lemma get_status_agree: "read_Class m' k = read_Class m k \<Longrightarrow> get_status m' k = get_status m k"
  unfolding get_status_def status_word_address by simp

lemma plain_class_agree:
  assumes "read_Class m' k = read_Class m k" "plain_class E m k" "is_object_sane E m' k"
  shows "plain_class E m' k"
  using assms get_status_agree [OF assms(1)]
  by (simp add: plain_class_def is_array_class_def is_interface_def is_abstract_def is_resolved_def)

lemma reference_bitmap_agree:
  assumes "agree m k m' k n" "120 \<le> n" "unat (class_size (read_Class m k)) \<le> n" "bitmap_fits m k"
  shows "reference_bitmap m' k = reference_bitmap m k"
proof (cases "bit (reference_instance_offsets (read_Class m k)) 31")
  case True
  let ?size = "class_size (read_Class m k)"
  define w where "w = unat (reference_instance_offsets (read_Class m k)) mod 2 ^ 31"
  have len: "length (reference_bitmap m k) = w"
    using True by (simp add: reference_bitmap_def w_def Let_def)
  then have fits: "4 * w \<le> unat ?size" using assms(4) by (simp add: bitmap_fits_def)
  have "load32 m' (k + ucast ?size - of_nat (4 * w) + of_nat (4 * i)) =
      load32 m (k + ucast ?size - of_nat (4 * w) + of_nat (4 * i))" if "i < w" for i
  proof -
    have "k + ucast ?size - of_nat (4 * w) + of_nat (4 * i) = k + of_nat (unat ?size - 4 * w + 4 * i)"
      using fits by (simp add: ucast_u32_nat of_nat_diff algebra_simps)
    moreover have "unat ?size - 4 * w + 4 * i + 4 \<le> n" using that fits assms(3) by simp
    ultimately show ?thesis by (simp only: load32_agree [OF assms(1)])
  qed
  then show ?thesis
    using True unfolding reference_bitmap_def read_Class_agree [OF assms(1,2)] Let_def w_def [symmetric]
    by simp
next
  case False
  then show ?thesis by (simp add: reference_bitmap_def read_Class_agree [OF assms(1,2)])
qed

section \<open>Instances\<close>

text \<open>An instance of a normal or record class whose reference fields lie within it.\<close>

definition fields_inside :: "mem \<Rightarrow> addr \<Rightarrow> bool" where
  "fields_inside m k \<longleftrightarrow>
     list_all (\<lambda>s. unat (slot_address s) + 4 \<le> unat (object_size (read_Class m k))) (instance_slots m 0 k)"

definition plain_instance :: "'w env \<Rightarrow> mem \<Rightarrow> addr \<Rightarrow> addr \<Rightarrow> bool" where
  "plain_instance E m ob k \<longleftrightarrow>
     has_class E m ob k \<and> plain_class E m k \<and> k \<noteq> ucast (load32 m k) \<and> instance_ready m k \<and>
     class_flags (read_Class m k) \<in> {kClassFlagNormal, kClassFlagRecord} \<and> fields_inside m k \<and>
     8 \<le> unat (object_size (read_Class m k)) \<and> unat (object_size (read_Class m k)) \<le> 2 ^ 31 - 8"

definition relocate :: "addr \<Rightarrow> addr \<Rightarrow> ArtSlot \<Rightarrow> ArtSlot" where
  "relocate from to s = ArtSlot (to + (slot_address s - from))"

lemma instance_slots_relocate:
  assumes "reference_bitmap m' k = reference_bitmap m k"
  shows "instance_slots m' to k = map (relocate from to) (instance_slots m from k)"
  by (simp add: instance_slots_def assms relocate_def Let_def)

text \<open>A reference field is a multiple of four bytes into the object, after its header.\<close>

lemma instance_slot_offset:
  assumes "plain_instance E m ob k" "s \<in> set (instance_slots m ob k)"
  shows "\<exists>i. slot_address s = ob + of_nat i \<and> 8 \<le> i \<and> i mod 4 = 0 \<and> i + 4 \<le> unat (object_size (read_Class m k))"
proof -
  let ?bm = "reference_bitmap m k"
  obtain j where j: "s = ArtSlot (ob + of_nat (8 + 4 * j))" "j < 32 * length ?bm"
      "bit (?bm ! (j div 32)) (j mod 32)"
    using assms(2) by (auto simp: instance_slots_def Let_def)
  have "length ?bm < 2 ^ 24 - 1"
    using assms(1) by (simp add: plain_instance_def instance_ready_def bitmap_fits_def)
  then have u: "unat (of_nat (8 + 4 * j) :: addr) = 8 + 4 * j"
    using j(2) by (intro unat_of_nat_small) simp
  have "ArtSlot (0 + of_nat (8 + 4 * j)) \<in> set (instance_slots m 0 k)"
    using j(2,3) by (auto simp: instance_slots_def Let_def)
  then have "unat (of_nat (8 + 4 * j) :: addr) + 4 \<le> unat (object_size (read_Class m k))"
    using assms(1) unfolding plain_instance_def fields_inside_def list_all_iff by fastforce
  then show ?thesis using j(1) u by (intro exI [of _ "8 + 4 * j"]) (simp add: mod_add_eq [symmetric])
qed

lemma scanned_slot_offset:
  assumes "plain_instance E m ob k" "s \<in> set (klass_slot ob # instance_slots m ob k)"
  shows "\<exists>i. slot_address s = ob + of_nat i \<and> (i = 0 \<or> 8 \<le> i) \<and> i mod 4 = 0 \<and>
    i + 4 \<le> unat (object_size (read_Class m k))"
proof (cases "s = klass_slot ob")
  case True
  then show ?thesis using assms(1) by (intro exI [of _ 0]) (simp add: plain_instance_def)
next
  case False
  then show ?thesis using instance_slot_offset [OF assms(1), of s] assms(2) by auto
qed

lemma plain_instance_size:
  assumes "plain_instance E m ob k"
  shows "get_object_size E m ob = Inr (ucast (object_size (read_Class m k)))"
proof -
  have h: "has_class E m ob k" "plain_class E m k" "k \<noteq> ucast (load32 m k)"
      "class_flags (read_Class m k) \<in> {kClassFlagNormal, kClassFlagRecord}"
      "8 \<le> unat (object_size (read_Class m k))"
    using assms by (simp_all add: plain_instance_def)
  have str: "\<not> is_string_class m k" using h(4) by (auto simp: is_string_class_def class_consts)
  have arr: "\<not> is_array_class m k" and cls: "is_class_class E m k = Inr False"
    using h(2,3) is_class_class_iff [of E m k] by (simp_all add: plain_class_def)
  have "is_variable_size E m k = Inr False"
    using str arr cls by (simp add: is_variable_size_def)
  then show ?thesis
    using h(5) str arr cls
    by (simp add: get_object_size_def has_class_get [OF h(1)] class_get_object_size_def
        word_le_nat_alt OBJECT_HEADER_SIZE_def)
qed

lemma plain_instance_scan:
  assumes "plain_instance E m ob k"
  shows "scan_object E m p roots ob =
    Some (Inr (klass_slot ob # filter (\<lambda>s. slot_load E m s \<noteq> None) (instance_slots m ob k)))"
  using assms scan_instance_slots [of E m ob k] by (simp add: plain_instance_def non_null_def)

section \<open>Instances and arrays\<close>

lemma reference_array_bytes: "primitive_word Prim_Not = reference_type_word" "array_bytes Prim_Not n = 12 + 4 * n"
  by (simp_all add: primitive_word_def reference_type_word_def array_bytes_def align_up_nat_def
      component_size_shift_width_def PRIM_OBJECT_REFERENCE_SIZE_def)

lemma object_array_size:
  assumes "raw_align_up_law E" "has_class E m ob k" "object_array_class E m k"
    "unat (array_length (read_Array m ob)) < 2 ^ 29 - 3"
  shows "get_object_size E m ob = Inr (of_nat (12 + 4 * unat (array_length (read_Array m ob))))"
proof -
  obtain c where "reference (component_type (read_Class m k)) = Some c" "is_object_sane E m (ucast c)"
    "primitive_type (read_Class m (ucast c)) = reference_type_word"
    using assms(3) by (auto simp: object_array_class_def split: option.splits)
  then show ?thesis
    using array_object_size [OF assms(1,2), of c Prim_Not] assms(4) by (simp add: reference_array_bytes)
qed

text \<open>The objects with references: instances of ordinary classes and arrays of references.\<close>

definition reference_holder :: "'w env \<Rightarrow> mem \<Rightarrow> addr \<Rightarrow> addr \<Rightarrow> bool" where
  "reference_holder E m ob k \<longleftrightarrow>
     plain_instance E m ob k \<or>
     has_class E m ob k \<and> object_array_class E m k \<and> unat (array_length (read_Array m ob)) < 2 ^ 29 - 3"

definition reference_slots :: "mem \<Rightarrow> addr \<Rightarrow> addr \<Rightarrow> ArtSlot list" where
  "reference_slots m ob k =
     (if is_array_class m k
      then map (\<lambda>i. ArtSlot (ob + of_nat (12 + 4 * i))) [0..<unat (array_length (read_Array m ob))]
      else instance_slots m ob k)"

lemma reference_holder_cases:
  assumes "reference_holder E m ob k"
  obtains (inst) "plain_instance E m ob k" "\<not> is_array_class m k"
  | (arr) "has_class E m ob k" "object_array_class E m k" "unat (array_length (read_Array m ob)) < 2 ^ 29 - 3"
      "is_array_class m k"
proof (cases "plain_instance E m ob k")
  case True
  then show thesis by (intro inst) (simp_all add: plain_instance_def plain_class_def)
next
  case False
  then show thesis
    using assms
    by (intro arr) (auto simp: reference_holder_def object_array_class_def is_array_class_def split: option.splits)
qed

text \<open>
  What the scan of such an object visits, and where: at multiples of four bytes within its size,
  and not in its lock word.
\<close>

lemma reference_holder_scan:
  assumes "raw_align_up_law E" "reference_holder E m ob k"
  shows "scan_object E m p roots ob =
    Some (Inr (klass_slot ob # filter (\<lambda>s. slot_load E m s \<noteq> None) (reference_slots m ob k)))"
  using assms(2)
proof (cases rule: reference_holder_cases)
  case inst
  then show ?thesis by (simp add: plain_instance_scan reference_slots_def)
next
  case arr
  then show ?thesis
    using object_array_slots [OF assms(1) arr(1-3)] by (simp add: reference_slots_def non_null_def)
qed

lemma reference_holder_size:
  assumes "raw_align_up_law E" "reference_holder E m ob k" "get_object_size E m ob = Inr n"
  shows "8 \<le> unat n" "unat n \<le> 2 ^ 31 - 4"
    "is_array_class m k \<Longrightarrow> unat n = 12 + 4 * unat (array_length (read_Array m ob))"
    "\<not> is_array_class m k \<Longrightarrow> unat n = unat (object_size (read_Class m k))"
proof -
  show arr: "unat n = 12 + 4 * unat (array_length (read_Array m ob))" if "is_array_class m k"
    using assms(2)
  proof (cases rule: reference_holder_cases)
    case arr
    then show ?thesis
      using object_array_size [OF assms(1) arr(1-3)] assms(3)
      by (auto simp: unat_of_nat_small simp del: of_nat_add of_nat_mult)
  qed (simp add: that)
  show inst: "unat n = unat (object_size (read_Class m k))" if "\<not> is_array_class m k"
    using assms(2)
  proof (cases rule: reference_holder_cases)
    case inst
    then show ?thesis using plain_instance_size [OF inst(1)] assms(3) by auto
  qed (simp add: that)
  from assms(2) have "8 \<le> unat n \<and> unat n \<le> 2 ^ 31 - 4"
    by (cases rule: reference_holder_cases) (auto simp: arr inst plain_instance_def)
  then show "8 \<le> unat n" "unat n \<le> 2 ^ 31 - 4" by simp_all
qed

lemma reference_slot_offset:
  assumes "raw_align_up_law E" "reference_holder E m ob k" "get_object_size E m ob = Inr n"
    "s \<in> set (klass_slot ob # reference_slots m ob k)"
  shows "\<exists>i. slot_address s = ob + of_nat i \<and> (i = 0 \<or> 8 \<le> i) \<and> i mod 4 = 0 \<and> i + 4 \<le> unat n"
  using assms(2)
proof (cases rule: reference_holder_cases)
  case inst
  then show ?thesis
    using scanned_slot_offset [OF inst(1), of s] assms(4) reference_holder_size(4) [OF assms(1-3)]
    by (simp add: reference_slots_def)
next
  case arr
  note n = reference_holder_size(1,3) [OF assms(1-3)]
  show ?thesis
  proof (cases "s = klass_slot ob")
    case True
    then show ?thesis using n(1) by (intro exI [of _ 0]) simp
  next
    case False
    then obtain i where "s = ArtSlot (ob + of_nat (12 + 4 * i))" "i < unat (array_length (read_Array m ob))"
      using assms(4) arr(4) by (auto simp: reference_slots_def)
    moreover have "(12 + 4 * i) mod 4 = 0" by presburger
    ultimately show ?thesis using n(2) arr(4) by (intro exI [of _ "12 + 4 * i"]) simp
  qed
qed

section \<open>Evacuation\<close>

text \<open>
  What mmtk-core promises of a copy allocator, for a set of live bytes: an object of live bytes gets
  space that holds none of them, and neither the allocation nor \<^verbatim>\<open>post_copy\<close> writes a live byte.
  \<^verbatim>\<open>post_copy\<close> may clear the forwarding bits of the copy, which are in its lock word
  (\<^const>\<open>LOCAL_FORWARDING_BITS_SPEC\<close>), and writes nothing else of it.
\<close>

definition live_range :: "(addr \<Rightarrow> bool) \<Rightarrow> addr \<Rightarrow> nat \<Rightarrow> bool" where
  "live_range live a n \<longleftrightarrow> (\<forall>i < n. live (a + of_nat i))"

definition evacuation_law :: "('s, 'c) copy_context \<Rightarrow> (addr \<Rightarrow> bool) \<Rightarrow> bool" where
  "evacuation_law C live \<longleftrightarrow>
     alloc_copy_law C \<and>
     (\<forall>from bytes align offset sem m c dst m' c'.
        live_range live from (unat bytes) \<longrightarrow> unat bytes \<le> 2 ^ 31 \<longrightarrow>
        alloc_copy C from bytes align offset sem (m, c) = (dst, m', c') \<longrightarrow>
        (\<forall>a. live a \<longrightarrow> m' a = m a \<and> unat bytes \<le> unat (a - dst))) \<and>
     (\<forall>ob bytes sem m c m' c'. post_copy C ob bytes sem (m, c) = (m', c') \<longrightarrow>
        (\<forall>a. live a \<or> unat (a - ob) < unat bytes \<and> unat (a - ob) \<notin> {4..<8} \<longrightarrow> m' a = m a))"

lemma evacuate:
  assumes law: "evacuation_law C live" and live: "live_range live from (unat bytes)"
    and size: "get_current_size E m from = Inr bytes" "unat bytes \<le> 2 ^ 31"
  obtains to m' c' where "copy E C from sem (m, c) = Some (Inr (to, m', c'))"
    "\<And>a. live a \<Longrightarrow> m' a = m a"
    "\<And>i. i < unat bytes \<Longrightarrow> i \<notin> {4..<8} \<Longrightarrow> m' (to + of_nat i) = m (from + of_nat i)"
proof -
  obtain dst m1 c1 where al: "alloc_copy C from bytes MIN_ALIGNMENT 0 sem (m, c) = (dst, m1, c1)"
    by (metis prod_cases3)
  let ?m = "ptr_copy m1 from dst (unat bytes)"
  obtain m' c' where post: "post_copy C dst bytes sem (?m, c1) = (m', c')" by fastforce
  have "alloc_copy_law C" using law by (simp add: evacuation_law_def)
  with size(2) al have dis: "disjoint_ranges from dst (unat bytes)"
      "\<And>a. unat (a - from) < unat bytes \<Longrightarrow> m1 a = m a"
    unfolding alloc_copy_law_def by blast+
  note bytes = copy_bytes [OF size(1) al dis]
  have kept: "m1 a = m a" "unat bytes \<le> unat (a - dst)" if "live a" for a
    using law live size(2) al that unfolding evacuation_law_def by blast+
  have posted: "m' a = ?m a" if "live a \<or> unat (a - dst) < unat bytes \<and> unat (a - dst) \<notin> {4..<8}" for a
    using law post that unfolding evacuation_law_def by blast
  show thesis
  proof (rule that [of dst m' c'])
    show "copy E C from sem (m, c) = Some (Inr (dst, m', c'))" by (simp add: bytes(1) post)
    show "m' a = m a" if "live a" for a using that by (simp add: posted kept ptr_copy_outside)
    show "m' (dst + of_nat i) = m (from + of_nat i)" if "i < unat bytes" "i \<notin> {4..<8}" for i
    proof -
      have "unat (of_nat i :: addr) = i"
        using that(1) unsigned_less [of bytes, where ?'a = nat] by (intro unat_of_nat_small) simp
      then show ?thesis using that posted [of "dst + of_nat i"] bytes(2) [of i] by simp
    qed
  qed
qed

lemma live_agree:
  assumes "\<And>a. live a \<Longrightarrow> m' a = m a" "live_range live k n"
  shows "agree m k m' k n"
  using assms by (simp add: agree_def live_range_def)

lemma load32_pairs:
  assumes "\<And>i. i < n \<Longrightarrow> i \<notin> {4..<8} \<Longrightarrow> m' (to + of_nat i) = m (from + of_nat i)"
    "i + 4 \<le> n" "i + 4 \<le> 4 \<or> 8 \<le> i"
  shows "load32 m' (to + of_nat i) = load32 m (from + of_nat i)"
proof -
  have "m' (to + of_nat (i + j)) = m (from + of_nat (i + j))" if "j < 4" for j
    using assms(2,3) that by (intro assms(1)) auto
  from this [of 0] this [of 1] this [of 2] this [of 3] show ?thesis
    by (simp add: load32_def ac_simps)
qed

lemma moved_instance:
  assumes inst: "plain_instance E m from k" and cls: "agree m k m' k (max 120 (unat (class_size (read_Class m k))))"
    and kl: "load32 m' to = load32 m from"
    and sane: "is_object_sane E m' to" "is_object_sane E m' k"
  shows "plain_instance E m' to k"
    "instance_slots m' to k = map (relocate from to) (instance_slots m from k)"
proof -
  have fits: "bitmap_fits m k" using inst by (simp add: plain_instance_def instance_ready_def)
  have rc: "read_Class m' k = read_Class m k" using cls by (rule read_Class_agree) simp
  have bm: "reference_bitmap m' k = reference_bitmap m k"
    using cls fits by (intro reference_bitmap_agree) auto
  have l0: "load32 m' k = load32 m k" using load32_agree [OF cls, of 0] by simp
  have "has_class E m' to k" using inst sane unfolding plain_instance_def has_class_def kl by blast
  moreover have "plain_class E m' k"
    using inst by (intro plain_class_agree [OF rc] sane) (simp add: plain_instance_def)
  moreover have "instance_ready m' k = instance_ready m k" "fields_inside m' k = fields_inside m k"
    by (simp_all add: instance_ready_def bitmap_fits_def fields_inside_def instance_slots_def bm rc)
  ultimately show "plain_instance E m' to k"
    using inst unfolding plain_instance_def rc l0 by simp
  show "instance_slots m' to k = map (relocate from to) (instance_slots m from k)"
    by (rule instance_slots_relocate [OF bm])
qed

text \<open>What the scan of an object reads besides the object: its class, and the class of its elements.\<close>

definition class_ranges :: "mem \<Rightarrow> addr \<Rightarrow> (addr \<times> nat) list" where
  "class_ranges m k =
     (k, max 120 (unat (class_size (read_Class m k)))) #
     (case reference (component_type (read_Class m k)) of None \<Rightarrow> [] | Some c \<Rightarrow> [(ucast c, 120)])"

lemma moved_array:
  assumes arr: "has_class E m from k" "object_array_class E m k" "is_array_class m k"
    and cls: "\<And>a n. (a, n) \<in> set (class_ranges m k) \<Longrightarrow> agree m a m' a n \<and> is_object_sane E m' a"
    and kl: "load32 m' to = load32 m from" and sane: "is_object_sane E m' to"
  shows "has_class E m' to k" "object_array_class E m' k" "is_array_class m' k"
proof -
  have k: "agree m k m' k (max 120 (unat (class_size (read_Class m k))))" "is_object_sane E m' k"
    using cls [of k "max 120 (unat (class_size (read_Class m k)))"] by (simp_all add: class_ranges_def)
  have rc: "read_Class m' k = read_Class m k" using k(1) by (rule read_Class_agree) simp
  obtain c where c: "reference (component_type (read_Class m k)) = Some c"
    using arr(3) by (auto simp: is_array_class_def)
  then have ca: "agree m (ucast c) m' (ucast c) 120" "is_object_sane E m' (ucast c)"
    using cls [of "ucast c" 120] by (simp_all add: class_ranges_def)
  have "read_Class m' (ucast c) = read_Class m (ucast c)" using ca(1) by (rule read_Class_agree) simp
  then show "object_array_class E m' k"
    using arr(2) c ca(2) by (simp add: object_array_class_def rc is_string_class_def)
  show "has_class E m' to k" using arr(1) sane k(2) unfolding has_class_def kl by blast
  show "is_array_class m' k" using arr(3) by (simp add: is_array_class_def rc)
qed

lemma moved_holder:
  assumes "raw_align_up_law E" "reference_holder E m from k" "get_object_size E m from = Inr n"
    and cls: "\<And>a n. (a, n) \<in> set (class_ranges m k) \<Longrightarrow> agree m a m' a n \<and> is_object_sane E m' a"
    and moved: "\<And>i. i = 0 \<or> 8 \<le> i \<Longrightarrow> i + 4 \<le> unat n \<Longrightarrow> load32 m' (to + of_nat i) = load32 m (from + of_nat i)"
    and sane: "is_object_sane E m' to"
  shows "reference_holder E m' to k \<and>
    reference_slots m' to k = map (relocate from to) (reference_slots m from k)"
proof -
  have kl: "load32 m' to = load32 m from"
    using moved [of 0] reference_holder_size(1) [OF assms(1-3)] by simp
  have k: "agree m k m' k (max 120 (unat (class_size (read_Class m k))))" "is_object_sane E m' k"
    using cls [of k "max 120 (unat (class_size (read_Class m k)))"] by (simp_all add: class_ranges_def)
  from assms(2) show ?thesis
  proof (cases rule: reference_holder_cases)
    case inst
    from moved_instance [OF inst(1) k(1) kl sane k(2)] inst(2) show ?thesis
      by (simp add: reference_holder_def reference_slots_def is_array_class_def read_Class_agree [OF k(1)])
  next
    case arr
    have "load32 m' (to + of_nat 8) = load32 m (from + of_nat 8)"
      using reference_holder_size(3) [OF assms(1-3) arr(4)] by (intro moved) simp_all
    then have len: "array_length (read_Array m' to) = array_length (read_Array m from)"
      by (simp add: read_Array_def read_u32_def layout_eval)
    note arr' = moved_array [OF arr(1,2,4) cls kl sane]
    then show ?thesis
      using arr(3,4) by (simp add: reference_holder_def reference_slots_def len relocate_def del: of_nat_add of_nat_mult)
  qed
qed

lemma evacuate_object:
  assumes "raw_align_up_law E" "evacuation_law C live" "get_object_size E m from = Inr n"
    "unat n \<le> 2 ^ 31 - 4" "live_range live from (align_up_nat (unat n) 8)"
  obtains to m' c' where "copy E C from sem (m, c) = Some (Inr (to, m', c'))"
    "\<And>a. live a \<Longrightarrow> m' a = m a"
    "\<And>i. i = 0 \<or> 8 \<le> i \<Longrightarrow> i + 4 \<le> unat n \<Longrightarrow> load32 m' (to + of_nat i) = load32 m (from + of_nat i)"
proof -
  define bytes where "bytes = raw_align_up E n MIN_ALIGNMENT"
  have size: "get_current_size E m from = Inr bytes"
    by (simp add: get_current_size_def assms(3) bytes_def)
  have u: "unat bytes = align_up_nat (unat n) 8"
    using unat_align_up [OF assms(1), of 3 n] assms(4) by (simp add: bytes_def MIN_ALIGNMENT_def)
  have "align_up_nat (unat n) 8 \<le> align_up_nat (2 ^ 31) 8" using assms(4) by (intro align_up_nat_mono) simp
  then have le: "unat bytes \<le> 2 ^ 31" "unat n \<le> unat bytes"
    using align_up_nat_ge [of 8 "unat n"] align_up_nat_id [of 8 "2 ^ 31"] by (simp_all add: u)
  obtain to m' c' where cp: "copy E C from sem (m, c) = Some (Inr (to, m', c'))"
      and kept: "\<And>a. live a \<Longrightarrow> m' a = m a"
      and moved: "\<And>i. i < unat bytes \<Longrightarrow> i \<notin> {4..<8} \<Longrightarrow> m' (to + of_nat i) = m (from + of_nat i)"
    using evacuate [OF assms(2) _ size le(1)] assms(5) unfolding u by blast
  show thesis
  proof (rule that [OF cp kept])
    fix i :: nat
    assume "i = 0 \<or> 8 \<le> i" "i + 4 \<le> unat n"
    then show "load32 m' (to + of_nat i) = load32 m (from + of_nat i)"
      using le(2) by (intro load32_pairs [of "unat bytes"] moved) auto
  qed
qed

text \<open>
  C7. Moving an instance or an object array changes nothing that the collector finds in it: the copy
  is made, and where ART accepts the copy and its classes as valid, scanning the copy reports the
  slots of the original, moved by the same distance, and each holds the reference it held before,
  whatever the copy allocator and \<^verbatim>\<open>post_copy\<close> do to free memory and to the lock word of the copy.
\<close>

theorem copy_scans_alike:
  assumes "raw_align_up_law E" "evacuation_law C live" "reference_holder E m from k"
    "get_object_size E m from = Inr n" "live_range live from (align_up_nat (unat n) 8)"
    "list_all (\<lambda>(a, n). live_range live a n) (class_ranges m k)"
  shows "\<exists>to m' c' slots. copy E C from sem (m, c) = Some (Inr (to, m', c')) \<and>
    scan_object E m p roots from = Some (Inr slots) \<and>
    (is_object_sane E m' to \<and> list_all (\<lambda>(a, n). is_object_sane E m' a) (class_ranges m k) \<longrightarrow>
       scan_object E m' p roots to = Some (Inr (map (relocate from to) slots)) \<and>
       map (\<lambda>s. slot_load E m' (relocate from to s)) slots = map (slot_load E m) slots)"
proof -
  obtain to m' c' where cp: "copy E C from sem (m, c) = Some (Inr (to, m', c'))"
      and kept: "\<And>a. live a \<Longrightarrow> m' a = m a"
      and moved: "\<And>i. i = 0 \<or> 8 \<le> i \<Longrightarrow> i + 4 \<le> unat n \<Longrightarrow> load32 m' (to + of_nat i) = load32 m (from + of_nat i)"
    using evacuate_object [OF assms(1,2,4) reference_holder_size(2) [OF assms(1,3,4)] assms(5)] by blast
  have same: "slot_load E m' (relocate from to s) = slot_load E m s"
    if s: "s \<in> set (klass_slot from # reference_slots m from k)" for s
  proof -
    from reference_slot_offset [OF assms(1,3,4) s] obtain i
      where i: "slot_address s = from + of_nat i" "i = 0 \<or> 8 \<le> i" "i + 4 \<le> unat n" by (elim exE conjE)
    from moved [OF i(2,3)] show ?thesis by (simp add: slot_load_def relocate_def i(1))
  qed
  let ?slots = "klass_slot from # filter (\<lambda>s. slot_load E m s \<noteq> None) (reference_slots m from k)"
  have "scan_object E m' p roots to = Some (Inr (map (relocate from to) ?slots))"
    if sane: "is_object_sane E m' to" "list_all (\<lambda>(a, n). is_object_sane E m' a) (class_ranges m k)"
  proof -
    have "agree m a m' a l \<and> is_object_sane E m' a" if r: "(a, l) \<in> set (class_ranges m k)" for a l
    proof
      have "live_range live a l" using bspec [OF assms(6) [unfolded list_all_iff] r] by simp
      with kept show "agree m a m' a l" by (rule live_agree)
      show "is_object_sane E m' a" using bspec [OF sane(2) [unfolded list_all_iff] r] by simp
    qed
    from moved_holder [OF assms(1,3,4) this moved sane(1)]
    have holder: "reference_holder E m' to k"
        "reference_slots m' to k = map (relocate from to) (reference_slots m from k)" by simp_all
    have "filter (\<lambda>s. slot_load E m' s \<noteq> None) (map (relocate from to) (reference_slots m from k)) =
        map (relocate from to) (filter (\<lambda>s. slot_load E m s \<noteq> None) (reference_slots m from k))"
      unfolding filter_map comp_def using same by (intro arg_cong [of _ _ "map _"] filter_cong) auto
    moreover have "klass_slot to = relocate from to (klass_slot from)"
      by (simp add: relocate_def klass_slot_eq)
    ultimately show ?thesis by (simp add: reference_holder_scan [OF assms(1) holder(1)] holder(2))
  qed
  moreover have "map (\<lambda>s. slot_load E m' (relocate from to s)) ?slots = map (slot_load E m) ?slots"
    using same by (intro map_cong refl) auto
  ultimately show ?thesis using cp reference_holder_scan [OF assms(1,3)] by blast
qed

section \<open>Moving the instance of the sample heap\<close>

definition low_addresses :: "addr \<Rightarrow> bool" where "low_addresses a \<longleftrightarrow> unat a < 2 ^ 32"

lemma sample_instance: "plain_instance concrete_env sample_mem 0x3000 0x6000"
  using sample_classes(1,4,6)
  by (simp add: plain_instance_def fields_inside_def instance_slots_one_word [OF sample_bitmaps(1)]
      sample_bits sample_heap class_consts)

lemma low_range: "unat a + n \<le> 2 ^ 32 \<Longrightarrow> live_range low_addresses a n"
  by (auto simp: live_range_def low_addresses_def unat_word_ariths unat_of_nat)

lemma sample_apart:
  assumes "low_addresses a" "low_addresses b" "n \<le> 2 ^ 31"
  shows "n \<le> unat (a - (b + 0x100000000))"
proof -
  have b: "unat (b + 0x100000000) = unat b + 2 ^ 32"
    using assms(2) by (subst unat_add_exact) (simp_all add: low_addresses_def)
  then have "a \<noteq> b + 0x100000000" using assms(1) by (auto simp: low_addresses_def)
  moreover have "unat (b + 0x100000000 - a) = unat b + 2 ^ 32 - unat a"
    using assms(1) b by (subst unat_sub_exact) (simp_all add: word_le_nat_alt low_addresses_def)
  ultimately show ?thesis
    using unat_sub_swap [of a "b + 0x100000000"] assms by (simp add: low_addresses_def)
qed

lemma sample_evacuation: "evacuation_law sample_context low_addresses"
proof -
  have "unat bytes \<le> unat (a - (ob + 0x100000000))"
    if "live_range low_addresses ob (unat bytes)" "unat bytes \<le> 2 ^ 31" "low_addresses a"
    for ob a :: addr and bytes :: usize
  proof (cases "unat bytes")
    case (Suc n)
    then have "low_addresses ob" using that(1) [unfolded live_range_def, rule_format, of 0] by simp
    then show ?thesis using that by (intro sample_apart)
  qed simp
  then show ?thesis
    using sample_context_law by (auto simp: evacuation_law_def sample_context_def)
qed

theorem copy_scans_alike_witness:
  "\<exists>to m' c'. copy concrete_env sample_context 0x3000 () (sample_mem, ()) = Some (Inr (to, m', c')) \<and>
     scan_object concrete_env m' 8 True to = Some (Inr (map (relocate 0x3000 to) [ArtSlot 0x3000, ArtSlot 0x3008, ArtSlot 0x3010]))"
proof -
  have classes: "class_ranges sample_mem 0x6000 = [(0x6000, 120)]"
    by (simp add: class_ranges_def sample_heap)
  have size: "get_object_size concrete_env sample_mem 0x3000 = Inr 20"
    using plain_instance_size [OF sample_instance] by (simp add: sample_heap)
  have holder: "reference_holder concrete_env sample_mem 0x3000 0x6000"
    using sample_instance by (simp add: reference_holder_def)
  have sane: "is_object_sane concrete_env m' a" for m' a
    by (simp add: is_object_sane_def env_with_def idle_upcalls_def)
  have "scan_object concrete_env sample_mem 8 True 0x3000 =
      Some (Inr [ArtSlot 0x3000, ArtSlot 0x3008, ArtSlot 0x3010])"
    using plain_instance_scan [OF sample_instance]
    by (simp add: sample_slots slot_load_def decompress_def env_with_def klass_slot_eq sample_load sample_words_def)
  moreover have "live_range low_addresses 0x3000 (align_up_nat 20 8)" "live_range low_addresses 0x6000 120"
    by (rule low_range; simp add: align_up_nat_def)+
  ultimately show ?thesis
    using copy_scans_alike [OF concrete_env_laws(2) sample_evacuation holder size, of "()" "()" 8 True]
    by (auto simp: classes sane)
qed

end
