(* ===== verification/Forwarding.thy ===== *)
theory Forwarding
  imports Evacuation
begin

text \<open>
  The scan of an object (\<^verbatim>\<open>object_scanning.rs\<close>) and the accesses to slots (\<^verbatim>\<open>lib.rs\<close>) as a moving
  collector uses them: it loads each slot that the scan reports and stores the new address of the
  object it finds there. This is sound only if no slot is reported twice and no two overlap.
\<close>

section \<open>Slots that do not overlap\<close>

text \<open>The use of the slot interface by MMTk: load, and store where the object has gone.\<close>

fun forward_slots :: "'w env \<Rightarrow> (objref \<Rightarrow> objref) \<Rightarrow> ArtSlot list \<Rightarrow> mem \<Rightarrow> mem" where
  "forward_slots E new [] m = m"
| "forward_slots E new (s # ss) m =
     forward_slots E new ss (case slot_load E m s of None \<Rightarrow> m | Some ob \<Rightarrow> slot_store m s (new ob))"

abbreviation slots_apart :: "ArtSlot \<Rightarrow> ArtSlot \<Rightarrow> bool" where
  "slots_apart s t \<equiv> apart (slot_address s) (slot_address t)"

lemma store32_outside: "4 \<le> unat (a - b) \<Longrightarrow> store32 m b v a = m a"
  by (auto simp: store32_def)

lemma forward_step:
  assumes "from_raw_address_law E" "\<And>x. new x \<noteq> 0" "\<And>x. unat (new x) < 2 ^ 32"
  defines "m' \<equiv> \<lambda>m s. (case slot_load E m s of None \<Rightarrow> m | Some ob \<Rightarrow> slot_store m s (new ob))"
  shows "slot_load E (m' m s) s = map_option new (slot_load E m s)"
    "slots_apart s t \<Longrightarrow> slot_load E (m' m s) t = slot_load E m t"
    "4 \<le> unat (a - slot_address s) \<Longrightarrow> m' m s a = m a"
proof -
  have st: "slot_load E (slot_store m s (new ob)) s = Some (new ob)"
      "slots_apart s t \<Longrightarrow> slot_load E (slot_store m s (new ob)) t = slot_load E m t" for ob
    using slot_store_load [OF assms(1) assms(2,3) [of ob], of m s] by simp_all
  show "slot_load E (m' m s) s = map_option new (slot_load E m s)"
    by (cases "slot_load E m s") (simp_all add: m'_def st(1))
  show "slots_apart s t \<Longrightarrow> slot_load E (m' m s) t = slot_load E m t"
    by (cases "slot_load E m s") (simp_all add: m'_def st(2))
  show "4 \<le> unat (a - slot_address s) \<Longrightarrow> m' m s a = m a"
    by (cases "slot_load E m s") (simp_all add: m'_def slot_store_def store32_outside)
qed

lemma forward_slots_apart:
  assumes "from_raw_address_law E" "\<And>x. new x \<noteq> 0" "\<And>x. unat (new x) < 2 ^ 32"
    "sorted_wrt slots_apart ss"
  shows "(\<forall>s \<in> set ss. slot_load E (forward_slots E new ss m) s = map_option new (slot_load E m s)) \<and>
    (\<forall>t. (\<forall>s \<in> set ss. slots_apart s t) \<longrightarrow> slot_load E (forward_slots E new ss m) t = slot_load E m t) \<and>
    (\<forall>a. (\<forall>s \<in> set ss. 4 \<le> unat (a - slot_address s)) \<longrightarrow> forward_slots E new ss m a = m a)"
  using assms(4)
proof (induction ss arbitrary: m)
  case (Cons s ss)
  note step = forward_step [where new = new, OF assms(1-3)]
  let ?m = "case slot_load E m s of None \<Rightarrow> m | Some ob \<Rightarrow> slot_store m s (new ob)"
  have apart: "slots_apart s t" "slots_apart t s" if "t \<in> set ss" for t
    using Cons.prems that by (auto simp: apart_def)
  have ih: "sorted_wrt slots_apart ss" using Cons.prems by simp
  note IH = Cons.IH [OF ih, of ?m]
  have "slot_load E (forward_slots E new (s # ss) m) t = map_option new (slot_load E m t)"
    if "t \<in> set (s # ss)" for t
  proof (cases "t = s")
    case True
    with IH apart(2) step(1) [of m s] show ?thesis by simp
  next
    case False
    with that have "t \<in> set ss" by simp
    with IH step(2) [OF apart(1), of t m] show ?thesis by simp
  qed
  moreover have "slot_load E (forward_slots E new (s # ss) m) t = slot_load E m t"
    if "\<forall>u \<in> set (s # ss). slots_apart u t" for t
    using that IH step(2) [of s t m] by simp
  moreover have "forward_slots E new (s # ss) m a = m a"
    if "\<forall>u \<in> set (s # ss). 4 \<le> unat (a - slot_address u)" for a
    using that IH step(3) [of a s m] by simp
  ultimately show ?case by blast
qed simp

text \<open>Words at different multiples of four bytes within 2 GB do not overlap.\<close>

lemma offsets_apart:
  assumes "i < j" "i mod 4 = 0" "j mod 4 = 0" "j < 2 ^ 31"
  shows "slots_apart (ArtSlot (ob + of_nat i)) (ArtSlot (ob + of_nat j))"
proof -
  define d where "d = j - i"
  have d: "4 \<le> d" "d < 2 ^ 31" using assms by (auto simp: d_def) presburger
  have u: "unat (of_nat d :: addr) = d" using d(2) by (intro unat_of_nat_small) simp
  have diff: "ob + of_nat j - (ob + of_nat i) = of_nat d"
    using assms(1) by (simp add: d_def of_nat_diff)
  then have diff': "ob + of_nat i - (ob + of_nat j) = 0 - of_nat d" by (metis diff_0 minus_diff_eq)
  have "unat (0 - of_nat d :: addr) = 2 ^ 64 - d" using d u by (subst unat_zero_minus) simp_all
  then show ?thesis unfolding apart_def ArtSlot.sel diff diff' u using d by simp
qed

section \<open>The slots of an object\<close>

lemma reference_offsets:
  assumes "reference_holder E m ob k"
  shows "\<exists>offs. klass_slot ob # reference_slots m ob k = map (\<lambda>i. ArtSlot (ob + of_nat i)) offs \<and>
    sorted_wrt (<) offs \<and> (\<forall>i \<in> set offs. i mod 4 = 0 \<and> i < 2 ^ 31)"
  using assms
proof (cases rule: reference_holder_cases)
  case inst
  let ?bm = "reference_bitmap m k"
  let ?js = "filter (\<lambda>j. bit (?bm ! (j div 32)) (j mod 32)) [0..<32 * length ?bm]"
  have len: "length ?bm < 2 ^ 24 - 1"
    using inst by (simp add: plain_instance_def instance_ready_def bitmap_fits_def)
  have "klass_slot ob # reference_slots m ob k =
      map (\<lambda>i. ArtSlot (ob + of_nat i)) (0 # map (\<lambda>j. 8 + 4 * j) ?js)"
    using inst(2) by (simp add: reference_slots_def instance_slots_def klass_slot_eq Let_def)
  moreover have "sorted_wrt (<) (0 # map (\<lambda>j. 8 + 4 * j) ?js)"
    by (simp add: sorted_wrt_map sorted_wrt_filter sorted_wrt_upt)
  moreover have "(8 + 4 * j) mod 4 = 0" for j :: nat by presburger
  ultimately show ?thesis using len by (intro exI [of _ "0 # map (\<lambda>j. 8 + 4 * j) ?js"]) auto
next
  case arr
  let ?n = "unat (array_length (read_Array m ob))"
  have "klass_slot ob # reference_slots m ob k =
      map (\<lambda>i. ArtSlot (ob + of_nat i)) (0 # map (\<lambda>j. 12 + 4 * j) [0..<?n])"
    using arr(4) by (simp add: reference_slots_def klass_slot_eq)
  moreover have "sorted_wrt (<) (0 # map (\<lambda>j. 12 + 4 * j) [0..<?n])"
    by (simp add: sorted_wrt_map sorted_wrt_upt)
  moreover have "(12 + 4 * j) mod 4 = 0" for j :: nat by presburger
  ultimately show ?thesis using arr(3) by (intro exI [of _ "0 # map (\<lambda>j. 12 + 4 * j) [0..<?n]"]) auto
qed

lemma reference_slots_apart:
  assumes "reference_holder E m ob k"
  shows "sorted_wrt slots_apart (klass_slot ob # reference_slots m ob k)"
proof -
  obtain offs where offs: "klass_slot ob # reference_slots m ob k = map (\<lambda>i. ArtSlot (ob + of_nat i)) offs"
      "sorted_wrt (<) offs" "\<forall>i \<in> set offs. i mod 4 = 0 \<and> i < 2 ^ 31"
    using reference_offsets [OF assms] by (elim exE conjE) (rule that)
  have "sorted_wrt (\<lambda>i j. slots_apart (ArtSlot (ob + of_nat i)) (ArtSlot (ob + of_nat j))) offs"
  proof (rule sorted_wrt_mono_rel [OF _ offs(2)])
    fix i j assume "i \<in> set offs" "j \<in> set offs" "i < j"
    with offs(3) show "slots_apart (ArtSlot (ob + of_nat i)) (ArtSlot (ob + of_nat j))"
      by (intro offsets_apart) blast+
  qed
  then show ?thesis unfolding offs(1) sorted_wrt_map .
qed

text \<open>
  C8. The slots that scanning an instance or an object array reports are pairwise disjoint, so that
  updating each of them is sound: after every one has been loaded and the new address of the object
  found there has been stored, each slot holds the new address of the object it held before, no
  reference was forwarded twice, and no byte outside these slots has changed.
\<close>

theorem scanned_slots_forward:
  assumes "raw_align_up_law E" "from_raw_address_law E" "reference_holder E m ob k"
    "\<And>x. new x \<noteq> 0" "\<And>x. unat (new x) < 2 ^ 32"
  shows "\<exists>slots. scan_object E m p roots ob = Some (Inr slots) \<and>
    sorted_wrt slots_apart slots \<and>
    (\<forall>s \<in> set slots. slot_load E (forward_slots E new slots m) s = map_option new (slot_load E m s)) \<and>
    (\<forall>a. (\<forall>s \<in> set slots. 4 \<le> unat (a - slot_address s)) \<longrightarrow> forward_slots E new slots m a = m a)"
proof -
  let ?slots = "klass_slot ob # filter (\<lambda>s. slot_load E m s \<noteq> None) (reference_slots m ob k)"
  have disjoint: "sorted_wrt slots_apart ?slots"
    using reference_slots_apart [OF assms(3)] by (auto intro: sorted_wrt_filter)
  note fwd = forward_slots_apart [where new = new and m = m, OF assms(2,4,5) disjoint]
  show ?thesis
    using fwd disjoint by (intro exI [of _ ?slots] conjI reference_holder_scan [OF assms(1,3)]) simp_all
qed

theorem scanned_slots_forward_witness:
  "\<exists>slots m'. scan_object concrete_env sample_mem 8 True 0x3000 = Some (Inr slots) \<and>
     (\<forall>s \<in> set slots. slot_load concrete_env m' s = map_option (\<lambda>_. 0x70000000) (slot_load concrete_env sample_mem s))"
proof -
  have "reference_holder concrete_env sample_mem 0x3000 0x6000"
    using sample_instance by (simp add: reference_holder_def)
  from scanned_slots_forward [OF concrete_env_laws(2,1) this, of "\<lambda>_. 0x70000000" 8 True]
  show ?thesis by auto
qed

end
