(* ===== verification/Heap_Growth.thy ===== *)
theory Heap_Growth
  imports Gc_Trigger_Conc
begin

text \<open>
  How the heap grows while the application runs: between two collections the target footprint and
  the growth limit only move up when no two calls overlap, and what remains of this when they do.
  The heap size is also reported to the system trace, in kilobytes
  and as a signed 32-bit number.
\<close>

section \<open>Between collections\<close>

text \<open>The operations of the trigger that do not end a collection and do not set a new maximum.\<close>

inductive mutator_step :: "'w env \<Rightarrow> ArtTrigger \<Rightarrow> ArtTrigger \<Rightarrow> bool" for E where
  mut_pending: "mutator_step E t (on_pending_allocation pages t)"
| mut_gc_start: "mutator_step E t (on_gc_start reserved t)"
| mut_poll: "is_gc_required E its c t = Some (Inr (gc, t')) \<Longrightarrow> mutator_step E t t'"
| mut_jank: "grow_heap_size_for_event t = Some t' \<Longrightarrow> mutator_step E t t'"
| mut_clamp: "mutator_step E t (clamp_growth_limit t)"
| mut_clear: "mutator_step E t (policy_clear_growth_limit t)"

inductive_cases mutator_stepE: "mutator_step E t t'"

lemma mutator_step_call: "mutator_step E t t' \<Longrightarrow> trigger_call E None t t'"
  by (erule mutator_stepE) (auto intro: trigger_call.intros)

lemma poll_loop_grows:
  "is_gc_required_loop B its t = Some (Inr (gc, t')) \<Longrightarrow>
     target_footprint t \<le> target_footprint t' \<and> growth_limit t' = growth_limit t"
  by (induction B its t rule: is_gc_required_loop.induct)
    (auto simp: Let_def split: sum.splits if_splits)

lemma mutator_step_grows:
  assumes "mutator_step E t t'" "trigger_inv t"
  shows "target_footprint t \<le> target_footprint t' \<and> growth_limit t \<le> growth_limit t'"
  using assms
proof (induction rule: mutator_step.induct)
  case (mut_poll its c t gc t')
  then show ?case by (auto simp: is_gc_required_def and_then_eq_Inr dest: poll_loop_grows)
next
  case (mut_jank t t')
  then show ?case by (auto simp: grow_heap_size_for_event_def jank_switch_eq)
qed (auto simp: on_pending_allocation_def on_gc_start_def clamp_growth_limit_def trigger_inv_def
    clamp_growth_limit_inner_def policy_clear_growth_limit_def clear_growth_limit_def set_concurrent_start_pages_def Let_def)

text \<open>
  Calls that do not overlap never shrink the heap between two collections: whatever sequence of
  allocations, polls, jank switches and changes of the growth limit runs, neither the target footprint nor the growth limit
  decreases, and both stay within the limits.
\<close>

lemma target_monotone:
  assumes "trigger_inv t" "(mutator_step E)\<^sup>*\<^sup>* t t'"
  shows "target_footprint t \<le> target_footprint t' \<and> growth_limit t \<le> growth_limit t' \<and> trigger_inv t'"
  using assms(2,1)
proof (induction rule: rtranclp_induct)
  case (step u v)
  have ih: "target_footprint t \<le> target_footprint u" "growth_limit t \<le> growth_limit u" "trigger_inv u"
    using step.IH [OF step.prems] by simp_all
  have "trigger_inv v"
    using inv_trigger_call [OF mutator_step_call [OF step.hyps(2)] ih(3)] .
  with mutator_step_grows [OF step.hyps(2) ih(3)] ih(1,2) show ?case by (meson order_trans)
qed simp

subsection \<open>Calls that overlap\<close>

text \<open>
  A jank switch that retries stores the foreground target without comparing it again, so the target
  footprint can fall to it, but not further: an exchange of a poll raises the target, and the only
  other value that is stored is the foreground target \<open>fg\<close>.
\<close>

fun exchanges_up :: "usize \<Rightarrow> pc \<Rightarrow> bool" where
  "exchanges_up fg (Poll_Exchange old p new) = (old < new)"
| "exchanges_up fg (Jank_Exchange tf v) = (v = fg)"
| "exchanges_up fg c = True"

interpretation floor_threads: threads Idle "tstep B"
    "\<lambda>t. low \<le> target_footprint t \<and> min_foreground_target_footprint t = fg \<and> low \<le> fg"
    "\<lambda>_. exchanges_up fg" for B low fg
proof unfold_locales
  fix t t' :: ArtTrigger and c c'
  assume "tstep B (t, c) (t', c')" "exchanges_up fg c"
    "low \<le> target_footprint t \<and> min_foreground_target_footprint t = fg \<and> low \<le> fg"
  then show "(low \<le> target_footprint t' \<and> min_foreground_target_footprint t' = fg \<and> low \<le> fg) \<and> exchanges_up fg c'"
    by (auto elim!: tstep_cases poll_stepE jank_stepE)
qed simp_all

text \<open>With a foreground target that is already reached, no jank switch gets as far as an exchange.\<close>

fun no_jank_store :: "usize \<Rightarrow> pc \<Rightarrow> bool" where
  "no_jank_store fg (Poll_Exchange old p new) = (old < new)"
| "no_jank_store fg (Jank_Compare tf) = (fg \<le> tf)"
| "no_jank_store fg (Jank_Load_Foreground tf) = False"
| "no_jank_store fg (Jank_Exchange tf v) = False"
| "no_jank_store fg c = True"

interpretation growing_threads: threads Idle "tstep B"
    "\<lambda>t. low \<le> target_footprint t \<and> min_foreground_target_footprint t = fg \<and> fg \<le> low"
    "\<lambda>_. no_jank_store fg" for B low fg
proof unfold_locales
  fix t t' :: ArtTrigger and c c'
  assume "tstep B (t, c) (t', c')" "no_jank_store fg c"
    "low \<le> target_footprint t \<and> min_foreground_target_footprint t = fg \<and> fg \<le> low"
  then show "(low \<le> target_footprint t' \<and> min_foreground_target_footprint t' = fg \<and> fg \<le> low) \<and> no_jank_store fg c'"
    by (auto elim!: tstep_cases poll_stepE jank_stepE)
qed simp_all

text \<open>
  C29. Under every interleaving of polls, pending allocations and jank switches on any number of
  threads, the target footprint never falls below the smaller of its first value and the cached
  foreground target. If it has reached the foreground target at the start then it never decreases at
  all: every later value is at least every earlier one.
\<close>

theorem concurrent_growth:
  assumes "(sys_step B)\<^sup>*\<^sup>* (t, \<lambda>_. Idle) (u, ps)" "(sys_step B)\<^sup>*\<^sup>* (u, ps) (v, qs)"
  shows "min (target_footprint t) (min_foreground_target_footprint t) \<le> target_footprint u \<and>
    (min_foreground_target_footprint t \<le> target_footprint t \<longrightarrow> target_footprint u \<le> target_footprint v)"
proof
  let ?fg = "min_foreground_target_footprint t"
  show "min (target_footprint t) ?fg \<le> target_footprint u"
    using floor_threads.inv_reachable [where low = "min (target_footprint t) ?fg" and fg = ?fg, OF _ assms(1)]
    by simp
  show "?fg \<le> target_footprint t \<longrightarrow> target_footprint u \<le> target_footprint v"
  proof
    assume "?fg \<le> target_footprint t"
    then have u: "target_footprint t \<le> target_footprint u" "min_foreground_target_footprint u = ?fg"
        "\<forall>i. no_jank_store ?fg (ps i)"
      using growing_threads.inv_reachable [where low = "target_footprint t" and fg = ?fg, OF _ assms(1)]
      by simp_all
    have "?fg \<le> target_footprint u" using \<open>?fg \<le> target_footprint t\<close> u(1) by (rule order_trans)
    with u show "target_footprint u \<le> target_footprint v"
      using growing_threads.inv_steps [where low = "target_footprint u" and fg = ?fg, OF assms(2)]
      by simp
  qed
qed

text \<open>A poll raises the target of a trigger without a foreground target.\<close>

theorem concurrent_growth_witness:
  "\<exists>u ps v qs. (sys_step android_build)\<^sup>*\<^sup>* (sample_trigger, quiet) (u, ps) \<and>
     (sys_step android_build)\<^sup>*\<^sup>* (u, ps) (v, qs) \<and> target_footprint v = 2000 \<and>
     target_footprint u \<le> target_footprint v"
proof -
  let ?v = "sample_trigger\<lparr>target_footprint := 2000\<rparr>"
  have "(tstep android_build)\<^sup>*\<^sup>* (sample_trigger, Idle) (?v, Poll_Subtract 0)"
    using poll_run [of android_build 2000 sample_trigger 2000] by (simp add: sample_eval add_chk_def)
  then have run: "(sys_step android_build)\<^sup>*\<^sup>* (sample_trigger, quiet) (?v, quiet(0 := Poll_Subtract 0))"
    by (intro thread_run)
  from concurrent_growth [OF rtranclp.rtrancl_refl run] run show ?thesis
    by (intro exI [of _ sample_trigger] exI [of _ quiet] exI [of _ ?v] exI [of _ "quiet(0 := Poll_Subtract 0)"])
      (simp add: sample_eval)
qed

section \<open>The traced heap size\<close>

text \<open>The argument of \<^verbatim>\<open>atrace_int\<close> when the reserved pages are traced.\<close>

definition atrace_heap_size :: "usize \<Rightarrow> i32" where
  "atrace_heap_size heap_size = ucast (push_bit 2 heap_size)"

text \<open>The value is the size in kilobytes for every heap of less than two terabytes.\<close>

lemma atrace_heap_size_exact:
  assumes "unat pages < 2 ^ 29"
  shows "sint (atrace_heap_size pages) = 4 * int (unat pages)"
proof -
  have "unat (pages * 4) = unat pages * 4" using assms by (subst unat_mult_exact) simp_all
  then have kb: "unat (push_bit 2 pages) = 4 * unat pages" by (simp add: push_bit_eq_mult)
  have "unat (atrace_heap_size pages) = 4 * unat pages"
    using assms by (simp add: atrace_heap_size_def unsigned_ucast_eq take_bit_eq_mod unat_mod kb)
  then have u: "uint (atrace_heap_size pages) = 4 * int (unat pages)" unfolding uint_nat by simp
  have "- (2 ^ 31) \<le> 4 * int n \<and> 4 * int n < 2 ^ 31" if "n < 2 ^ 29" for n :: nat using that by simp
  from this [OF assms] have "- (2 ^ 31) \<le> uint (atrace_heap_size pages)" "uint (atrace_heap_size pages) < 2 ^ 31"
    unfolding u by blast+
  then have "signed_take_bit 31 (uint (atrace_heap_size pages)) = uint (atrace_heap_size pages)"
    by (rule signed_take_bit_int_eq_self)
  with u show ?thesis by (simp add: sint_uint)
qed

end
