(* ===== verification/Scan_Special.thy ===== *)
theory Scan_Special
  imports Abi_Sizes Object_Scanning
begin

text \<open>
  \<^verbatim>\<open>object_scanning.rs\<close>, continued: what scanning visits for class objects, whose static fields lie
  behind a table whose size \<^verbatim>\<open>abi.rs\<close> computes, for reference objects, dex caches and class
  loaders, and for objects without reference fields, where the debug build walks up the class
  hierarchy.
\<close>

section \<open>Class objects\<close>

text \<open>
  A class is resolved when the number in the top four bits of its status word says so: 7 or more, or
  2, which marks an erroneous class that had been resolved.
\<close>

definition class_resolved :: "mem \<Rightarrow> addr \<Rightarrow> bool" where
  "class_resolved m k \<longleftrightarrow>
     (let n = unat (status_word (read_Class m k)) div 2 ^ 28 in 7 \<le> n \<or> n = 2)"

lemma is_resolved_eq: "is_resolved m k = Inr (class_resolved m k)"
proof -
  obtain st where st: "get_status m k = Inr st" "status_num st = unat (status_word (read_Class m k)) div 2 ^ 28"
    using get_status_total by blast
  have "st = ErrorResolved \<longleftrightarrow> status_num st = 2" by (cases st) simp_all
  then show ?thesis
    unfolding is_resolved_def class_resolved_def st(1) Let_def st(2) [symmetric]
    by (simp add: less_eq_ClassStatus_def)
qed

text \<open>Whether the classes of a type have an embedded vtable, from the type and the access flags.\<close>

definition embeds_vtable :: "mem \<Rightarrow> addr \<Rightarrow> ArtPrimitive \<Rightarrow> bool" where
  "embeds_vtable m k ty \<longleftrightarrow>
     ty = Prim_Not \<and> \<not> is_interface m k \<and> \<not> is_abstract m k \<or> is_abstract m k \<and> is_array_class m k"

lemma is_instantiable_eq:
  assumes "primitive_type (read_Class m k) = primitive_word ty"
  shows "is_instantiable E m k = Inr (embeds_vtable m k ty)"
  using primitive_word_read [of ty] assms
  by (auto simp: is_instantiable_def is_primitive_def get_primitive_type_def embeds_vtable_def)

text \<open>The slots of the static reference fields: they start right after the embedded vtable.\<close>

definition static_start :: "mem \<Rightarrow> addr \<Rightarrow> ArtPrimitive \<Rightarrow> usize \<Rightarrow> nat" where
  "static_start m k ty p = vtable_bytes (embeds_vtable m k ty) (get_embedded_vtable_length m k) (unat p)"

definition static_slots :: "mem \<Rightarrow> addr \<Rightarrow> ArtPrimitive \<Rightarrow> usize \<Rightarrow> ArtSlot list" where
  "static_slots m k ty p =
     (if class_resolved m k then
        map (\<lambda>i. ArtSlot (k + of_nat (static_start m k ty p + 4 * i)))
          [0..<unat (num_reference_static_fields (read_Class m k))]
      else [])"

lemma class_statics:
  assumes "raw_align_up_law E" "unat p \<in> {4, 8}" "primitive_type (read_Class m k) = primitive_word ty"
    "class_resolved m k \<longrightarrow>
       static_start m k ty p + 4 * unat (num_reference_static_fields (read_Class m k)) < 2 ^ 31"
  shows "class_visit_references E m p roots k ob = Inr (non_null E m (static_slots m k ty p) @
    (if roots then scan_native_roots (upcalls E) m ob Roots_Class else []))"
proof (cases "class_resolved m k")
  case False
  then show ?thesis by (simp add: class_visit_references_def is_resolved_eq static_slots_def non_null_def)
next
  case True
  let ?s = "static_start m k ty p"
  have off: "get_first_reference_static_fields_offset E m k p = Inr (of_nat ?s)"
    using static_fields_offset [OF assms(1,2) _ is_instantiable_eq [OF assms(3)]] True
    by (simp add: is_resolved_eq static_start_def)
  have u: "unat (of_nat ?s :: usize) = ?s" using assms(4) True by (intro unat_of_nat_small) simp
  have "0 < ?s" using assms(2) by (auto simp: static_start_def vtable_bytes_def)
  with True off u assms(4) show ?thesis
    using visit_static_fields_ok [of m k E p "of_nat ?s"]
    by (simp add: class_visit_references_def is_resolved_eq static_slots_def)
qed

text \<open>
  C10. Scanning a class object visits the klass slot, its non-null instance fields, then its non-null
  static reference fields if the class is resolved and none of them if it is not, and when asked for
  the native roots that ART reports, in this order. The static fields start behind the fixed part of
  the class object and the embedded vtable, whose size follows from the pointer size and the number
  of its entries for classes that can be instantiated and is zero for the others.
\<close>

theorem scan_class_complete:
  assumes "raw_align_up_law E" "has_class E m ob k" "plain_class E m k" "instance_ready m k"
    "k = ucast (load32 m k)" "class_flags (read_Class m k) = kClassFlagClass"
    "unat p \<in> {4, 8}" "primitive_type (read_Class m ob) = primitive_word ty"
    "class_resolved m ob \<longrightarrow>
       static_start m ob ty p + 4 * unat (num_reference_static_fields (read_Class m ob)) < 2 ^ 31"
  shows "scan_object E m p roots ob = Some (Inr (klass_slot ob #
    non_null E m (instance_slots m ob k) @ non_null E m (static_slots m ob ty p) @
    (if roots then scan_native_roots (upcalls E) m ob Roots_Class else [])))"
  by (rule scan_class_slots [OF assms(2-6) class_statics [OF assms(1,7-9)]])

section \<open>References, dex caches and class loaders\<close>

text \<open>What ART adds to the instance fields of the special kinds of objects.\<close>

definition special_roots :: "'w env \<Rightarrow> mem \<Rightarrow> bool \<Rightarrow> objref \<Rightarrow> addr \<Rightarrow> scan_kind \<Rightarrow> ArtSlot list" where
  "special_roots E m roots ob k kind =
     (case kind of
        Scan_Reference \<Rightarrow> process_referent (upcalls E) m k ob
      | Scan_DexCache \<Rightarrow> if roots then scan_native_roots (upcalls E) m ob Roots_DexCache else []
      | Scan_ClassLoader \<Rightarrow> if roots then scan_native_roots (upcalls E) m ob Roots_ClassLoader else []
      | _ \<Rightarrow> [])"

lemma scan_kind_flags:
  "scan_kind_of f = Scan_DexCache \<Longrightarrow> f AND kClassFlagDexCache \<noteq> 0"
  "scan_kind_of f = Scan_ClassLoader \<Longrightarrow> f AND kClassFlagClassLoader \<noteq> 0"
  by (auto simp: scan_kind_of_def split: if_splits)

text \<open>
  C11. Scanning a reference object, a dex cache or a class loader visits the klass slot, its non-null
  instance fields and then what ART reports for its kind: the referent, or the native roots when
  they are asked for. No check of the debug build fires.
\<close>

theorem scan_special_complete:
  assumes "has_class E m ob k" "plain_class E m k" "instance_ready m k" "\<not> is_string_class m k"
    "scan_kind_of (class_flags (read_Class m k)) \<in> {Scan_Reference, Scan_DexCache, Scan_ClassLoader}"
  shows "scan_object E m p roots ob = Some (Inr (klass_slot ob # non_null E m (instance_slots m ob k) @
    special_roots E m roots ob k (scan_kind_of (class_flags (read_Class m k)))))"
proof -
  have fields: "visit_instance_fields_references E m ob k = Inr (non_null E m (instance_slots m ob k))"
    using assms(2,3) by (intro visit_instance_fields) (simp_all add: plain_class_def instance_ready_def)
  have k: "k = ucast (load32 m ob)" using assms(1) by (simp add: has_class_def)
  have "visit_referent E m ob \<lparr>reference = Some (load32 m ob)\<rparr> = Inr (process_referent (upcalls E) m k ob)"
    by (simp add: visit_referent_def heap_reference_to_objref_def k)
  then show ?thesis
    using assms(4,5) scan_kind_flags [of "class_flags (read_Class m k)"]
    by (auto simp: scan_object_def scan_body_def has_class_get [OF assms(1)] fields special_roots_def
        plain_class_instantiable [OF assms(2)] is_dexcache_class_def is_classloader_class_def
        dexcache_visit_native_roots_def classloader_visit_classes_def)
qed

section \<open>Objects without references\<close>

text \<open>The superclasses of a class, up to the root of the hierarchy.\<close>

fun super_chain :: "'w env \<Rightarrow> mem \<Rightarrow> addr \<Rightarrow> addr list \<Rightarrow> bool" where
  "super_chain E m k [] \<longleftrightarrow> reference (super_class (read_Class m k)) = None"
| "super_chain E m k (s # ss) \<longleftrightarrow>
     (\<exists>v. reference (super_class (read_Class m k)) = Some v \<and> s = ucast v) \<and>
     is_object_sane E m s \<and> super_chain E m s ss"

definition reference_fields :: "mem \<Rightarrow> addr list \<Rightarrow> nat" where
  "reference_fields m ks = sum_list (map (\<lambda>k. unat (num_reference_instance_fields (read_Class m k))) ks)"

lemma total_reference_instance_fields_ok:
  assumes "super_chain E m k ss" "unat acc + reference_fields m (k # ss) < 2 ^ 64"
  shows "total_reference_instance_fields E m acc k = Some (Inr (acc + of_nat (reference_fields m (k # ss))))"
  using assms
proof (induction ss arbitrary: k acc)
  case Nil
  then have "add_chk E acc (ucast (num_reference_instance_fields (read_Class m k))) =
      Inr (acc + ucast (num_reference_instance_fields (read_Class m k)))"
    by (intro add_chk_ok) (simp add: reference_fields_def)
  with Nil.prems(1) show ?case
    by (subst total_reference_instance_fields.simps) (simp add: reference_fields_def ucast_u32_nat)
next
  case (Cons s ss)
  let ?n = "num_reference_instance_fields (read_Class m k)"
  have chk: "add_chk E acc (ucast ?n) = Inr (acc + ucast ?n)"
    using Cons.prems(2) by (intro add_chk_ok) (simp add: reference_fields_def)
  have "unat (acc + ucast ?n) = unat acc + unat ?n"
    using Cons.prems(2) by (subst unat_add_exact) (simp_all add: reference_fields_def)
  then have "total_reference_instance_fields E m (acc + ucast ?n) s =
      Some (Inr (acc + ucast ?n + of_nat (reference_fields m (s # ss))))"
    using Cons.prems by (intro Cons.IH) (simp_all add: reference_fields_def)
  with Cons.prems(1) chk show ?case
    by (subst total_reference_instance_fields.simps)
      (auto simp: heap_reference_deref_def heap_reference_to_objref_def reference_fields_def add.assoc ucast_u32_nat)
qed

text \<open>
  The hierarchy above a class without reference fields: no class is its own ancestor, and the only
  reference field is the one of the root class, the klass word.
\<close>

definition superclass :: "mem \<Rightarrow> addr \<Rightarrow> addr \<Rightarrow> bool" where
  "superclass m k s \<longleftrightarrow> (\<exists>v. reference (super_class (read_Class m k)) = Some v \<and> s = ucast v)"

definition plain_hierarchy :: "'w env \<Rightarrow> mem \<Rightarrow> addr \<Rightarrow> bool" where
  "plain_hierarchy E m k \<longleftrightarrow>
     (\<forall>c. (superclass m)\<^sup>*\<^sup>* k c \<longrightarrow> is_object_sane E m c \<and> \<not> (superclass m)\<^sup>+\<^sup>+ c c \<and>
        unat (num_reference_instance_fields (read_Class m c)) =
          (if reference (super_class (read_Class m c)) = None then 1 else 0))"

lemma plain_hierarchy_super: "plain_hierarchy E m k \<Longrightarrow> superclass m k s \<Longrightarrow> plain_hierarchy E m s"
  unfolding plain_hierarchy_def by (meson converse_rtranclp_into_rtranclp)

text \<open>There are finitely many addresses, so a hierarchy without a cycle has a root.\<close>

lemma plain_hierarchy_chain:
  assumes "plain_hierarchy E m k"
  shows "\<exists>ss. super_chain E m k ss \<and> reference_fields m (k # ss) = 1"
proof -
  let ?R = "{(s, c). plain_hierarchy E m c \<and> superclass m c s}"
  have "acyclicP (\<lambda>s c. plain_hierarchy E m c \<and> superclass m c s)"
  proof (rule acyclicI, rule allI, rule notI)
    fix c assume "(c, c) \<in> ?R\<^sup>+"
    moreover have "(c, d) \<in> ?R\<^sup>+ \<Longrightarrow> (superclass m)\<^sup>+\<^sup>+ d c \<and> plain_hierarchy E m d" for c d
      by (induction rule: trancl_induct) (auto intro: tranclp_into_tranclp2)
    ultimately have "(superclass m)\<^sup>+\<^sup>+ c c" "plain_hierarchy E m c" by blast+
    then show False by (auto simp: plain_hierarchy_def)
  qed
  then have "wf ?R" by (intro finite_acyclic_wf) simp_all
  then show ?thesis using assms
  proof (induction k rule: wf_induct_rule)
    case (less k)
    have fields: "unat (num_reference_instance_fields (read_Class m k)) =
        (if reference (super_class (read_Class m k)) = None then 1 else 0)"
      using less.prems by (auto simp: plain_hierarchy_def)
    show ?case
    proof (cases "reference (super_class (read_Class m k))")
      case None
      with fields show ?thesis by (intro exI [of _ "[]"]) (simp add: reference_fields_def)
    next
      case (Some v)
      then have super: "superclass m k (ucast v)" by (simp add: superclass_def)
      note up = plain_hierarchy_super [OF less.prems super]
      obtain ss where "super_chain E m (ucast v) ss" "reference_fields m (ucast v # ss) = 1"
        using less.IH [OF _ up] super less.prems by auto
      moreover have "is_object_sane E m (ucast v)" using up by (auto simp: plain_hierarchy_def)
      ultimately show ?thesis
        using Some fields by (intro exI [of _ "ucast v # ss"]) (simp add: reference_fields_def)
    qed
  qed
qed


section \<open>Concrete scans\<close>

text \<open>The sample heap with the class of ordinary objects turned into one of weak references.\<close>

definition weak_words :: "addr \<Rightarrow> u32" where
  "weak_words a = (if a = 0x6044 then 0x100 else sample_words a)"

definition referent_env :: "unit env" where
  "referent_env = env_with (idle_upcalls\<lparr>process_referent := \<lambda>m k ob. [ArtSlot (ob + 8)]\<rparr>)"

lemma weak_load: "unat a mod 4 = 0 \<Longrightarrow> load32 (mem_of_words weak_words) a = weak_words a"
  by (simp add: load32_mem_of_words)

lemmas weak_heap = weak_load weak_words_def sample_words_def read_Class_def read_ref_def read_u32_def
  class_offsets heap_reference_def

lemma weak_sane: "is_object_sane referent_env m a"
  by (simp add: is_object_sane_def referent_env_def env_with_def idle_upcalls_def)

lemma weak_class:
  "has_class referent_env (mem_of_words weak_words) 0x3000 0x6000"
  "instance_ready (mem_of_words weak_words) 0x6000"
  "reference_bitmap (mem_of_words weak_words) 0x6000 = [0x5]"
  "scan_kind_of (class_flags (read_Class (mem_of_words weak_words) 0x6000)) = Scan_Reference"
  "\<not> is_string_class (mem_of_words weak_words) 0x6000"
  by (simp_all add: has_class_def weak_sane instance_ready_def bitmap_fits_def reference_bitmap_def
      is_string_class_def scan_kind_of_def class_consts weak_heap)

lemma weak_plain: "plain_class referent_env (mem_of_words weak_words) 0x6000"
proof -
  have "get_status (mem_of_words weak_words) 0x6000 = Inr VisiblyInitialized"
    unfolding get_status_def status_word_address by (simp add: status_from_u32_def weak_heap)
  then show ?thesis
    by (simp add: plain_class_def weak_sane is_resolved_def less_eq_ClassStatus_def is_array_class_def
        is_interface_def is_abstract_def reference_type_word_def class_consts weak_heap)
qed

theorem scan_special_complete_witness:
  "scan_object referent_env (mem_of_words weak_words) 8 True 0x3000 =
     Some (Inr [ArtSlot 0x3000, ArtSlot 0x3008, ArtSlot 0x3010, ArtSlot 0x3008])"
proof -
  have slots: "instance_slots (mem_of_words weak_words) 0x3000 0x6000 = [ArtSlot 0x3008, ArtSlot 0x3010]"
    using instance_slots_one_word [OF weak_class(3)] by (simp add: sample_bits)
  have "non_null referent_env (mem_of_words weak_words) [ArtSlot 0x3008, ArtSlot 0x3010] =
      [ArtSlot 0x3008, ArtSlot 0x3010]"
    by (simp add: non_null_def slot_load_def decompress_def referent_env_def env_with_def weak_heap)
  moreover have "process_referent (upcalls referent_env) m k ob = [ArtSlot (ob + 8)]" for m k ob
    by (simp add: referent_env_def env_with_def)
  ultimately show ?thesis
    using scan_special_complete [OF weak_class(1) weak_plain weak_class(2,5), of 8 True]
    by (simp add: weak_class(4) slots special_roots_def klass_slot_eq)
qed

theorem scan_class_complete_witness:
  "scan_object concrete_env sample_mem 8 True 0x2000 =
     Some (Inr [ArtSlot 0x2000, ArtSlot 0x2024, ArtSlot 0x2078])"
proof -
  have n: "num_reference_static_fields (read_Class sample_mem 0x2000) = 2"
    by (simp add: sample_heap)
  have resolved: "class_resolved sample_mem 0x2000" by (simp add: class_resolved_def sample_heap Let_def)
  have start: "static_start sample_mem 0x2000 Prim_Not 8 = 120"
    by (simp add: static_start_def vtable_bytes_def embeds_vtable_def is_abstract_def is_array_class_def
        class_consts sample_heap)
  have "scan_object concrete_env sample_mem 8 True 0x2000 = Some (Inr (klass_slot 0x2000 #
      non_null concrete_env sample_mem (instance_slots sample_mem 0x2000 0x1000) @
      non_null concrete_env sample_mem (static_slots sample_mem 0x2000 Prim_Not 8) @
      (if True then scan_native_roots (upcalls concrete_env) sample_mem 0x2000 Roots_Class else [])))"
    by (rule scan_class_complete [OF concrete_env_laws(2) sample_classes(3,5,7)])
      (simp_all add: n start primitive_word_def component_size_shift_width_def
        PRIM_OBJECT_REFERENCE_SIZE_def sample_heap class_consts)
  then show ?thesis
    by (simp add: static_slots_def resolved start n upt_rec sample_slots sample_non_null klass_slot_eq
        sample_load sample_words_def)
qed

text \<open>
  The sample heap with an instance, at 0xA000, of a class without reference fields, at 0x9000, whose
  superclass at 0xB000 is the root of the hierarchy.
\<close>

definition boxed_words :: "addr \<Rightarrow> u32" where
  "boxed_words a =
     (case map_of [(0xA000, 0x9000), (0x9000, 0x1000), (0x9020, 0xB000), (0x9044, 0x1),
        (0xB000, 0x1000), (0xB058, 1)] a of None \<Rightarrow> sample_words a | Some v \<Rightarrow> v)"

lemma boxed_load: "unat a mod 4 = 0 \<Longrightarrow> load32 (mem_of_words boxed_words) a = boxed_words a"
  by (simp add: load32_mem_of_words)

lemmas boxed_heap = boxed_load boxed_words_def sample_words_def read_Class_def read_ref_def read_u32_def
  class_offsets heap_reference_def

lemma boxed_super: "superclass (mem_of_words boxed_words) 0x9000 s \<longleftrightarrow> s = 0xB000"
    "\<not> superclass (mem_of_words boxed_words) 0xB000 s"
  by (simp_all add: superclass_def boxed_heap)

lemma boxed_hierarchy: "plain_hierarchy concrete_env (mem_of_words boxed_words) 0x9000"
proof -
  let ?m = "mem_of_words boxed_words"
  have above: "c = 0x9000 \<or> c = 0xB000" if "(superclass ?m)\<^sup>*\<^sup>* 0x9000 c" for c
    using that by (induction rule: rtranclp_induct) (auto simp: boxed_super)
  have top: "c = 0xB000" if "(superclass ?m)\<^sup>*\<^sup>* 0xB000 c" for c
    using that by (cases rule: converse_rtranclpE) (simp_all add: boxed_super)
  have "\<not> (superclass ?m)\<^sup>+\<^sup>+ 0xB000 0xB000"
  proof
    assume "(superclass ?m)\<^sup>+\<^sup>+ 0xB000 0xB000"
    from tranclpD [OF this] show False by (simp add: boxed_super)
  qed
  moreover have "\<not> (superclass ?m)\<^sup>+\<^sup>+ 0x9000 0x9000"
  proof
    assume "(superclass ?m)\<^sup>+\<^sup>+ 0x9000 0x9000"
    from tranclpD [OF this] have "(superclass ?m)\<^sup>*\<^sup>* 0xB000 0x9000" by (simp add: boxed_super)
    from top [OF this] show False by simp
  qed
  moreover have "is_object_sane concrete_env ?m c" for c
    by (simp add: is_object_sane_def env_with_def idle_upcalls_def)
  ultimately show ?thesis unfolding plain_hierarchy_def by (auto dest!: above simp: boxed_heap)
qed


end
