(* ===== verification/Conversions.thy ===== *)
theory Conversions
  imports Sample_Heap
begin

text \<open>
  The conversions between the reference types of \<^verbatim>\<open>abi.rs\<close> (its \<^verbatim>\<open>From\<close> implementations). A Rust
  reference to a mirror is the address of the mirror, and \<^verbatim>\<open>transmute\<close> between reference types keeps
  the address; the conversions from an object to a mirror of a particular kind check the kind in
  the debug build.
\<close>

section \<open>Definitions\<close>

text \<open>\<^verbatim>\<open>&ArtHeapReference<T>\<close> is the address of a 32-bit cell; this is what the cell holds.\<close>

definition read_cell :: "mem \<Rightarrow> addr \<Rightarrow> ArtHeapReference" where
  "read_cell m cell = heap_reference (load32 m cell)"

definition cell_from_objref :: "'b build_scheme \<Rightarrow> objref \<Rightarrow> addr res" where
  "cell_from_objref B ob =
     (let ref_usize = ob in
      and_then (debug_assert B ''ref_usize <= u32::MAX'' (Inr (ref_usize \<le> 0xFFFFFFFF))) (\<lambda>_.
      Inr ref_usize))"

definition class_from_cell :: "'b build_scheme \<Rightarrow> mem \<Rightarrow> addr \<Rightarrow> addr res" where
  "class_from_cell B m c =
     and_then (debug_assert B ''c.reference != None'' (Inr (reference (read_cell m c) \<noteq> None))) (\<lambda>_. Inr c)"

definition cell_from_class :: "addr \<Rightarrow> addr" where
  "cell_from_class c = c"

definition objref_from_object :: "addr \<Rightarrow> objref" where
  "objref_from_object ob = ob"

definition object_from_class :: "addr \<Rightarrow> addr" where
  "object_from_class c = c"

definition object_from_array :: "addr \<Rightarrow> addr" where
  "object_from_array a = a"

text \<open>\<^verbatim>\<open>ObjectArray<T>\<close>: an embedded \<^verbatim>\<open>Array\<close> and a marker of size zero.\<close>

definition ObjectArray_layout :: layout where
  "ObjectArray_layout = [(''array'', size_of_layout Array_layout, layout_align Array_layout), (''phantom'', 0, 1)]"

definition object_from_object_array :: "addr \<Rightarrow> addr" where
  "object_from_object_array a = a"

definition object_from_string :: "addr \<Rightarrow> addr" where
  "object_from_string s = s"

definition object_as_reference :: "'w env \<Rightarrow> mem \<Rightarrow> addr \<Rightarrow> addr res" where
  "object_as_reference E m ob =
     and_then (debug_assert E ''is_type_of_reference_class''
       (and_then (class_of E m ob) (\<lambda>k. Inr (is_type_of_reference_class m k)))) (\<lambda>_. Inr ob)"

definition object_from_reference :: "addr \<Rightarrow> addr" where
  "object_from_reference r = r"

definition object_as_dexcache :: "'w env \<Rightarrow> mem \<Rightarrow> addr \<Rightarrow> addr res" where
  "object_as_dexcache E m ob =
     and_then (debug_assert E ''is_dexcache_class''
       (and_then (class_of E m ob) (\<lambda>k. Inr (is_dexcache_class m k)))) (\<lambda>_. Inr ob)"

definition object_from_dexcache :: "addr \<Rightarrow> addr" where
  "object_from_dexcache d = d"

definition object_as_classloader :: "'w env \<Rightarrow> mem \<Rightarrow> addr \<Rightarrow> addr res" where
  "object_as_classloader E m ob =
     and_then (debug_assert E ''is_classloader_class''
       (and_then (class_of E m ob) (\<lambda>k. Inr (is_classloader_class m k)))) (\<lambda>_. Inr ob)"

definition object_from_classloader :: "addr \<Rightarrow> addr" where
  "object_from_classloader cl = cl"

section \<open>Round trips\<close>

text \<open>
  Converting to a kind and back: \<open>down\<close> is a checked conversion, \<open>kind\<close> what its check demands of the
  class, \<open>up\<close> the conversion back to an object.
\<close>

locale checked_conversion =
  fixes down :: "'w env \<Rightarrow> mem \<Rightarrow> addr \<Rightarrow> addr res"
    and kind :: "'w env \<Rightarrow> mem \<Rightarrow> addr \<Rightarrow> bool res"
    and up :: "addr \<Rightarrow> addr"
    and site :: string
  assumes down_def: "down E m ob =
      and_then (debug_assert E site (and_then (class_of E m ob) (kind E m))) (\<lambda>_. Inr ob)"
    and up_id: "up a = a"
begin

lemma roundtrip:
  assumes "has_class E m ob k" "kind E m k = Inr b"
  shows "and_then (down E m ob) (\<lambda>a. Inr (up a)) =
    (if b \<or> \<not> debug_assertions E then Inr ob else Inl (Debug_Assert site))"
  using assms(2) by (simp add: down_def up_id has_class_get [OF assms(1)] debug_assert_def)

end

interpretation array_conversion: checked_conversion object_as_array
    "\<lambda>E m k. Inr (is_array_class m k)" object_from_array "''is_array_class''"
  by unfold_locales (simp_all add: object_as_array_def object_from_array_def)

interpretation class_conversion: checked_conversion object_as_class is_class_class object_from_class
    "''is_class_class''"
  by unfold_locales (simp_all add: object_as_class_def object_from_class_def)

interpretation string_conversion: checked_conversion object_as_string
    "\<lambda>E m k. Inr (is_string_class m k)" object_from_string "''is_string_class''"
  by unfold_locales (simp_all add: object_as_string_def object_from_string_def)

interpretation object_array_conversion: checked_conversion object_as_object_array is_object_array_class
    object_from_object_array "''is_object_array_class''"
  by unfold_locales (simp_all add: object_as_object_array_def object_from_object_array_def)

interpretation reference_conversion: checked_conversion object_as_reference
    "\<lambda>E m k. Inr (is_type_of_reference_class m k)" object_from_reference "''is_type_of_reference_class''"
  by unfold_locales (simp_all add: object_as_reference_def object_from_reference_def)

interpretation dexcache_conversion: checked_conversion object_as_dexcache
    "\<lambda>E m k. Inr (is_dexcache_class m k)" object_from_dexcache "''is_dexcache_class''"
  by unfold_locales (simp_all add: object_as_dexcache_def object_from_dexcache_def)

interpretation classloader_conversion: checked_conversion object_as_classloader
    "\<lambda>E m k. Inr (is_classloader_class m k)" object_from_classloader "''is_classloader_class''"
  by unfold_locales (simp_all add: object_as_classloader_def object_from_classloader_def)

text \<open>An object reference and the object it refers to are converted into each other.\<close>

lemma objref_roundtrip:
  "has_class E m ob k \<Longrightarrow> and_then (object_from_objref E m ob) (\<lambda>a. Inr (objref_from_object a)) = Inr ob"
  by (simp add: has_class_get objref_from_object_def)

definition checked_cast :: "'b build_scheme \<Rightarrow> addr \<Rightarrow> string \<Rightarrow> bool \<Rightarrow> addr res" where
  "checked_cast B ob site ok = (if ok \<or> \<not> debug_assertions B then Inr ob else Inl (Debug_Assert site))"

text \<open>
  A mirror reference obtained from an object converts back to the same object, and obtaining it
  succeeds exactly when the object's class is of the right kind; in the debug build it panics
  otherwise, and the release build does not check.
\<close>

lemma conversions_roundtrip:
  assumes "has_class E m ob k"
  shows "and_then (object_as_array E m ob) (\<lambda>a. Inr (object_from_array a)) =
      checked_cast E ob ''is_array_class'' (is_array_class m k) \<and>
    and_then (object_as_class E m ob) (\<lambda>a. Inr (object_from_class a)) =
      checked_cast E ob ''is_class_class'' (k = ucast (load32 m k)) \<and>
    and_then (object_as_string E m ob) (\<lambda>a. Inr (object_from_string a)) =
      checked_cast E ob ''is_string_class'' (is_string_class m k) \<and>
    and_then (object_as_reference E m ob) (\<lambda>a. Inr (object_from_reference a)) =
      checked_cast E ob ''is_type_of_reference_class'' (is_type_of_reference_class m k) \<and>
    and_then (object_as_dexcache E m ob) (\<lambda>a. Inr (object_from_dexcache a)) =
      checked_cast E ob ''is_dexcache_class'' (is_dexcache_class m k) \<and>
    and_then (object_as_classloader E m ob) (\<lambda>a. Inr (object_from_classloader a)) =
      checked_cast E ob ''is_classloader_class'' (is_classloader_class m k)"
proof -
  have "is_object_sane E m k" using assms(1) unfolding has_class_def by blast
  note is_class = class_conversion.roundtrip [OF assms(1) is_class_class_iff [OF this]]
  show ?thesis
    unfolding checked_cast_def
    by (intro conjI is_class array_conversion.roundtrip [OF assms(1) refl] string_conversion.roundtrip [OF assms(1) refl]
        reference_conversion.roundtrip [OF assms(1) refl] dexcache_conversion.roundtrip [OF assms(1) refl]
        classloader_conversion.roundtrip [OF assms(1) refl])
qed

text \<open>An object array begins with its array: the embedded field is at offset 0 and fills it.\<close>

lemma object_array_layout: "offset_of ObjectArray_layout ''array'' = 0" "size_of_layout ObjectArray_layout = size_of_layout Array_layout"
  by (simp_all add: ObjectArray_layout_def layout_eval)

section \<open>Cells and references\<close>

text \<open>
  C36. Converting an object reference to a reference cell mixes up the address of the cell with its
  contents: the result is a cell at the address of the object, and following it gives the class of
  the object instead of the object. Converting a cell that holds a class to the class gives the
  address of the cell instead of the address of the class.
\<close>

theorem cell_conversions_confused:
  assumes "has_class E m ob k" "unat ob < 2 ^ 32"
    "reference (read_cell m cell) = Some v" "cell \<noteq> ucast v"
  shows "and_then (cell_from_objref E ob) (\<lambda>c. heap_reference_deref E m (read_cell m c)) = Inr k \<and>
    class_from_cell E m cell = Inr cell \<and> class_from_cell E m cell \<noteq> Inr (ucast v)"
proof -
  have "ob \<le> 0xFFFFFFFF" using assms(2) by (simp add: word_le_nat_alt)
  moreover have "load32 m ob \<noteq> 0" using assms(1) unfolding has_class_def by (metis unsigned_0)
  then have "read_cell m ob = \<lparr>reference = Some (load32 m ob)\<rparr>"
    by (simp add: read_cell_def heap_reference_def)
  ultimately have "and_then (cell_from_objref E ob) (\<lambda>c. heap_reference_deref E m (read_cell m c)) = Inr k"
    by (simp add: cell_from_objref_def has_class_get [OF assms(1)])
  then show ?thesis using assms(3,4) by (simp add: class_from_cell_def)
qed

theorem cell_conversions_confused_witness:
  "and_then (cell_from_objref concrete_env 0x3000) (\<lambda>c. heap_reference_deref concrete_env sample_mem (read_cell sample_mem c)) =
     Inr 0x6000 \<and> class_from_cell concrete_env sample_mem 0x4000 = Inr 0x4000"
proof -
  have "has_class concrete_env sample_mem 0x3000 0x6000" by (simp add: has_class_def sample_heap)
  moreover have "reference (read_cell sample_mem 0x4000) = Some 0x5000"
    by (simp add: read_cell_def sample_heap)
  ultimately show ?thesis
    using cell_conversions_confused [of concrete_env sample_mem "0x3000" "0x6000" "0x4000" "0x5000"] by simp
qed

end
