(* ===== verification/Collection.thy ===== *)
theory Collection
  imports Gc_Trigger
begin

text \<open>
  \<^verbatim>\<open>collection.rs\<close>, \<^verbatim>\<open>active_plan.rs\<close> and \<^verbatim>\<open>reference_glue.rs\<close>: stopping and resuming mutators,
  spawning collector threads, out-of-memory reports, the creation of the trigger, the iterator
  over mutators, and the reference hooks that this binding does not implement.
\<close>

section \<open>Mutators\<close>

definition number_of_mutators :: "'w env \<Rightarrow> 'w \<Rightarrow> usize" where
  "number_of_mutators E w = number_of_mutators_upcall (upcalls E) w"

definition is_mutator :: "'w env \<Rightarrow> tls \<Rightarrow> 'w \<Rightarrow> bool" where
  "is_mutator E t w = is_mutator_upcall (upcalls E) t w"

definition mutator_of :: "'w env \<Rightarrow> tls \<Rightarrow> 'w \<Rightarrow> mutator" where
  "mutator_of E t w = get_mmtk_mutator (upcalls E) t w"

text \<open>The iterator over all mutators: a queue filled by the upcall and emptied from the front.\<close>

record ArtMutatorIterator =
  mutators :: "mutator list"

definition mutator_iterator_new :: "'w env \<Rightarrow> 'w \<Rightarrow> ArtMutatorIterator" where
  "mutator_iterator_new E w = \<lparr>mutators = fold (\<lambda>mu q. q @ [mu]) (for_all_mutators (upcalls E) w) []\<rparr>"

definition active_plan_mutators :: "'w env \<Rightarrow> 'w \<Rightarrow> ArtMutatorIterator" where
  "active_plan_mutators E w = mutator_iterator_new E w"

definition mutator_iterator_next :: "ArtMutatorIterator \<Rightarrow> (mutator \<times> ArtMutatorIterator) option" where
  "mutator_iterator_next it =
     (case mutators it of [] \<Rightarrow> None | mu # rest \<Rightarrow> Some (mu, it\<lparr>mutators := rest\<rparr>))"

definition vm_trace_object :: "objref \<Rightarrow> objref res" where
  "vm_trace_object object = Inl Unreachable"

interpretation mutator_iterator: rust_iterator mutator_iterator_next "\<lambda>_. True" mutators
  by unfold_locales (auto simp: mutator_iterator_next_def split: list.splits)

section \<open>Stopping the world\<close>

text \<open>\<open>flush\<close> is \<^verbatim>\<open>Mutator::flush\<close> of mmtk-core.\<close>

definition stop_all_mutators :: "'w env \<Rightarrow> (mutator \<Rightarrow> 'w \<Rightarrow> 'w) \<Rightarrow> tls \<Rightarrow> 'w \<Rightarrow> 'w" where
  "stop_all_mutators E flush t w =
     (let w1 = suspend_mutators (upcalls E) t w
      in fold flush (for_all_mutators (upcalls E) w1) w1)"

definition resume_mutators :: "'w env \<Rightarrow> tls \<Rightarrow> 'w \<Rightarrow> 'w" where
  "resume_mutators E t w = resume_mutators_upcall (upcalls E) t w"

definition block_for_gc :: "'w env \<Rightarrow> tls \<Rightarrow> 'w \<Rightarrow> 'w" where
  "block_for_gc E t w = block_for_gc_upcall (upcalls E) t w"

text \<open>\<^verbatim>\<open>GCThreadContext\<close> has one variant, the boxed worker, given by its address.\<close>

datatype GCThreadContext = Worker_Context addr

definition spawn_gc_thread :: "'w env \<Rightarrow> tls \<Rightarrow> GCThreadContext \<Rightarrow> 'w \<Rightarrow> 'w" where
  "spawn_gc_thread E t ctx w =
     (let (ctx_ptr, kind) = (case ctx of Worker_Context p \<Rightarrow> (p, Worker))
      in spawn_gc_thread_upcall (upcalls E) t kind ctx_ptr w)"

definition out_of_memory :: "'w env \<Rightarrow> tls \<Rightarrow> AllocationError \<Rightarrow> 'w \<Rightarrow> 'w res" where
  "out_of_memory E t err_kind w =
     and_then (assert_true ''Cannot call out_of_memory for non-mutator thread'' (is_mutator E t w)) (\<lambda>_.
     Inr (throw_out_of_memory_error (upcalls E) t err_kind w))"

definition create_gc_trigger :: "'w env \<Rightarrow> ArtTriggerInit \<Rightarrow> ArtTrigger" where
  "create_gc_trigger E trigger =
     trigger_new E (init_min_free trigger) (init_max_free trigger) (init_initial_size trigger)
       (init_capacity trigger) (init_growth_limit trigger) (init_target_utilization trigger)
       (init_foreground_heap_growth_multiplier trigger)"

section \<open>Reference glue\<close>

definition set_referent :: "objref \<Rightarrow> objref \<Rightarrow> unit res" where
  "set_referent reference referent = Inl Unimplemented"

definition get_referent :: "objref \<Rightarrow> objref option res" where
  "get_referent object = Inl Unimplemented"

definition enqueue_references :: "objref list \<Rightarrow> tls \<Rightarrow> unit res" where
  "enqueue_references references t = Inl Unimplemented"

definition clear_referent :: "objref \<Rightarrow> unit res" where
  "clear_referent new_reference = Inl Unimplemented"

section \<open>Properties\<close>

lemma fold_push_back: "fold (\<lambda>x q. q @ [x]) xs ys = ys @ xs"
  by (induction xs arbitrary: ys) simp_all

text \<open>
  Iterating over the mutators ends and visits exactly the mutators that ART reports, in the order
  in which it reports them.
\<close>

lemma mutators_complete:
  "drain mutator_iterator_next (active_plan_mutators E w) = Some (for_all_mutators (upcalls E) w)"
  by (simp add: mutator_iterator.drain_contents active_plan_mutators_def mutator_iterator_new_def fold_push_back)

text \<open>
  What the collector relies on when it flushes a mutator: the mutator's buffers are empty
  afterwards, and flushing one mutator fills no other.
\<close>

definition flush_law :: "(mutator \<Rightarrow> 'w \<Rightarrow> 'w) \<Rightarrow> (mutator \<Rightarrow> 'w \<Rightarrow> bool) \<Rightarrow> bool" where
  "flush_law flush flushed \<longleftrightarrow>
     (\<forall>mu w. flushed mu (flush mu w)) \<and> (\<forall>mu nu w. flushed nu w \<longrightarrow> flushed nu (flush mu w))"

lemma flush_all:
  "flush_law flush flushed \<Longrightarrow> mu \<in> set ms \<or> flushed mu w \<Longrightarrow> flushed mu (fold flush ms w)"
  by (induction ms arbitrary: w) (auto simp: flush_law_def)

text \<open>
  When \<^verbatim>\<open>stop_all_mutators\<close> returns, the write buffers of every mutator that exists once the
  threads are suspended have been flushed.
\<close>

lemma stop_all_mutators_flushes:
  assumes "flush_law flush flushed"
    "mu \<in> set (for_all_mutators (upcalls E) (suspend_mutators (upcalls E) t w))"
  shows "flushed mu (stop_all_mutators E flush t w)"
  using assms by (simp add: stop_all_mutators_def Let_def flush_all)

text \<open>A world with two mutators whose state is the set of flushed mutators.\<close>

definition two_mutators :: "mutator set env" where
  "two_mutators = env_with (idle_upcalls\<lparr>for_all_mutators := (\<lambda>w. [1, 2])\<rparr>)"

end
