(* ===== verification/Buffers.thy ===== *)
theory Buffers
  imports Slots
begin

text \<open>
  The buffers that cross the language boundary: the report functions and closures of
  \<^verbatim>\<open>scanning.rs\<close> through which ART fills Rust vectors with roots, the release functions of
  \<^verbatim>\<open>api.rs\<close>, and the protocol between them. Who owns a buffer is part of the state; using a
  buffer one does not own is undefined behaviour, the value \<open>None\<close>.
\<close>

section \<open>Ownership of buffers\<close>

text \<open>
  What MMTk receives in one work packet; the buffers that ART holds (each with its capacity) and
  the packets handed over so far, oldest first.
\<close>

datatype packet =
    Pinning_Roots "objref list"
  | Roots "ArtSlot list"
  | VM_Space_Nodes "objref list"

text \<open>
  A lent buffer is known with the layout of its elements and its capacity. The elements are words of
  eight bytes (\<^verbatim>\<open>Address\<close>, \<^verbatim>\<open>ArtSlot\<close>, \<^verbatim>\<open>ObjectReference\<close>) or regions, which are pairs of two.
\<close>

datatype elem_layout = Word_Elem | Region_Elem

record vec_state =
  lent :: "addr \<Rightarrow> (elem_layout \<times> usize) option"
  packets :: "packet list"

text \<open>
  \<^verbatim>\<open>Vec::from_raw_parts\<close> for elements of the given layout takes a buffer back. Called with anything but
  a buffer that was handed out, with elements of the same layout, its capacity and a length within it,
  it is undefined behaviour: \<open>None\<close>. A vector of capacity zero has no buffer behind its pointer and
  may be taken back any number of times.
\<close>

definition from_raw_parts :: "elem_layout \<Rightarrow> addr \<Rightarrow> usize \<Rightarrow> usize \<Rightarrow> vec_state \<Rightarrow> vec_state option" where
  "from_raw_parts elem ptr len cap st =
     (if ptr = 0 \<or> cap < len then None
      else if cap = 0 then Some st
      else if lent st ptr = Some (elem, cap) then Some (st\<lparr>lent := (lent st)(ptr := None)\<rparr>)
      else None)"

definition vec_elements :: "mem \<Rightarrow> addr \<Rightarrow> usize \<Rightarrow> addr list" where
  "vec_elements m ptr len = map (\<lambda>i. load64 m (ptr + 8 * of_nat i)) [0..<unat len]"

text \<open>
  \<^verbatim>\<open>ManuallyDrop\<close> of a new vector: \<open>new\<close> is the pointer and capacity that
  \<^verbatim>\<open>Vec::with_capacity(WORK_PACKET_CAPACITY)\<close> returned.
\<close>

definition renew_buffer :: "addr \<times> usize \<Rightarrow> vec_state \<Rightarrow> RustBuffer \<times> vec_state" where
  "renew_buffer new st =
     (\<lparr>buf_ptr = fst new, buf_len = 0, buf_capacity = snd new\<rparr>,
      st\<lparr>lent := (lent st)(fst new \<mapsto> (Word_Elem, snd new))\<rparr>)"

definition push_packet :: "packet \<Rightarrow> vec_state \<Rightarrow> vec_state" where
  "push_packet p st = st\<lparr>packets := packets st @ [p]\<rparr>"

definition report_nodes_and_renew_buffer ::
  "addr \<times> usize \<Rightarrow> mem \<Rightarrow> addr \<Rightarrow> usize \<Rightarrow> usize \<Rightarrow> vec_state \<Rightarrow> (RustBuffer \<times> vec_state) option" where
  "report_nodes_and_renew_buffer new m ptr len cap st =
     (if ptr \<noteq> 0 then
        map_option (\<lambda>st'. renew_buffer new (push_packet (Pinning_Roots (vec_elements m ptr len)) st'))
          (from_raw_parts Word_Elem ptr len cap st)
      else Some (renew_buffer new st))"

definition report_slots_and_renew_buffer ::
  "addr \<times> usize \<Rightarrow> mem \<Rightarrow> addr \<Rightarrow> usize \<Rightarrow> usize \<Rightarrow> vec_state \<Rightarrow> (RustBuffer \<times> vec_state) option" where
  "report_slots_and_renew_buffer new m ptr len cap st =
     (if ptr \<noteq> 0 then
        map_option (\<lambda>st'. renew_buffer new (push_packet (Roots (map ArtSlot (vec_elements m ptr len))) st'))
          (from_raw_parts Word_Elem ptr len cap st)
      else Some (renew_buffer new st))"

definition report_vm_space_nodes_and_renew_buffer ::
  "addr \<times> usize \<Rightarrow> mem \<Rightarrow> addr \<Rightarrow> usize \<Rightarrow> usize \<Rightarrow> vec_state \<Rightarrow> (RustBuffer \<times> vec_state) option" where
  "report_vm_space_nodes_and_renew_buffer new m ptr len cap st =
     (if ptr \<noteq> 0 then
        map_option (\<lambda>st'. renew_buffer new (push_packet (VM_Space_Nodes (vec_elements m ptr len)) st'))
          (from_raw_parts Word_Elem ptr len cap st)
      else Some (renew_buffer new st))"

text \<open>
  The report function of the single-threaded collector: the traversal object (code of mmtk-core,
  here its two methods on an opaque state) keeps the one mark stack that ART fills.
\<close>

definition object_graph_traversal_report_roots ::
  "(usize \<Rightarrow> 't \<Rightarrow> 't) \<Rightarrow> ('t \<Rightarrow> (addr \<times> usize \<times> usize) \<times> 't) \<Rightarrow> addr \<Rightarrow> usize \<Rightarrow> 't \<Rightarrow> RustBuffer \<times> 't" where
  "object_graph_traversal_report_roots report_roots get_mark_stack ptr len t =
     (let t1 = (if ptr \<noteq> 0 then report_roots len t else t);
          ((p, n, c), t2) = get_mark_stack t1
      in (\<lparr>buf_ptr = p, buf_len = n, buf_capacity = c\<rparr>, t2))"

text \<open>The release functions of \<^verbatim>\<open>api.rs\<close>: take the buffer back and drop it.\<close>

definition mmtk_release_rust_buffer ::
  "bool \<Rightarrow> addr \<Rightarrow> usize \<Rightarrow> usize \<Rightarrow> vec_state \<Rightarrow> vec_state option" where
  "mmtk_release_rust_buffer single_worker ptr len cap st =
     (if \<not> single_worker then from_raw_parts Word_Elem ptr len cap st else Some st)"

definition mmtk_release_rust_buffer_unchecked :: "addr \<Rightarrow> usize \<Rightarrow> usize \<Rightarrow> vec_state \<Rightarrow> vec_state option" where
  "mmtk_release_rust_buffer_unchecked ptr len cap st = from_raw_parts Word_Elem ptr len cap st"

definition mmtk_release_rust_allocated_region_buffer :: "addr \<Rightarrow> usize \<Rightarrow> usize \<Rightarrow> vec_state \<Rightarrow> vec_state option" where
  "mmtk_release_rust_allocated_region_buffer ptr len cap st = from_raw_parts Region_Elem ptr len cap st"

definition mmtk_release_rust_object_reference_buffer :: "addr \<Rightarrow> usize \<Rightarrow> usize \<Rightarrow> vec_state \<Rightarrow> vec_state option" where
  "mmtk_release_rust_object_reference_buffer ptr len cap st = from_raw_parts Word_Elem ptr len cap st"

text \<open>
  \<^verbatim>\<open>ManuallyDrop\<close> of a vector of MMTk that goes to ART (\<^verbatim>\<open>mmtk_iterate_allocated_regions\<close> and
  \<^verbatim>\<open>mmtk_enumerate_large_objects\<close>): the buffer behind the pointer, if there is one, is no longer
  dropped by Rust.
\<close>

definition lend_vec :: "elem_layout \<Rightarrow> addr \<Rightarrow> usize \<Rightarrow> vec_state \<Rightarrow> vec_state" where
  "lend_vec elem ptr cap st = (if cap = 0 then st else st\<lparr>lent := (lent st)(ptr \<mapsto> (elem, cap))\<rparr>)"

section \<open>The closures\<close>

definition to_nodes_closure :: "addr \<Rightarrow> NodesClosure" where
  "to_nodes_closure factory = \<lparr>nodes_func = Report_Nodes, nodes_data = factory\<rparr>"

definition to_vm_space_nodes_closure :: "addr \<Rightarrow> NodesClosure" where
  "to_vm_space_nodes_closure closure = \<lparr>nodes_func = Report_VM_Space_Nodes, nodes_data = closure\<rparr>"

definition to_slots_closure :: "addr \<Rightarrow> SlotsClosure" where
  "to_slots_closure factory = \<lparr>slots_func = Report_Slots, slots_data = factory\<rparr>"

definition object_graph_traversal_to_slots_closure :: "addr \<Rightarrow> SlotsClosure" where
  "object_graph_traversal_to_slots_closure closure =
     \<lparr>slots_func = Object_Graph_Report_Roots, slots_data = closure\<rparr>"

section \<open>The reporting protocol\<close>

text \<open>
  A client of the slots closure: it starts with a null buffer, stores slots behind each other as
  long as the buffer has room, reports it, and at the end reports what is left and releases the
  last buffer, in a build with or without the feature \<^verbatim>\<open>single_worker\<close>. The ghost component lists all
  slots the client has stored, in order.
\<close>

datatype client =
    Idle
  | Filling addr usize usize
  | Finished

text \<open>What \<^verbatim>\<open>Vec::with_capacity\<close> promises: a buffer that nobody else has, in the address space.\<close>

definition fresh_vec :: "vec_state \<Rightarrow> addr \<times> usize \<Rightarrow> bool" where
  "fresh_vec st new \<longleftrightarrow>
     fst new \<noteq> 0 \<and> snd new \<noteq> 0 \<and> lent st (fst new) = None \<and> unat (fst new) + 8 * unat (snd new) < 2 ^ 64"

type_synonym report_state = "mem \<times> vec_state \<times> client \<times> addr list"

inductive report_step :: "bool \<Rightarrow> report_state \<Rightarrow> report_state \<Rightarrow> bool" for single_worker where
  start: "fresh_vec st new \<Longrightarrow>
    report_slots_and_renew_buffer new m 0 0 0 st = Some (b, st') \<Longrightarrow>
    report_step single_worker (m, st, Idle, sent) (m, st', Filling (buf_ptr b) (buf_len b) (buf_capacity b), sent)"
| store: "len < cap \<Longrightarrow>
    report_step single_worker (m, st, Filling ptr len cap, sent)
      (store64 m (ptr + 8 * len) a, st, Filling ptr (len + 1) cap, sent @ [a])"
| report: "fresh_vec st new \<Longrightarrow>
    report_slots_and_renew_buffer new m ptr len cap st = Some (b, st') \<Longrightarrow>
    report_step single_worker (m, st, Filling ptr len cap, sent)
      (m, st', Filling (buf_ptr b) (buf_len b) (buf_capacity b), sent)"
| finish: "fresh_vec st new \<Longrightarrow>
    report_slots_and_renew_buffer new m ptr len cap st = Some (b, st') \<Longrightarrow>
    mmtk_release_rust_buffer single_worker (buf_ptr b) (buf_len b) (buf_capacity b) st' = Some st'' \<Longrightarrow>
    report_step single_worker (m, st, Filling ptr len cap, sent) (m, st'', Finished, sent)"

definition report_initial :: "report_state \<Rightarrow> bool" where
  "report_initial s \<longleftrightarrow> (\<exists>m. s = (m, \<lparr>lent = (\<lambda>_. None), packets = []\<rparr>, Idle, []))"

fun packet_slots :: "packet \<Rightarrow> addr list" where
  "packet_slots (Roots ss) = map slot_address ss"
| "packet_slots _ = []"

definition received :: "vec_state \<Rightarrow> addr list" where
  "received st = concat (map packet_slots (packets st))"

fun report_inv :: "bool \<Rightarrow> report_state \<Rightarrow> bool" where
  "report_inv sw (m, st, Idle, sent) \<longleftrightarrow> lent st = (\<lambda>_. None) \<and> received st = sent"
| "report_inv sw (m, st, Filling ptr len cap, sent) \<longleftrightarrow>
     ptr \<noteq> 0 \<and> cap \<noteq> 0 \<and> lent st = [ptr \<mapsto> (Word_Elem, cap)] \<and> len \<le> cap \<and>
     unat ptr + 8 * unat cap < 2 ^ 64 \<and> received st @ vec_elements m ptr len = sent"
| "report_inv sw (m, st, Finished, sent) \<longleftrightarrow>
     received st = sent \<and>
     (if sw then \<exists>ptr cap. lent st = [ptr \<mapsto> (Word_Elem, cap)] else lent st = (\<lambda>_. None))"

lemma vec_elements_0 [simp]: "vec_elements m ptr 0 = []"
  by (simp add: vec_elements_def)

lemma slot_index_apart:
  assumes "i < n" "8 * n < 2 ^ 64 - 8"
  shows "apart64 (ptr + 8 * of_nat n) (ptr + 8 * of_nat i)"
proof -
  define w where "w = (of_nat (8 * (n - i)) :: addr)"
  have u: "unat w = 8 * (n - i)" unfolding w_def using assms by (intro unat_of_nat_small) simp
  have diff: "ptr + 8 * of_nat n - (ptr + 8 * of_nat i) = w"
    using assms(1) by (simp add: w_def of_nat_diff algebra_simps)
  then have diff': "ptr + 8 * of_nat i - (ptr + 8 * of_nat n) = 0 - w"
    by (metis diff_0 minus_diff_eq)
  have "unat (0 - w) = 2 ^ 64 - unat w" using assms(1) u by (subst unat_zero_minus) simp_all
  then show ?thesis unfolding apart64_def diff diff' u using assms by simp arith
qed

lemma vec_elements_store:
  assumes "len < cap" "unat ptr + 8 * unat cap < 2 ^ 64"
  shows "vec_elements (store64 m (ptr + 8 * len) a) ptr (len + 1) = vec_elements m ptr len @ [a]"
proof -
  define n where "n = unat len"
  have n: "n < unat cap" using assms(1) by (simp add: n_def word_less_nat_alt)
  then have "unat (len + 1) = Suc n"
    using assms(2) by (subst unat_add_exact) (simp_all add: n_def)
  moreover have len: "len = of_nat n" by (simp add: n_def of_nat_unat)
  moreover have "map (\<lambda>i. load64 (store64 m (ptr + 8 * of_nat n) a) (ptr + 8 * of_nat i)) [0..<n] =
      map (\<lambda>i. load64 m (ptr + 8 * of_nat i)) [0..<n]"
    using n assms(2) by (intro map_cong refl mem64.ld_st_sep slot_index_apart) auto
  moreover have "unat (of_nat n :: usize) = n" using len n_def by simp
  ultimately show ?thesis by (simp add: vec_elements_def mem64.ld_st_same)
qed

lemma received_push [simp]: "received (push_packet p st) = received st @ packet_slots p"
  by (simp add: received_def push_packet_def)

lemma received_lent [simp]: "received (st\<lparr>lent := l\<rparr>) = received st"
  by (simp add: received_def)

lemma one_buffer_left [simp]: "\<exists>ptr cap. [a \<mapsto> (e, b)] = [ptr \<mapsto> (e, cap)]"
  by blast

lemma report_step_inv: "report_step sw s t \<Longrightarrow> report_inv sw s \<Longrightarrow> report_inv sw t"
proof (induction rule: report_step.induct)
  case (store len cap m st ptr sent a)
  then have "len + 1 \<le> cap" by (metis inc_le)
  with store show ?case by (simp add: vec_elements_store)
next
  case (report st new m ptr len cap b st' sent)
  then show ?case
    by (auto simp: report_slots_and_renew_buffer_def from_raw_parts_def renew_buffer_def
        push_packet_def received_def fresh_vec_def comp_def split: if_splits)
next
  case (finish st new m ptr len cap b st' st'' sent)
  then show ?case
    by (auto simp: report_slots_and_renew_buffer_def from_raw_parts_def renew_buffer_def
        mmtk_release_rust_buffer_def
        push_packet_def received_def fresh_vec_def comp_def split: if_splits)
qed (auto simp: report_slots_and_renew_buffer_def renew_buffer_def received_def fresh_vec_def)

interpretation reporting: machine report_initial "report_step sw" "report_inv sw" for sw
  by unfold_locales (auto simp: report_initial_def received_def intro: report_step_inv)

text \<open>
  C14. Every slot that a client stores through the slots closure reaches MMTk exactly once and in
  order, however many buffers it filled. When the client is done no buffer is left with it in a build
  without the feature \<^verbatim>\<open>single_worker\<close>. With the feature, which \<^verbatim>\<open>Android.bp\<close> switches on, releasing
  does not drop the buffer, and exactly one, the last and empty one, is left.
\<close>

theorem report_exactly_once:
  assumes "report_initial s" "(report_step single_worker)\<^sup>*\<^sup>* s (m, st, Finished, sent)"
  shows "received st = sent \<and>
    (if single_worker then \<exists>ptr cap. lent st = [ptr \<mapsto> (Word_Elem, cap)] else lent st = (\<lambda>_. None))"
  using reporting.inv_reachable [OF assms] by simp

text \<open>
  Handing back a buffer is never undefined behaviour for a client that follows the protocol: at
  every moment the report returns a new empty buffer, which can be released.
\<close>

lemma report_defined:
  assumes "report_initial s" "(report_step sw)\<^sup>*\<^sup>* s (m, st, Filling ptr len cap, sent)" "fresh_vec st new"
  shows "\<exists>b st' st''. report_slots_and_renew_buffer new m ptr len cap st = Some (b, st') \<and>
    buf_len b = 0 \<and> received st' = sent \<and>
    mmtk_release_rust_buffer sw (buf_ptr b) (buf_len b) (buf_capacity b) st' = Some st''"
  using reporting.inv_reachable [OF assms(1,2)] assms(3)
  by (auto simp: report_slots_and_renew_buffer_def from_raw_parts_def renew_buffer_def
      mmtk_release_rust_buffer_def push_packet_def received_def comp_def fresh_vec_def)

section \<open>A run of the protocol\<close>

abbreviation no_bufs :: vec_state where
  "no_bufs \<equiv> \<lparr>lent = (\<lambda>_. None), packets = []\<rparr>"

abbreviation one_buf :: vec_state where
  "one_buf \<equiv> \<lparr>lent = [0x1000 \<mapsto> (Word_Elem, 2)], packets = []\<rparr>"

abbreviation one_slot_mem :: mem where
  "one_slot_mem \<equiv> store64 (\<lambda>_. 0) 0x1000 0x40"

lemma sample_initial: "report_initial (\<lambda>_. 0, no_bufs, Idle, [])"
  by (simp add: report_initial_def)

lemma sample_filling:
  "(report_step sw)\<^sup>*\<^sup>* (\<lambda>_. 0, no_bufs, Idle, []) (one_slot_mem, one_buf, Filling 0x1000 1 2, [0x40])"
proof -
  have "report_step sw (\<lambda>_. 0, no_bufs, Idle, []) (\<lambda>_. 0, one_buf, Filling 0x1000 0 2, [])"
    using report_step.start [of no_bufs "(0x1000, 2)" "\<lambda>_. 0" "\<lparr>buf_ptr = 0x1000, buf_len = 0, buf_capacity = 2\<rparr>" one_buf sw "[]"]
    by (simp add: fresh_vec_def report_slots_and_renew_buffer_def renew_buffer_def)
  moreover have "report_step sw (\<lambda>_. 0, one_buf, Filling 0x1000 0 2, []) (one_slot_mem, one_buf, Filling 0x1000 1 2, [0x40])"
    using report_step.store [of 0 2 sw "\<lambda>_. 0" one_buf "0x1000" "[]" "0x40"] by simp
  ultimately show ?thesis by (meson converse_rtranclp_into_rtranclp rtranclp.rtrancl_refl)
qed

lemma sample_finished:
  "(report_step sw)\<^sup>*\<^sup>* (\<lambda>_. 0, no_bufs, Idle, [])
     (one_slot_mem, \<lparr>lent = (if sw then [0x2000 \<mapsto> (Word_Elem, 2)] else (\<lambda>_. None)), packets = [Roots [ArtSlot 0x40]]\<rparr>,
      Finished, [0x40])"
proof -
  let ?b = "\<lparr>buf_ptr = 0x2000, buf_len = 0, buf_capacity = 2\<rparr>"
  let ?st = "\<lparr>lent = [0x2000 \<mapsto> (Word_Elem, 2)], packets = [Roots [ArtSlot 0x40]]\<rparr>"
  have el: "vec_elements one_slot_mem 0x1000 1 = [0x40]"
    by (simp add: vec_elements_def mem64.ld_st_same)
  have "report_step sw (one_slot_mem, one_buf, Filling 0x1000 1 2, [0x40])
     (one_slot_mem, \<lparr>lent = (if sw then [0x2000 \<mapsto> (Word_Elem, 2)] else (\<lambda>_. None)), packets = [Roots [ArtSlot 0x40]]\<rparr>,
      Finished, [0x40])"
    by (rule report_step.finish [of _ "(0x2000, 2)" _ _ _ _ ?b ?st])
      (auto simp: fresh_vec_def report_slots_and_renew_buffer_def renew_buffer_def from_raw_parts_def
        push_packet_def mmtk_release_rust_buffer_def el)
  with sample_filling show ?thesis by (rule rtranclp.rtrancl_into_rtrancl)
qed

text \<open>A client that reports one slot, without and with the feature.\<close>

theorem report_exactly_once_witness:
  "(\<exists>st. (report_step False)\<^sup>*\<^sup>* (\<lambda>_. 0, no_bufs, Idle, []) (one_slot_mem, st, Finished, [0x40]) \<and>
      received st = [0x40] \<and> lent st = (\<lambda>_. None)) \<and>
   (\<exists>st ptr cap. (report_step True)\<^sup>*\<^sup>* (\<lambda>_. 0, no_bufs, Idle, []) (one_slot_mem, st, Finished, [0x40]) \<and>
      received st = [0x40] \<and> lent st = [ptr \<mapsto> (Word_Elem, cap)])"
  using report_exactly_once [OF sample_initial sample_finished [of False]] sample_finished [of False]
    report_exactly_once [OF sample_initial sample_finished [of True]] sample_finished [of True]
  by (intro conjI) (auto simp del: fun_upd_apply)

end
