(* ===== verification/Closures.thy ===== *)
theory Closures
  imports Collection Buffers
begin

text \<open>
  The closures through which C++ calls back into Rust one item at a time: \<^verbatim>\<open>MutatorClosure\<close>,
  \<^verbatim>\<open>ScanObjectClosure\<close> and \<^verbatim>\<open>TraceObjectClosure\<close> of \<^verbatim>\<open>lib.rs\<close>, and the visitor trampoline of
  \<^verbatim>\<open>scanning.rs\<close>. A closure is a function pointer and the address of a Rust context; what lives at
  that address is part of the state. Calling the function with an address at which no context of
  its type lives, or with a null reference, is undefined behaviour, the value \<open>None\<close>.
\<close>

section \<open>Definitions\<close>

text \<open>The contexts of one type, by their addresses: what calling one does with an item and the state.\<close>

type_synonym ('x, 's, 'r) contexts = "addr \<Rightarrow> ('x \<Rightarrow> 's \<Rightarrow> 'r \<times> 's) option"

datatype closure_func = Call_Mutator_Closure | Scan_Object_Fn | Call_Trace_Closure

record MutatorClosure =
  mutator_func :: closure_func
  mutator_data :: addr

record ScanObjectClosure =
  scan_func :: closure_func
  scan_data :: addr

record TraceObjectClosure =
  trace_func :: closure_func
  trace_data :: addr

definition mutator_from_rust_closure :: "addr \<Rightarrow> MutatorClosure" where
  "mutator_from_rust_closure callback = \<lparr>mutator_func = Call_Mutator_Closure, mutator_data = callback\<rparr>"

definition mutator_call_rust_closure ::
  "(mutator, 's, unit) contexts \<Rightarrow> mutator \<Rightarrow> addr \<Rightarrow> 's \<Rightarrow> (unit \<times> 's) option" where
  "mutator_call_rust_closure H mu callback_ptr s =
     (case H callback_ptr of
        None \<Rightarrow> None
      | Some callback \<Rightarrow> if mu = 0 then None else Some (callback mu s))"

definition to_scan_object_closure :: "addr \<Rightarrow> ScanObjectClosure" where
  "to_scan_object_closure slot_visitor = \<lparr>scan_func = Scan_Object_Fn, scan_data = slot_visitor\<rparr>"

definition scan_object_fn ::
  "(ArtSlot, 's, unit) contexts \<Rightarrow> ArtSlot \<Rightarrow> addr \<Rightarrow> 's \<Rightarrow> (unit \<times> 's) option" where
  "scan_object_fn H slot slot_visitor_ptr s =
     (case H slot_visitor_ptr of None \<Rightarrow> None | Some visit_slot \<Rightarrow> Some (visit_slot slot s))"

definition trace_from_rust_closure :: "addr \<Rightarrow> TraceObjectClosure" where
  "trace_from_rust_closure callback = \<lparr>trace_func = Call_Trace_Closure, trace_data = callback\<rparr>"

definition trace_call_rust_closure ::
  "(objref, 's, objref) contexts \<Rightarrow> objref \<Rightarrow> addr \<Rightarrow> 's \<Rightarrow> (objref \<times> 's) option" where
  "trace_call_rust_closure H object callback_ptr s =
     (case H callback_ptr of
        None \<Rightarrow> None
      | Some callback \<Rightarrow> if object = 0 then None else Some (callback object s))"

text \<open>
  What C++ does with a closure: it calls the function pointer with each item and passes \<^verbatim>\<open>data\<close>
  back as the last argument. Calling a pointer to a function of another type is undefined.
\<close>

definition invoke_mutator_closure ::
  "(mutator, 's, unit) contexts \<Rightarrow> MutatorClosure \<Rightarrow> mutator \<Rightarrow> 's \<Rightarrow> (unit \<times> 's) option" where
  "invoke_mutator_closure H c mu s =
     (if mutator_func c = Call_Mutator_Closure then mutator_call_rust_closure H mu (mutator_data c) s else None)"

definition invoke_scan_closure ::
  "(ArtSlot, 's, unit) contexts \<Rightarrow> ScanObjectClosure \<Rightarrow> ArtSlot \<Rightarrow> 's \<Rightarrow> (unit \<times> 's) option" where
  "invoke_scan_closure H c slot s =
     (if scan_func c = Scan_Object_Fn then scan_object_fn H slot (scan_data c) s else None)"

definition invoke_trace_closure ::
  "(objref, 's, objref) contexts \<Rightarrow> TraceObjectClosure \<Rightarrow> objref \<Rightarrow> 's \<Rightarrow> (objref \<times> 's) option" where
  "invoke_trace_closure H c object s =
     (if trace_func c = Call_Trace_Closure then trace_call_rust_closure H object (trace_data c) s else None)"

fun call_for_each :: "('x \<Rightarrow> 's \<Rightarrow> ('r \<times> 's) option) \<Rightarrow> 'x list \<Rightarrow> 's \<Rightarrow> ('r list \<times> 's) option" where
  "call_for_each f [] s = Some ([], s)"
| "call_for_each f (x # xs) s =
     (case f x s of
        None \<Rightarrow> None
      | Some (r, s') \<Rightarrow> map_option (\<lambda>(rs, s''). (r # rs, s'')) (call_for_each f xs s'))"

section \<open>The contract of a closure\<close>

text \<open>
  A Rust context that is turned into a closure and called through it behaves as the context
  itself, for the items its type allows. A client that calls the closure for a list of items then
  runs the context on each of them, in order.
\<close>

fun run_context :: "('x \<Rightarrow> 's \<Rightarrow> 'r \<times> 's) \<Rightarrow> 'x list \<Rightarrow> 's \<Rightarrow> 'r list \<times> 's" where
  "run_context f [] s = ([], s)"
| "run_context f (x # xs) s = (let (r, s') = f x s; (rs, s'') = run_context f xs s' in (r # rs, s''))"

locale rust_closure =
  fixes make :: "addr \<Rightarrow> 'c"
    and invoke :: "('x, 's, 'r) contexts \<Rightarrow> 'c \<Rightarrow> 'x \<Rightarrow> 's \<Rightarrow> ('r \<times> 's) option"
    and valid :: "'x \<Rightarrow> bool"
  assumes invoke_make: "H p = Some f \<Longrightarrow> valid x \<Longrightarrow> invoke H (make p) x s = Some (f x s)"
    and invoke_dangling: "H p = None \<Longrightarrow> invoke H (make p) x s = None"
begin

lemma calls: "H p = Some f \<Longrightarrow> list_all valid xs \<Longrightarrow>
    call_for_each (invoke H (make p)) xs s = Some (run_context f xs s)"
  by (induction xs arbitrary: s) (auto simp: invoke_make split: prod.splits)

lemma calls_dangling: "H p = None \<Longrightarrow> xs \<noteq> [] \<Longrightarrow> call_for_each (invoke H (make p)) xs s = None"
  by (cases xs) (auto simp: invoke_dangling)

end

interpretation mutator_closure: rust_closure mutator_from_rust_closure invoke_mutator_closure "\<lambda>mu. mu \<noteq> 0"
  by unfold_locales
    (simp_all add: mutator_from_rust_closure_def invoke_mutator_closure_def mutator_call_rust_closure_def)

interpretation scan_closure: rust_closure to_scan_object_closure invoke_scan_closure "\<lambda>_. True"
  by unfold_locales (simp_all add: to_scan_object_closure_def invoke_scan_closure_def scan_object_fn_def)

interpretation trace_closure: rust_closure trace_from_rust_closure invoke_trace_closure "\<lambda>ob. ob \<noteq> 0"
  by unfold_locales
    (simp_all add: trace_from_rust_closure_def invoke_trace_closure_def trace_call_rust_closure_def)

lemma run_context_unit: "snd (run_context (\<lambda>x s. ((), g x s)) xs s) = fold g xs s"
  by (induction xs arbitrary: s) (simp_all add: case_prod_beta)

section \<open>The callers\<close>

text \<open>
  \<^verbatim>\<open>ArtMutatorIterator::new\<close> and \<^verbatim>\<open>stop_all_mutators\<close> with the closure they pass spelled out: the
  contexts are the two Rust closures, at an address on the caller's stack.
\<close>

definition mutator_iterator_new_closure :: "'w env \<Rightarrow> addr \<Rightarrow> 'w \<Rightarrow> ArtMutatorIterator option" where
  "mutator_iterator_new_closure E p w =
     map_option (\<lambda>(_, q). \<lparr>mutators = q\<rparr>)
       (call_for_each (invoke_mutator_closure [p \<mapsto> \<lambda>mu q. ((), q @ [mu])] (mutator_from_rust_closure p))
          (for_all_mutators (upcalls E) w) [])"

definition stop_all_mutators_closure ::
  "'w env \<Rightarrow> (mutator \<Rightarrow> 'w \<Rightarrow> 'w) \<Rightarrow> addr \<Rightarrow> tls \<Rightarrow> 'w \<Rightarrow> 'w option" where
  "stop_all_mutators_closure E flush p t w =
     (let w1 = suspend_mutators (upcalls E) t w
      in map_option snd
           (call_for_each (invoke_mutator_closure [p \<mapsto> \<lambda>mu w. ((), flush mu w)] (mutator_from_rust_closure p))
              (for_all_mutators (upcalls E) w1) w1))"

text \<open>
  Passing a Rust closure through C++ changes nothing: when ART calls the closure it was given once
  for every mutator, none of them null, \<^verbatim>\<open>ArtMutatorIterator::new\<close> collects exactly these mutators
  and \<^verbatim>\<open>stop_all_mutators\<close> flushes each of them, as the definitions without closures have it.
\<close>

lemma closures_transparent:
  assumes "list_all (\<lambda>mu. mu \<noteq> 0) (for_all_mutators (upcalls E) w)"
    "list_all (\<lambda>mu. mu \<noteq> 0) (for_all_mutators (upcalls E) (suspend_mutators (upcalls E) t w))"
  shows "mutator_iterator_new_closure E p w = Some (mutator_iterator_new E w) \<and>
    stop_all_mutators_closure E flush q t w = Some (stop_all_mutators E flush t w)"
proof
  let ?H = "[p \<mapsto> \<lambda>mu q. ((), q @ [mu])]"
  have "?H p = Some (\<lambda>mu q. ((), q @ [mu]))" by simp
  from mutator_closure.calls [where H = ?H and p = p, OF this assms(1), of "[]"]
  show "mutator_iterator_new_closure E p w = Some (mutator_iterator_new E w)"
    by (simp add: mutator_iterator_new_closure_def mutator_iterator_new_def case_prod_beta run_context_unit)
  let ?G = "[q \<mapsto> \<lambda>mu w. ((), flush mu w)]"
  have "?G q = Some (\<lambda>mu w. ((), flush mu w))" by simp
  from mutator_closure.calls [where H = ?G and p = q, OF this assms(2)]
  show "stop_all_mutators_closure E flush q t w = Some (stop_all_mutators E flush t w)"
    by (simp add: stop_all_mutators_closure_def stop_all_mutators_def Let_def run_context_unit)
qed

text \<open>
  C30. When ART calls the closure it was given once for every mutator, none of them null, then iterating
  over the mutators of \<^verbatim>\<open>ArtMutatorIterator::new\<close> ends and yields exactly the mutators that ART has
  reported, in that order, and \<^verbatim>\<open>stop_all_mutators\<close> returns with the buffers of every mutator flushed
  that exists once the threads are suspended.
\<close>

theorem mutators_visited_and_flushed:
  assumes "flush_law flush flushed"
    "0 \<notin> set (for_all_mutators (upcalls E) w)"
    "0 \<notin> set (for_all_mutators (upcalls E) (suspend_mutators (upcalls E) t w))"
  shows "\<exists>it w'. mutator_iterator_new_closure E p w = Some it \<and>
    drain mutator_iterator_next it = Some (for_all_mutators (upcalls E) w) \<and>
    stop_all_mutators_closure E flush q t w = Some w' \<and>
    (\<forall>mu \<in> set (for_all_mutators (upcalls E) (suspend_mutators (upcalls E) t w)). flushed mu w')"
proof -
  have nn: "list_all (\<lambda>mu. mu \<noteq> 0) xs" if "0 \<notin> set xs" for xs :: "mutator list"
    using that by (auto simp: list_all_iff)
  note closures = closures_transparent [where p = p and q = q and flush = flush, OF nn [OF assms(2)] nn [OF assms(3)]]
  show ?thesis
    using closures mutators_complete [of E w] stop_all_mutators_flushes [OF assms(1), of _ E t w]
    by (intro exI [of _ "mutator_iterator_new E w"] exI [of _ "stop_all_mutators E flush t w"])
      (simp add: active_plan_mutators_def)
qed

text \<open>Two mutators; the state is the set of those that are flushed.\<close>

theorem mutators_visited_and_flushed_witness:
  "\<exists>it w'. mutator_iterator_new_closure two_mutators 0x7FFE0000 {} = Some it \<and>
     drain mutator_iterator_next it = Some [1, 2] \<and>
     stop_all_mutators_closure two_mutators insert 0x7FFE0000 7 {} = Some w' \<and> 1 \<in> w' \<and> 2 \<in> w'"
proof -
  have "flush_law insert (\<in>)" by (simp add: flush_law_def)
  from mutators_visited_and_flushed [OF this, of two_mutators "{}" 7 "0x7FFE0000" "0x7FFE0000"] show ?thesis
    by (simp add: two_mutators_def env_with_def)
qed

section \<open>Visitors and tracers\<close>

text \<open>A slot visitor that records what it is given sees exactly the slots ART reports, in order.\<close>

lemma visited_slots:
  assumes "H p = Some (\<lambda>slot seen. ((), seen @ [slot]))"
  shows "map_option snd (call_for_each (invoke_scan_closure H (to_scan_object_closure p)) slots seen) =
    Some (seen @ slots)"
  using scan_closure.calls [where H = H and p = p, OF assms, of slots seen]
  by (simp add: run_context_unit fold_push_back list_all_iff)

text \<open>Tracing through the closure returns what the tracer returns for each object.\<close>

lemma traced_objects:
  assumes "H p = Some (\<lambda>ob s. (new ob, s))" "list_all (\<lambda>ob. ob \<noteq> 0) obs"
  shows "call_for_each (invoke_trace_closure H (trace_from_rust_closure p)) obs s = Some (map new obs, s)"
proof -
  have "run_context (\<lambda>ob s. (new ob, s)) obs s = (map new obs, s)" by (induction obs) auto
  then show ?thesis using trace_closure.calls [where H = H, OF assms, of s] by simp
qed

end
