(* ===== verification/Scanning.thy ===== *)
theory Scanning
  imports Object_Model Buffers Object_Scanning
begin

text \<open>
  \<^verbatim>\<open>scanning.rs\<close>: the entry points through which MMTk scans roots and objects, and the processing
  of weak references in three phases. What the collector is doing (nursery or emergency
  collection, Zygote process) is asked of mmtk-core, whose answers are parameters.
\<close>

section \<open>Definitions\<close>

record features =
  simple_scan_object :: bool
  single_worker :: bool
  ss_no_gc_in_harness :: bool

record 'w gc_info =
  is_nursery_collection :: "'w \<Rightarrow> bool"
  is_emergency_collection :: "'w \<Rightarrow> bool"
  is_zygote_process :: "'w \<Rightarrow> bool"

text \<open>
  \<^verbatim>\<open>ObjectTracerContext::with_tracer\<close> of mmtk-core: it runs a body that is given the tracing
  function.
\<close>

type_synonym 'w tracer_context = "(('w \<Rightarrow> objref \<Rightarrow> 'w \<times> objref) \<Rightarrow> 'w \<Rightarrow> 'w) \<Rightarrow> 'w \<Rightarrow> 'w"

definition is_not_forwarded ::
  "(metadata_spec \<Rightarrow> mem \<Rightarrow> objref \<Rightarrow> u8) \<Rightarrow> mem \<Rightarrow> objref \<Rightarrow> bool" where
  "is_not_forwarded load_bits m object \<longleftrightarrow> load_bits LOCAL_FORWARDING_BITS_SPEC m object = 0"

definition scan_roots_in_mutator_thread :: "tls \<Rightarrow> mutator \<Rightarrow> 'w \<Rightarrow> 'w" where
  "scan_roots_in_mutator_thread t mu w = w"

definition single_threaded_scan_roots_in_mutator_thread :: "tls \<Rightarrow> mutator \<Rightarrow> 'w \<Rightarrow> 'w" where
  "single_threaded_scan_roots_in_mutator_thread t mu w = w"

definition scan_vm_space_objects :: "'w env \<Rightarrow> tls \<Rightarrow> addr \<Rightarrow> 'w \<Rightarrow> 'w" where
  "scan_vm_space_objects E t closure w =
     scan_vm_space_objects_upcall (upcalls E) (to_vm_space_nodes_closure closure) w"

definition scan_vm_specific_roots :: "'w env \<Rightarrow> tls \<Rightarrow> addr \<Rightarrow> 'w \<Rightarrow> 'w" where
  "scan_vm_specific_roots E t factory w = scan_all_roots (upcalls E) (to_slots_closure factory) w"

definition single_threaded_scan_vm_specific_roots :: "'w env \<Rightarrow> tls \<Rightarrow> addr \<Rightarrow> 'w \<Rightarrow> 'w" where
  "single_threaded_scan_vm_specific_roots E t closure w =
     scan_all_roots (upcalls E) (object_graph_traversal_to_slots_closure closure) w"

definition scanning_scan_object ::
  "'w env \<Rightarrow> features \<Rightarrow> (metadata_spec \<Rightarrow> mem \<Rightarrow> objref \<Rightarrow> u8) \<Rightarrow> mem \<Rightarrow> usize \<Rightarrow> objref
     \<Rightarrow> ArtSlot list res option" where
  "scanning_scan_object E F load_bits m pointer_size object =
     (case debug_assert E ''is_not_forwarded'' (Inr (is_not_forwarded load_bits m object)) of
        Inl p \<Rightarrow> Some (Inl p)
      | Inr _ \<Rightarrow>
          if simple_scan_object F then Some (Inr (scan_object_upcall (upcalls E) m object))
          else scan_object E m pointer_size True object)"

text \<open>The value with which the phase kept between calls starts.\<close>

definition CURRENT_WEAK_REF_PHASE :: RefProcessingPhase where "CURRENT_WEAK_REF_PHASE = Phase1"

definition clear_soft_references :: "('w, 'z) gc_info_scheme \<Rightarrow> 'w \<Rightarrow> bool" where
  "clear_soft_references Q w \<longleftrightarrow> is_emergency_collection Q w \<or> is_zygote_process Q w"

definition process_weak_refs ::
  "'w env \<Rightarrow> ('w, 'z) gc_info_scheme \<Rightarrow> 'w tracer_context \<Rightarrow> tls \<Rightarrow> RefProcessingPhase \<times> 'w
     \<Rightarrow> bool \<times> RefProcessingPhase \<times> 'w" where
  "process_weak_refs E Q with_tracer t st =
     (let (current_phase, w) = st in
      if is_nursery_collection Q w then (False, current_phase, sweep_system_weaks (upcalls E) w)
      else
        let clear = clear_soft_references Q w in
        case current_phase of
          Phase1 \<Rightarrow>
            (True, Phase2,
             with_tracer (\<lambda>trace. process_references (upcalls E) t trace Phase1 clear) w)
        | Phase2 \<Rightarrow>
            (True, Phase3,
             with_tracer (\<lambda>trace. process_references (upcalls E) t trace Phase2 clear) w)
        | Phase3 \<Rightarrow>
            (False, Phase1,
             with_tracer (\<lambda>trace. process_references (upcalls E) t trace Phase3 clear) w))"

definition notify_initial_thread_scan_complete :: "bool \<Rightarrow> tls \<Rightarrow> unit res" where
  "notify_initial_thread_scan_complete partial t = Inl Unimplemented"

definition supports_return_barrier :: "bool res" where
  "supports_return_barrier = Inl Unimplemented"

definition prepare_for_roots_re_scanning :: "unit res" where
  "prepare_for_roots_re_scanning = Inl Unimplemented"

text \<open>MMTk calls \<^verbatim>\<open>process_weak_refs\<close> again as long as it returns true.\<close>

partial_function (option) weak_ref_rounds ::
  "('s \<Rightarrow> bool \<times> 's) \<Rightarrow> 's \<Rightarrow> 's option" where
  "weak_ref_rounds f s = (case f s of (again, s') \<Rightarrow> if again then weak_ref_rounds f s' else Some s')"

section \<open>Weak references\<close>

text \<open>What one phase does, with the soft references to be cleared as the collector's state says.\<close>

definition run_phase ::
  "'w env \<Rightarrow> ('w, 'z) gc_info_scheme \<Rightarrow> 'w tracer_context \<Rightarrow> tls \<Rightarrow> RefProcessingPhase \<Rightarrow> 'w \<Rightarrow> 'w" where
  "run_phase E Q with_tracer t phase w =
     with_tracer (\<lambda>trace. process_references (upcalls E) t trace phase (clear_soft_references Q w)) w"

text \<open>A collection does not turn into a nursery collection while references are processed.\<close>

definition stays_full :: "'w env \<Rightarrow> ('w, 'z) gc_info_scheme \<Rightarrow> 'w tracer_context \<Rightarrow> tls \<Rightarrow> bool" where
  "stays_full E Q with_tracer t \<longleftrightarrow>
     (\<forall>phase w. \<not> is_nursery_collection Q w \<longrightarrow>
        \<not> is_nursery_collection Q (run_phase E Q with_tracer t phase w))"

lemma full_gc_rounds:
  assumes "stays_full E Q ctx t" "\<not> is_nursery_collection Q w"
  shows "weak_ref_rounds (process_weak_refs E Q ctx t) (Phase1, w) =
    Some (Phase1, run_phase E Q ctx t Phase3 (run_phase E Q ctx t Phase2 (run_phase E Q ctx t Phase1 w)))"
proof -
  let ?w1 = "run_phase E Q ctx t Phase1 w"
  let ?w2 = "run_phase E Q ctx t Phase2 ?w1"
  have "\<not> is_nursery_collection Q ?w1" "\<not> is_nursery_collection Q ?w2"
    using assms by (simp_all add: stays_full_def)
  with assms(2) show ?thesis
    by (simp add: weak_ref_rounds.simps process_weak_refs_def run_phase_def Let_def)
qed

lemma nursery_gc_rounds:
  assumes "is_nursery_collection Q w"
  shows "weak_ref_rounds (process_weak_refs E Q ctx t) (phase, w) =
    Some (phase, sweep_system_weaks (upcalls E) w)"
  using assms by (simp add: weak_ref_rounds.simps process_weak_refs_def Let_def)

text \<open>
  C16. In a full collection MMTk's calls end after the three phases, executed in order and each
  exactly once, and leave the phase ready for the next collection.
\<close>

theorem weak_refs_full_gc:
  assumes "stays_full E Q ctx t" "\<not> is_nursery_collection Q w"
  shows "weak_ref_rounds (process_weak_refs E Q ctx t) (Phase1, w) =
    Some (Phase1, run_phase E Q ctx t Phase3 (run_phase E Q ctx t Phase2 (run_phase E Q ctx t Phase1 w)))"
  by (rule full_gc_rounds [OF assms])

text \<open>Collections one after the other, each with the calls that MMTk makes.\<close>

inductive gc_step ::
  "'w env \<Rightarrow> ('w, 'z) gc_info_scheme \<Rightarrow> 'w tracer_context \<Rightarrow> tls \<Rightarrow> RefProcessingPhase \<times> 'w
     \<Rightarrow> RefProcessingPhase \<times> 'w \<Rightarrow> bool" for E Q ctx t where
  collection: "stays_full E Q ctx t \<Longrightarrow>
    weak_ref_rounds (process_weak_refs E Q ctx t) (phase, w) = Some (phase', w') \<Longrightarrow>
    gc_step E Q ctx t (phase, w) (phase', w')"
| mutators_run: "gc_step E Q ctx t (phase, w) (phase, w')"

lemma gc_step_phase: "gc_step E Q ctx t s s' \<Longrightarrow> fst s = Phase1 \<Longrightarrow> fst s' = Phase1"
proof (induction rule: gc_step.induct)
  case (collection phase w phase' w')
  then show ?case
    using full_gc_rounds [of E Q ctx t w] nursery_gc_rounds [of Q w E ctx t Phase1]
    by (cases "is_nursery_collection Q w") auto
qed simp

interpretation collections: machine "\<lambda>s. fst s = CURRENT_WEAK_REF_PHASE" "gc_step E Q ctx t" "\<lambda>s. fst s = Phase1"
  for E Q ctx t
  by unfold_locales (auto simp: CURRENT_WEAK_REF_PHASE_def intro: gc_step_phase)

text \<open>
  C17. Whatever nursery and full collections have run, the next full collection starts with the
  first phase: the phase kept between calls is never left in the middle.
\<close>

theorem weak_ref_phase_between_collections:
  assumes "(gc_step E Q ctx t)\<^sup>*\<^sup>* (CURRENT_WEAK_REF_PHASE, w) (phase, w')"
  shows "phase = Phase1"
  using collections.inv_reachable [OF _ assms] by simp

section \<open>A concrete collector\<close>

text \<open>Its state is the log of the phases ART was asked to run; it is the Zygote process.\<close>

type_synonym phase_log = "(RefProcessingPhase \<times> bool) list"

definition log_env :: "phase_log env" where
  "log_env = env_with (idle_upcalls\<lparr>process_references := (\<lambda>t trace phase clear w. w @ [(phase, clear)])\<rparr>)"

definition log_info :: "phase_log gc_info" where
  "log_info = \<lparr>is_nursery_collection = (\<lambda>_. False), is_emergency_collection = (\<lambda>_. False),
     is_zygote_process = (\<lambda>_. True)\<rparr>"

definition log_tracer :: "phase_log tracer_context" where
  "log_tracer body w = body (\<lambda>w ob. (w, ob)) w"

lemma log_stays_full: "stays_full log_env log_info log_tracer t"
  by (simp add: stays_full_def log_info_def)

lemma log_not_nursery: "\<not> is_nursery_collection log_info w"
  by (simp add: log_info_def)

lemma log_run_phase: "run_phase log_env log_info log_tracer t phase w = w @ [(phase, True)]"
  by (simp add: run_phase_def log_env_def log_info_def log_tracer_def env_with_def idle_upcalls_def
      clear_soft_references_def)

theorem weak_refs_full_gc_witness:
  "weak_ref_rounds (process_weak_refs log_env log_info log_tracer 1) (Phase1, []) =
     Some (Phase1, [(Phase1, True), (Phase2, True), (Phase3, True)])"
  using weak_refs_full_gc [OF log_stays_full log_not_nursery, of 1 "[]"] by (simp add: log_run_phase)

lemma log_collection:
  "(gc_step log_env log_info log_tracer 1)\<^sup>*\<^sup>* (Phase1, [])
     (Phase1, [(Phase1, True), (Phase2, True), (Phase3, True)])"
proof (rule r_into_rtranclp, rule gc_step.collection [OF log_stays_full])
  show "weak_ref_rounds (process_weak_refs log_env log_info log_tracer 1) (Phase1, []) =
      Some (Phase1, [(Phase1, True), (Phase2, True), (Phase3, True)])"
    using full_gc_rounds [OF log_stays_full log_not_nursery, of 1 "[]"] by (simp add: log_run_phase)
qed

theorem weak_ref_phase_between_collections_witness:
  "\<exists>phase w. (gc_step log_env log_info log_tracer 1)\<^sup>*\<^sup>* (Phase1, []) (phase, w) \<and>
     length w = 3 \<and> phase = Phase1"
  using log_collection weak_ref_phase_between_collections [unfolded CURRENT_WEAK_REF_PHASE_def, OF log_collection]
  by (intro exI [of _ Phase1] exI [of _ "[(Phase1, True), (Phase2, True), (Phase3, True)]"]) simp

end
