(* ===== verification/Lifecycle.thy ===== *)
theory Lifecycle
  imports Scanning Collection
begin

text \<open>
  The global state of \<^verbatim>\<open>lib.rs\<close> and the functions of \<^verbatim>\<open>api.rs\<close> that build it: the flags, the
  trigger parameters and the builder, the lazily created MMTk instance with its address-space
  layout, initialization and re-initialization. The functions of mmtk-core are a record of
  functions on the state \<open>'w\<close> of everything outside the crate, which holds the instance once it
  has been created; the builder of mmtk-core is opaque.
\<close>

section \<open>The interface of mmtk-core\<close>

record VMLayout =
  log_address_space :: nat
  heap_start :: addr
  heap_end :: addr
  log_space_extent :: nat
  force_use_contiguous_spaces :: bool

datatype GCTriggerSelector = FixedHeapSize usize | Delegated

text \<open>\<^verbatim>\<open>PlanSelector\<close> by its discriminant.\<close>

type_synonym PlanSelector = nat

record ('b, 'w) builder_core = "'w gc_info" +
  builder_set_plan :: "PlanSelector \<Rightarrow> 'b \<Rightarrow> bool \<times> 'b"
  builder_set_is_zygote_process :: "bool \<Rightarrow> 'b \<Rightarrow> bool \<times> 'b"
  builder_is_zygote_process :: "'b \<Rightarrow> bool"
  builder_set_gc_trigger :: "GCTriggerSelector \<Rightarrow> 'b \<Rightarrow> bool \<times> 'b"
  builder_set_vm_layout :: "VMLayout \<Rightarrow> 'b \<Rightarrow> 'b"
  core_mmtk_init :: "'b \<Rightarrow> 'w \<Rightarrow> 'w"
  core_initialize_collection :: "tls \<Rightarrow> 'w \<Rightarrow> 'w"

section \<open>Global state\<close>

text \<open>\<open>SINGLETON\<close> says whether the lazy static has been evaluated.\<close>

record 'b globals =
  IS_MMTK_INITIALIZED :: bool
  IS_MMTK_REINITIALIZING :: bool
  ART_POINTER_SIZE :: usize
  TRIGGER_INIT :: ArtTriggerInit
  BUILDER :: 'b
  UPCALLS :: addr
  SINGLETON :: bool

definition default_trigger_init :: ArtTriggerInit where
  "default_trigger_init =
     \<lparr>init_min_free = 0, init_max_free = 0, init_initial_size = 0, init_capacity = 0,
      init_growth_limit = 0, init_target_utilization = Zero False,
      init_foreground_heap_growth_multiplier = Zero False\<rparr>"

definition initial_globals :: "'b \<Rightarrow> 'b globals" where
  "initial_globals builder =
     \<lparr>IS_MMTK_INITIALIZED = False, IS_MMTK_REINITIALIZING = False, ART_POINTER_SIZE = 8,
      TRIGGER_INIT = default_trigger_init, BUILDER = builder, UPCALLS = 0, SINGLETON = False\<rparr>"

section \<open>Operations\<close>

definition vm_layout :: "'w env \<Rightarrow> ArtTriggerInit \<Rightarrow> VMLayout res" where
  "vm_layout E trigger =
     (let max_heap_size = init_capacity trigger in
      and_then (assert_true ''Heap size is larger than 2 GB!'' (max_heap_size \<le> push_bit 30 2)) (\<lambda>_.
      let start = 0x00400000 in
      and_then (add_chk E start max_heap_size) (\<lambda>end_address.
      and_then (mul_chk E 5 (BYTES_IN_CHUNK E)) (\<lambda>slack.
      Inr \<lparr>log_address_space = 32,
           heap_start = chunk_align_down E start,
           heap_end = chunk_align_up E (end_address + slack),
           log_space_extent = 31,
           force_use_contiguous_spaces = False\<rparr>))))"

definition set_vm_layout ::
  "'w env \<Rightarrow> ('b, 'w, 'z) builder_core_scheme \<Rightarrow> ArtTriggerInit \<Rightarrow> 'b \<Rightarrow> 'b res" where
  "set_vm_layout E K trigger b =
     and_then (vm_layout E trigger) (\<lambda>constants. Inr (builder_set_vm_layout K constants b))"

text \<open>The access to the lazy static \<^verbatim>\<open>SINGLETON\<close>.\<close>

definition singleton ::
  "'w env \<Rightarrow> ('b, 'w, 'z) builder_core_scheme \<Rightarrow> 'b globals \<times> 'w \<Rightarrow> ('b globals \<times> 'w) res" where
  "singleton E K s =
     (let (g, w) = s in
      if SINGLETON g then Inr s
      else
        and_then (assert_true ''!IS_MMTK_INITIALIZED'' (\<not> IS_MMTK_INITIALIZED g)) (\<lambda>_.
        and_then (set_vm_layout E K (TRIGGER_INIT g) (BUILDER g)) (\<lambda>b.
        Inr (g\<lparr>BUILDER := b, IS_MMTK_INITIALIZED := True, SINGLETON := True\<rparr>, core_mmtk_init K b w))))"

definition mmtk_init ::
  "'w env \<Rightarrow> ('b, 'w, 'z) builder_core_scheme \<Rightarrow> addr \<Rightarrow> PlanSelector \<Rightarrow> bool \<Rightarrow> 'b globals \<times> 'w
     \<Rightarrow> ('b globals \<times> 'w) res" where
  "mmtk_init E K upcalls_ptr plan is_zygote s =
     (let (g, w) = s in
      and_then (assert_true ''!IS_MMTK_INITIALIZED || !is_zygote_process''
                  (\<not> IS_MMTK_INITIALIZED g \<or> \<not> is_zygote)) (\<lambda>_.
      if IS_MMTK_INITIALIZED g then Inr (g\<lparr>IS_MMTK_REINITIALIZING := True\<rparr>, w)
      else
        let g1 = g\<lparr>UPCALLS := upcalls_ptr\<rparr>;
            g2 = g1\<lparr>BUILDER := snd (builder_set_plan K plan (BUILDER g1))\<rparr>;
            g3 = g2\<lparr>BUILDER := snd (builder_set_is_zygote_process K is_zygote (BUILDER g2))\<rparr>
        in and_then (debug_assert E ''is_zygote_process''
                       (Inr (builder_is_zygote_process K (BUILDER g3) = is_zygote))) (\<lambda>_.
           singleton E K (g3, w))))"

definition mmtk_initialize_collection ::
  "'w env \<Rightarrow> ('b, 'w, 'z) builder_core_scheme \<Rightarrow> tls \<Rightarrow> 'b globals \<times> 'w \<Rightarrow> ('b globals \<times> 'w) res" where
  "mmtk_initialize_collection E K t s =
     and_then (debug_assert E ''IS_MMTK_INITIALIZED'' (Inr (IS_MMTK_INITIALIZED (fst s)))) (\<lambda>_.
     if \<not> IS_MMTK_REINITIALIZING (fst s)
     then and_then (singleton E K s) (\<lambda>(g, w). Inr (g, core_initialize_collection K t w))
     else Inr s)"

definition mmtk_set_runtime_pointer_size :: "usize \<Rightarrow> 'b globals \<Rightarrow> 'b globals" where
  "mmtk_set_runtime_pointer_size pointer_size g = g\<lparr>ART_POINTER_SIZE := pointer_size\<rparr>"

definition mmtk_set_heap_size ::
  "features \<Rightarrow> ('b, 'w, 'z) builder_core_scheme \<Rightarrow> usize \<Rightarrow> usize \<Rightarrow> usize \<Rightarrow> f64 \<Rightarrow> usize \<Rightarrow> usize \<Rightarrow> f64
     \<Rightarrow> 'b globals \<Rightarrow> bool \<times> 'b globals" where
  "mmtk_set_heap_size F K minimum maximum glimit util minf maxf mult g =
     (let trigger = (if \<not> ss_no_gc_in_harness F then
            \<lparr>init_min_free = minf, init_max_free = maxf, init_initial_size = minimum,
             init_capacity = maximum, init_growth_limit = glimit, init_target_utilization = util,
             init_foreground_heap_growth_multiplier = mult\<rparr>
          else
            \<lparr>init_min_free = minf, init_max_free = maxf, init_initial_size = minimum,
             init_capacity = 1073741824, init_growth_limit = glimit, init_target_utilization = util,
             init_foreground_heap_growth_multiplier = mult\<rparr>);
          policy = (if minimum = maximum then FixedHeapSize minimum else Delegated);
          (ok, b) = builder_set_gc_trigger K policy (BUILDER g)
      in (ok, g\<lparr>TRIGGER_INIT := trigger, BUILDER := b\<rparr>))"

section \<open>The address-space layout\<close>

lemma vm_layout_value:
  assumes "chunk_law E" "unat (init_capacity trigger) \<le> 2 ^ 31"
  shows "vm_layout E trigger = Inr
    \<lparr>log_address_space = 32, heap_start = 0x400000,
     heap_end = of_nat (align_up_nat (0x1800000 + unat (init_capacity trigger)) (2 ^ 22)),
     log_space_extent = 31, force_use_contiguous_spaces = False\<rparr>"
proof -
  let ?c = "init_capacity trigger"
  have c: "BYTES_IN_CHUNK E = 2 ^ 22" "chunk_align_down E 0x400000 = 0x400000"
    using assms(1) by (simp_all add: chunk_law_def)
  have "unat (0x400000 + ?c) = 0x400000 + unat ?c"
    using assms(2) by (subst unat_add_exact) simp_all
  then have "unat (0x400000 + ?c + 0x1400000) = 0x1800000 + unat ?c"
    using assms(2) by (subst unat_add_exact) simp_all
  then have "chunk_align_up E (0x400000 + ?c + 0x1400000) = of_nat (align_up_nat (0x1800000 + unat ?c) (2 ^ 22))"
    using assms by (simp add: chunk_law_def)
  moreover have "?c \<le> 0x80000000" using assms(2) by (simp add: word_le_nat_alt)
  moreover have "add_chk E 0x400000 ?c = Inr (0x400000 + ?c)"
    using assms(2) by (intro add_chk_ok) simp
  ultimately show ?thesis using c by (simp add: vm_layout_def mul_chk_def)
qed

text \<open>
  C25. For every heap of at most 2 GB the layout is accepted: it starts at the first chunk, ends at a
  chunk boundary within the 32-bit address space, and leaves at least five chunks of slack, and
  less than six, above the heap; a larger heap is refused with a panic.
\<close>

theorem vm_layout_bounds:
  assumes "chunk_law E"
  shows "if unat (init_capacity trigger) \<le> 2 ^ 31
    then \<exists>l. vm_layout E trigger = Inr l \<and> heap_start l = 0x400000 \<and>
      2 ^ 22 dvd unat (heap_end l) \<and> unat (heap_end l) \<le> 2 ^ 32 \<and>
      0x400000 + unat (init_capacity trigger) + 5 * 2 ^ 22 \<le> unat (heap_end l) \<and>
      unat (heap_end l) < 0x400000 + unat (init_capacity trigger) + 6 * 2 ^ 22
    else vm_layout E trigger = Inl (Assert ''Heap size is larger than 2 GB!'')"
proof (cases "unat (init_capacity trigger) \<le> 2 ^ 31")
  case True
  define n where "n = 0x1800000 + unat (init_capacity trigger)"
  have al: "n \<le> align_up_nat n (2 ^ 22)" "align_up_nat n (2 ^ 22) < n + 2 ^ 22" "2 ^ 22 dvd align_up_nat n (2 ^ 22)"
    by (rule align_up_nat_ge align_up_nat_less align_up_nat_dvd; simp)+
  have "unat (of_nat (align_up_nat n (2 ^ 22)) :: addr) = align_up_nat n (2 ^ 22)"
    using al(2) True by (intro unat_of_nat_small) (simp add: n_def)
  with al True show ?thesis
    unfolding vm_layout_value [OF assms True] n_def [symmetric]
    by (simp add: n_def)
next
  case False
  then show ?thesis by (simp add: vm_layout_def assert_true_def word_le_nat_alt)
qed

text \<open>
  C38. A heap of more than 1768 MB reaches past 0x7000_0000, where ART wants its boot image: with the
  slack of five chunks the heap does not stay below it up to 1788 MB, as the comment in
  \<^verbatim>\<open>set_vm_layout\<close> has it.
\<close>

theorem vm_layout_past_boot_image:
  assumes "chunk_law E" "1768 * 2 ^ 20 < unat (init_capacity trigger)" "unat (init_capacity trigger) \<le> 2 ^ 31"
  shows "\<exists>l. vm_layout E trigger = Inr l \<and> 0x70000000 < unat (heap_end l)"
proof -
  define n where "n = 0x1800000 + unat (init_capacity trigger)"
  have al: "n \<le> align_up_nat n (2 ^ 22)" "align_up_nat n (2 ^ 22) < n + 2 ^ 22"
    by (rule align_up_nat_ge align_up_nat_less; simp)+
  have "unat (of_nat (align_up_nat n (2 ^ 22)) :: addr) = align_up_nat n (2 ^ 22)"
    using al(2) assms(3) by (intro unat_of_nat_small) (simp add: n_def)
  with al assms(2) show ?thesis
    unfolding vm_layout_value [OF assms(1,3)] n_def [symmetric] by (simp add: n_def)
qed

section \<open>Initialization\<close>

text \<open>
  The calls that change the global state: the operations above, any other call that uses
  \<^verbatim>\<open>SINGLETON\<close>, and whatever happens outside the crate in between.
\<close>

inductive life_step ::
  "'w env \<Rightarrow> features \<Rightarrow> ('b, 'w, 'z) builder_core_scheme \<Rightarrow> 'b globals \<times> 'w \<Rightarrow> 'b globals \<times> 'w \<Rightarrow> bool"
  for E F K where
  life_init: "mmtk_init E K u plan z s = Inr s' \<Longrightarrow> life_step E F K s s'"
| life_collection: "mmtk_initialize_collection E K t s = Inr s' \<Longrightarrow> life_step E F K s s'"
| life_pointer: "life_step E F K (g, w) (mmtk_set_runtime_pointer_size p g, w)"
| life_heap: "mmtk_set_heap_size F K mn mx gl util minf maxf mult g = (ok, g') \<Longrightarrow> life_step E F K (g, w) (g', w)"
| life_use: "singleton E K s = Inr s' \<Longrightarrow> life_step E F K s s'"
| life_outside: "life_step E F K (g, w) (g, w')"

definition life_inv :: "'b globals \<times> 'w \<Rightarrow> bool" where
  "life_inv s \<longleftrightarrow> (IS_MMTK_INITIALIZED (fst s) \<longleftrightarrow> SINGLETON (fst s)) \<and>
     (IS_MMTK_REINITIALIZING (fst s) \<longrightarrow> IS_MMTK_INITIALIZED (fst s))"

lemma life_inv_singleton: "singleton E K s = Inr s' \<Longrightarrow> life_inv s \<Longrightarrow> life_inv s' \<and> SINGLETON (fst s')"
  by (auto simp: singleton_def life_inv_def and_then_eq_Inr Let_def split: prod.splits if_splits)

lemma life_inv_init:
  assumes "mmtk_init E K u plan z s = Inr s'" "life_inv s"
  shows "life_inv s' \<and> SINGLETON (fst s')"
proof (cases "IS_MMTK_INITIALIZED (fst s)")
  case True
  then show ?thesis
    using assms by (auto simp: mmtk_init_def life_inv_def and_then_eq_Inr Let_def split: prod.splits)
next
  case False
  let ?b = "snd (builder_set_is_zygote_process K z (snd (builder_set_plan K plan (BUILDER (fst s)))))"
  let ?s = "((fst s)\<lparr>UPCALLS := u, BUILDER := ?b\<rparr>, snd s)"
  have "singleton E K ?s = Inr s'"
    using assms(1) False by (auto simp: mmtk_init_def and_then_eq_Inr Let_def split: prod.splits)
  moreover have "life_inv ?s" using assms(2) by (auto simp: life_inv_def)
  ultimately show ?thesis by (rule life_inv_singleton)
qed

lemma life_inv_collection:
  assumes "mmtk_initialize_collection E K t s = Inr s'" "life_inv s"
  shows "life_inv s'"
proof (cases "IS_MMTK_REINITIALIZING (fst s)")
  case False
  then obtain g w where "singleton E K s = Inr (g, w)" "s' = (g, core_initialize_collection K t w)"
    using assms(1) by (auto simp: mmtk_initialize_collection_def and_then_eq_Inr)
  then show ?thesis using life_inv_singleton [OF _ assms(2)] by (fastforce simp: life_inv_def)
qed (use assms in \<open>simp add: mmtk_initialize_collection_def and_then_eq_Inr\<close>)

lemma life_inv_step: "life_step E F K s s' \<Longrightarrow> life_inv s \<Longrightarrow> life_inv s'"
proof (induction rule: life_step.induct)
  case (life_heap mn mx gl util minf maxf mult g ok g' w)
  then show ?case by (auto simp: mmtk_set_heap_size_def life_inv_def Let_def split: prod.splits)
qed (auto dest: life_inv_singleton life_inv_init life_inv_collection
    simp: life_inv_def mmtk_set_runtime_pointer_size_def)

definition life_initial :: "'b globals \<times> 'w \<Rightarrow> bool" where
  "life_initial s \<longleftrightarrow> (\<exists>b w. s = (initial_globals b, w))"

lemma life_inv_initial: "life_initial s \<Longrightarrow> life_inv s"
  by (auto simp: life_initial_def life_inv_def initial_globals_def)

interpretation lifecycle: machine life_initial "life_step E F K" life_inv for E F K
  by unfold_locales (blast intro: life_inv_initial life_inv_step)+

text \<open>
  C22. In every reachable state the initialization flag says exactly whether the MMTk instance exists,
  and re-initialization is flagged only once it does; so evaluating the lazy static can never hit
  its own assertion.
\<close>

theorem initialized_iff_singleton:
  assumes "life_initial s" "(life_step E F K)\<^sup>*\<^sup>* s (g, w)"
  shows "(IS_MMTK_INITIALIZED g \<longleftrightarrow> SINGLETON g) \<and> (IS_MMTK_REINITIALIZING g \<longrightarrow> IS_MMTK_INITIALIZED g) \<and>
    singleton E K (g, w) \<noteq> Inl (Assert ''!IS_MMTK_INITIALIZED'')"
proof -
  have inv: "life_inv (g, w)" using lifecycle.inv_reachable [OF assms] .
  have "vm_layout E (TRIGGER_INIT g) \<noteq> Inl (Assert ''!IS_MMTK_INITIALIZED'')"
    by (auto simp: vm_layout_def and_then_eq_Inl assert_true_def add_chk_def mul_chk_def Let_def split: if_splits)
  with inv show ?thesis
    by (auto simp: life_inv_def singleton_def set_vm_layout_def and_then_eq_Inl assert_true_def Let_def split: if_splits)
qed

text \<open>
  Initializing MMTk again is harmless for an application process: nothing but the
  re-initialization flag changes, and the collection is not initialized a second time; the Zygote
  process is refused with a panic.
\<close>

lemma mmtk_init_again:
  assumes "IS_MMTK_INITIALIZED g"
  shows "mmtk_init E K u plan True (g, w) = Inl (Assert ''!IS_MMTK_INITIALIZED || !is_zygote_process'') \<and>
    mmtk_init E K u plan False (g, w) = Inr (g\<lparr>IS_MMTK_REINITIALIZING := True\<rparr>, w) \<and>
    mmtk_initialize_collection E K t (g\<lparr>IS_MMTK_REINITIALIZING := True\<rparr>, w) =
      Inr (g\<lparr>IS_MMTK_REINITIALIZING := True\<rparr>, w)"
  using assms by (simp add: mmtk_init_def mmtk_initialize_collection_def assert_true_def)

text \<open>
  C37. A call that uses the MMTk instance before \<^verbatim>\<open>mmtk_init\<close> creates it, with no upcalls set; the
  later \<^verbatim>\<open>mmtk_init\<close> then takes the re-initialization path and the upcalls stay null.
\<close>

theorem early_use_loses_upcalls:
  assumes "singleton E K (initial_globals b, w) = Inr s"
    "mmtk_init E K u plan False s = Inr s'"
  shows "UPCALLS (fst s') = 0 \<and> IS_MMTK_REINITIALIZING (fst s')"
  using assms
  by (auto simp: singleton_def mmtk_init_def initial_globals_def and_then_eq_Inr Let_def)

section \<open>From the heap size to the trigger\<close>

text \<open>The maximum that \<^verbatim>\<open>mmtk_set_heap_size\<close> stores: a fixed one in the benchmarking build.\<close>

definition heap_maximum :: "features \<Rightarrow> usize \<Rightarrow> usize" where
  "heap_maximum F mx = (if ss_no_gc_in_harness F then 2 ^ 30 else mx)"


section \<open>Concrete runs\<close>

text \<open>A builder that records whether the process is the Zygote, and an instance without state.\<close>

definition sample_core :: "(bool, unit) builder_core" where
  "sample_core =
     \<lparr>is_nursery_collection = (\<lambda>w. False), is_emergency_collection = (\<lambda>w. False),
      is_zygote_process = (\<lambda>w. False), builder_set_plan = (\<lambda>p b. (True, b)),
      builder_set_is_zygote_process = (\<lambda>z b. (True, z)), builder_is_zygote_process = (\<lambda>b. b),
      builder_set_gc_trigger = (\<lambda>t b. (True, b)), builder_set_vm_layout = (\<lambda>l b. b),
      core_mmtk_init = (\<lambda>b w. w), core_initialize_collection = (\<lambda>t w. w)\<rparr>"

definition sample_features :: features where
  "sample_features = \<lparr>simple_scan_object = False, single_worker = False, ss_no_gc_in_harness = False\<rparr>"

definition half_gb :: ArtTriggerInit where
  "half_gb = default_trigger_init\<lparr>init_capacity := 0x20000000\<rparr>"

theorem vm_layout_bounds_witness:
  "\<exists>l. vm_layout concrete_env half_gb = Inr l \<and> heap_start l = 0x400000 \<and> unat (heap_end l) \<le> 2 ^ 32"
  using vm_layout_bounds [OF concrete_env_laws(5), of half_gb] by (auto simp: half_gb_def)

theorem vm_layout_past_boot_image_witness:
  "\<exists>l. vm_layout concrete_env (default_trigger_init\<lparr>init_capacity := 0x6FC00000\<rparr>) = Inr l \<and>
     0x70000000 < unat (heap_end l)"
  by (rule vm_layout_past_boot_image [OF concrete_env_laws(5)]) simp_all

lemma sample_layout: "\<exists>l. vm_layout concrete_env default_trigger_init = Inr l"
  using vm_layout_value [OF concrete_env_laws(5), of default_trigger_init] by (simp add: default_trigger_init_def)

lemma sample_singleton:
  "singleton concrete_env sample_core (initial_globals z, ()) =
     Inr ((initial_globals z)\<lparr>IS_MMTK_INITIALIZED := True, SINGLETON := True\<rparr>, ())"
  using sample_layout by (auto simp: singleton_def set_vm_layout_def sample_core_def initial_globals_def)

lemma sample_init:
  "mmtk_init concrete_env sample_core 0x9000 0 False (initial_globals False, ()) =
     Inr ((initial_globals False)\<lparr>UPCALLS := 0x9000, IS_MMTK_INITIALIZED := True, SINGLETON := True\<rparr>, ())"
  using sample_layout
  by (auto simp: mmtk_init_def singleton_def set_vm_layout_def sample_core_def initial_globals_def)

theorem initialized_iff_singleton_witness:
  "\<exists>g. (life_step concrete_env sample_features sample_core)\<^sup>*\<^sup>* (initial_globals False, ()) (g, ()) \<and>
     UPCALLS g = 0x9000 \<and> IS_MMTK_INITIALIZED g \<and> SINGLETON g"
proof -
  let ?g = "(initial_globals False)\<lparr>UPCALLS := 0x9000, IS_MMTK_INITIALIZED := True, SINGLETON := True\<rparr>"
  have run: "(life_step concrete_env sample_features sample_core)\<^sup>*\<^sup>* (initial_globals False, ()) (?g, ())"
    by (rule r_into_rtranclp) (rule life_step.life_init [OF sample_init])
  have "life_initial (initial_globals False, ())" by (auto simp: life_initial_def)
  from initialized_iff_singleton [OF this run] run show ?thesis by auto
qed

theorem early_use_loses_upcalls_witness:
  "\<exists>s s'. singleton concrete_env sample_core (initial_globals False, ()) = Inr s \<and>
     mmtk_init concrete_env sample_core 0x9000 0 False s = Inr s' \<and> UPCALLS (fst s') = 0"
proof -
  let ?s = "((initial_globals False)\<lparr>IS_MMTK_INITIALIZED := True, SINGLETON := True\<rparr>, ())"
  obtain s' where "mmtk_init concrete_env sample_core 0x9000 0 False ?s = Inr s'"
    by (simp add: mmtk_init_def)
  with early_use_loses_upcalls [OF sample_singleton this] sample_singleton show ?thesis by blast
qed


end
