(* ===== verification/Api.thy ===== *)
theory Api
  imports Lifecycle
begin

text \<open>
  The remaining functions of \<^verbatim>\<open>api.rs\<close>, the C interface of the binding: heap limits, mutators and
  allocation, queries about objects and the heap, the image space, collections, write barriers,
  and the hooks around forking. Each is the checks the function makes, the use of the MMTk
  instance and the call into mmtk-core, whose functions are a record of parameters.
\<close>

section \<open>The interface of mmtk-core\<close>

datatype AllocationSemantics = Default_Semantics | Other_Semantics nat

text \<open>The selectors the source distinguishes; every other one is \<open>Other_Selector\<close>.\<close>

datatype AllocatorSelector = Bump_Selector nat | Immix_Selector nat | Other_Selector nat

record BumpPointer =
  bump_cursor :: addr
  bump_limit :: addr

record ('b, 'w) core = "('b, 'w) builder_core" +
  core_allocated_regions :: "'w \<Rightarrow> (addr \<times> usize \<times> usize) \<times> 'w"
  core_large_objects :: "'w \<Rightarrow> (addr \<times> usize \<times> usize) \<times> 'w"
  core_clamp_max_heap_size :: "usize \<Rightarrow> 'w \<Rightarrow> bool \<times> 'w"
  core_set_is_jank_perceptible :: "bool \<Rightarrow> 'w \<Rightarrow> 'w"
  core_grow_heap_size_for_event :: "'w \<Rightarrow> 'w"
  core_clamp_growth_limit :: "'w \<Rightarrow> 'w"
  core_clear_growth_limit :: "'w \<Rightarrow> 'w"
  core_start_worker :: "tls \<Rightarrow> addr \<Rightarrow> 'w \<Rightarrow> 'w"
  core_bind_mutator :: "tls \<Rightarrow> 'w \<Rightarrow> mutator \<times> 'w"
  core_flush_mutator :: "mutator \<Rightarrow> 'w \<Rightarrow> 'w"
  core_destroy_mutator :: "mutator \<Rightarrow> 'w \<Rightarrow> 'w"
  core_alloc :: "mutator \<Rightarrow> usize \<Rightarrow> usize \<Rightarrow> usize \<Rightarrow> AllocationSemantics \<Rightarrow> 'w \<Rightarrow> addr \<times> 'w"
  core_post_alloc :: "mutator \<Rightarrow> objref \<Rightarrow> usize \<Rightarrow> AllocationSemantics \<Rightarrow> 'w \<Rightarrow> 'w"
  core_allocator_mapping :: "AllocationSemantics \<Rightarrow> 'w \<Rightarrow> AllocatorSelector"
  core_bump_pointer :: "mutator \<Rightarrow> AllocatorSelector \<Rightarrow> 'w \<Rightarrow> BumpPointer"
  core_set_bump_pointer :: "mutator \<Rightarrow> AllocatorSelector \<Rightarrow> BumpPointer \<Rightarrow> 'w \<Rightarrow> 'w"
  core_is_in_mmtk_spaces :: "objref \<Rightarrow> 'w \<Rightarrow> bool"
  core_is_reachable :: "objref \<Rightarrow> 'w \<Rightarrow> bool"
  core_is_live :: "objref \<Rightarrow> 'w \<Rightarrow> bool"
  core_is_movable :: "objref \<Rightarrow> 'w \<Rightarrow> bool"
  core_potential_forwarded_object :: "objref \<Rightarrow> 'w \<Rightarrow> addr"
  core_forwarded_object :: "objref \<Rightarrow> 'w \<Rightarrow> objref option"
  core_pin_object :: "objref \<Rightarrow> 'w \<Rightarrow> bool \<times> 'w"
  core_is_pinned :: "objref \<Rightarrow> 'w \<Rightarrow> bool"
  core_starting_heap_address :: "'w \<Rightarrow> addr"
  core_last_heap_address :: "'w \<Rightarrow> addr"
  core_total_bytes :: "'w \<Rightarrow> usize"
  core_free_bytes :: "'w \<Rightarrow> usize"
  core_used_bytes :: "'w \<Rightarrow> usize"
  core_num_of_workers :: "'w \<Rightarrow> usize"
  core_set_vm_space :: "addr \<Rightarrow> usize \<Rightarrow> 'w \<Rightarrow> 'w"
  core_remove_vm_space :: "addr \<Rightarrow> usize \<Rightarrow> 'w \<Rightarrow> 'w"
  core_user_collection :: "tls \<Rightarrow> bool \<Rightarrow> bool \<Rightarrow> 'w \<Rightarrow> bool \<times> 'w"
  core_pre_first_zygote_fork_collection :: "tls \<Rightarrow> 'w \<Rightarrow> 'w"
  core_has_zygote_space :: "'w \<Rightarrow> bool"
  core_write_pre :: "mutator \<Rightarrow> objref \<Rightarrow> ArtSlot \<Rightarrow> objref option \<Rightarrow> 'w \<Rightarrow> 'w"
  core_write_post :: "mutator \<Rightarrow> objref \<Rightarrow> ArtSlot \<Rightarrow> objref option \<Rightarrow> 'w \<Rightarrow> 'w"
  core_region_copy_pre :: "mutator \<Rightarrow> ArtMemorySlice \<Rightarrow> ArtMemorySlice \<Rightarrow> 'w \<Rightarrow> 'w"
  core_region_copy_post :: "mutator \<Rightarrow> ArtMemorySlice \<Rightarrow> ArtMemorySlice \<Rightarrow> 'w \<Rightarrow> 'w"
  core_set_is_zygote_process :: "bool \<Rightarrow> 'w \<Rightarrow> 'w"
  core_prepare_to_fork :: "'w \<Rightarrow> 'w"
  core_after_fork :: "tls \<Rightarrow> 'w \<Rightarrow> 'w"
  core_create_perf_counters :: "'w \<Rightarrow> 'w"
  core_harness_begin :: "tls \<Rightarrow> 'w \<Rightarrow> 'w"
  core_harness_end :: "'w \<Rightarrow> 'w"
  llvm_profile_write_file :: "'w \<Rightarrow> i32 \<times> 'w"

type_synonym ('b, 'w) gstate = "'b globals \<times> 'w"

text \<open>Acting on the MMTk instance, asking it, and asking it with an effect.\<close>

definition on_mmtk ::
  "'w env \<Rightarrow> ('b, 'w, 'z) core_scheme \<Rightarrow> ('w \<Rightarrow> 'w) \<Rightarrow> ('b, 'w) gstate \<Rightarrow> ('b, 'w) gstate res" where
  "on_mmtk E K f s = and_then (singleton E K s) (\<lambda>(g, w). Inr (g, f w))"

definition ask_mmtk ::
  "'w env \<Rightarrow> ('b, 'w, 'z) core_scheme \<Rightarrow> ('w \<Rightarrow> 'r) \<Rightarrow> ('b, 'w) gstate \<Rightarrow> ('r \<times> ('b, 'w) gstate) res" where
  "ask_mmtk E K q s = and_then (singleton E K s) (\<lambda>(g, w). Inr (q w, g, w))"

definition call_mmtk ::
  "'w env \<Rightarrow> ('b, 'w, 'z) core_scheme \<Rightarrow> ('w \<Rightarrow> 'r \<times> 'w) \<Rightarrow> ('b, 'w) gstate \<Rightarrow> ('r \<times> ('b, 'w) gstate) res" where
  "call_mmtk E K f s = and_then (singleton E K s) (\<lambda>(g, w). let (r, w') = f w in Inr (r, g, w'))"

definition check_initialized :: "'w env \<Rightarrow> ('b, 'w) gstate \<Rightarrow> unit res" where
  "check_initialized E s = debug_assert E ''IS_MMTK_INITIALIZED'' (Inr (IS_MMTK_INITIALIZED (fst s)))"

section \<open>Heap limits\<close>

definition mmtk_clamp_max_heap_size ::
  "'w env \<Rightarrow> ('b, 'w, 'z) core_scheme \<Rightarrow> usize \<Rightarrow> ('b, 'w) gstate \<Rightarrow> (bool \<times> ('b, 'w) gstate) res" where
  "mmtk_clamp_max_heap_size E K maximum s = call_mmtk E K (core_clamp_max_heap_size K maximum) s"

definition mmtk_set_is_jank_perceptible ::
  "'w env \<Rightarrow> ('b, 'w, 'z) core_scheme \<Rightarrow> bool \<Rightarrow> ('b, 'w) gstate \<Rightarrow> ('b, 'w) gstate res" where
  "mmtk_set_is_jank_perceptible E K jank s = on_mmtk E K (core_set_is_jank_perceptible K jank) s"

definition mmtk_grow_heap_on_jank_perceptible_switch ::
  "'w env \<Rightarrow> ('b, 'w, 'z) core_scheme \<Rightarrow> ('b, 'w) gstate \<Rightarrow> ('b, 'w) gstate res" where
  "mmtk_grow_heap_on_jank_perceptible_switch E K s = on_mmtk E K (core_grow_heap_size_for_event K) s"

definition mmtk_clamp_growth_limit ::
  "'w env \<Rightarrow> ('b, 'w, 'z) core_scheme \<Rightarrow> ('b, 'w) gstate \<Rightarrow> ('b, 'w) gstate res" where
  "mmtk_clamp_growth_limit E K s = on_mmtk E K (core_clamp_growth_limit K) s"

definition mmtk_clear_growth_limit ::
  "'w env \<Rightarrow> ('b, 'w, 'z) core_scheme \<Rightarrow> ('b, 'w) gstate \<Rightarrow> ('b, 'w) gstate res" where
  "mmtk_clear_growth_limit E K s = on_mmtk E K (core_clear_growth_limit K) s"

section \<open>Vectors handed to ART\<close>

definition mmtk_iterate_allocated_regions ::
  "'w env \<Rightarrow> ('b, 'w, 'z) core_scheme \<Rightarrow> vec_state \<Rightarrow> ('b, 'w) gstate
     \<Rightarrow> (RustAllocatedRegionBuffer \<times> vec_state \<times> ('b, 'w) gstate) res" where
  "mmtk_iterate_allocated_regions E K v s =
     and_then (call_mmtk E K (core_allocated_regions K) s) (\<lambda>((ptr, len, cap), s').
     Inr (\<lparr>regions_ptr = ptr, regions_len = len, regions_capacity = cap\<rparr>, lend_vec Region_Elem ptr cap v, s'))"

definition mmtk_enumerate_large_objects ::
  "'w env \<Rightarrow> ('b, 'w, 'z) core_scheme \<Rightarrow> vec_state \<Rightarrow> ('b, 'w) gstate
     \<Rightarrow> (RustObjectReferenceBuffer \<times> vec_state \<times> ('b, 'w) gstate) res" where
  "mmtk_enumerate_large_objects E K v s =
     and_then (call_mmtk E K (core_large_objects K) s) (\<lambda>((ptr, len, cap), s').
     Inr (\<lparr>objects_ptr = ptr, objects_len = len, objects_capacity = cap\<rparr>, lend_vec Word_Elem ptr cap v, s'))"

section \<open>Workers, mutators and allocation\<close>

definition mmtk_start_gc_worker_thread ::
  "'w env \<Rightarrow> ('b, 'w, 'z) core_scheme \<Rightarrow> tls \<Rightarrow> addr \<Rightarrow> ('b, 'w) gstate \<Rightarrow> ('b, 'w) gstate res" where
  "mmtk_start_gc_worker_thread E K t worker s =
     and_then (check_initialized E s) (\<lambda>_. on_mmtk E K (core_start_worker K t worker) s)"

definition mmtk_bind_mutator ::
  "'w env \<Rightarrow> ('b, 'w, 'z) core_scheme \<Rightarrow> tls \<Rightarrow> ('b, 'w) gstate \<Rightarrow> (mutator \<times> ('b, 'w) gstate) res" where
  "mmtk_bind_mutator E K t s =
     and_then (check_initialized E s) (\<lambda>_. call_mmtk E K (core_bind_mutator K t) s)"

definition mmtk_flush_mutator ::
  "'w env \<Rightarrow> ('b, 'w, 'z) core_scheme \<Rightarrow> mutator \<Rightarrow> ('b, 'w) gstate \<Rightarrow> ('b, 'w) gstate res" where
  "mmtk_flush_mutator E K mu s =
     and_then (check_initialized E s) (\<lambda>_. Inr (fst s, core_flush_mutator K mu (snd s)))"

definition mmtk_destroy_mutator ::
  "'w env \<Rightarrow> ('b, 'w, 'z) core_scheme \<Rightarrow> mutator \<Rightarrow> ('b, 'w) gstate \<Rightarrow> ('b, 'w) gstate res" where
  "mmtk_destroy_mutator E K mu s =
     and_then (check_initialized E s) (\<lambda>_. Inr (fst s, core_destroy_mutator K mu (snd s)))"

definition mmtk_alloc ::
  "'w env \<Rightarrow> ('b, 'w, 'z) core_scheme \<Rightarrow> mutator \<Rightarrow> usize \<Rightarrow> usize \<Rightarrow> usize \<Rightarrow> AllocationSemantics
     \<Rightarrow> ('b, 'w) gstate \<Rightarrow> (addr \<times> ('b, 'w) gstate) res" where
  "mmtk_alloc E K mu sz alignment off allocator s =
     and_then (check_initialized E s) (\<lambda>_.
     let (a, w) = core_alloc K mu sz alignment off allocator (snd s) in Inr (a, fst s, w))"

definition mmtk_post_alloc ::
  "'w env \<Rightarrow> ('b, 'w, 'z) core_scheme \<Rightarrow> mutator \<Rightarrow> objref \<Rightarrow> usize \<Rightarrow> AllocationSemantics
     \<Rightarrow> ('b, 'w) gstate \<Rightarrow> ('b, 'w) gstate res" where
  "mmtk_post_alloc E K mu object sz allocator s =
     and_then (check_initialized E s) (\<lambda>_. Inr (fst s, core_post_alloc K mu object sz allocator (snd s)))"

definition mmtk_set_default_thread_local_cursor_limit ::
  "'w env \<Rightarrow> ('b, 'w, 'z) core_scheme \<Rightarrow> mutator \<Rightarrow> BumpPointer \<Rightarrow> ('b, 'w) gstate \<Rightarrow> ('b, 'w) gstate res" where
  "mmtk_set_default_thread_local_cursor_limit E K mu bump_pointer s =
     and_then (check_initialized E s) (\<lambda>_.
     and_then (ask_mmtk E K (core_allocator_mapping K Default_Semantics) s) (\<lambda>(selector, g, w).
     if selector = Bump_Selector 0 then Inr (g, core_set_bump_pointer K mu selector bump_pointer w)
     else if selector = Immix_Selector 0 then Inr (g, core_set_bump_pointer K mu selector bump_pointer w)
     else Inl (Panic ''No support for thread-local allocation for selector'')))"

definition mmtk_get_default_thread_local_cursor_limit ::
  "'w env \<Rightarrow> ('b, 'w, 'z) core_scheme \<Rightarrow> mutator \<Rightarrow> ('b, 'w) gstate \<Rightarrow> (BumpPointer \<times> ('b, 'w) gstate) res" where
  "mmtk_get_default_thread_local_cursor_limit E K mu s =
     and_then (check_initialized E s) (\<lambda>_.
     and_then (ask_mmtk E K (core_allocator_mapping K Default_Semantics) s) (\<lambda>(selector, g, w).
     if selector = Bump_Selector 0 then Inr (core_bump_pointer K mu selector w, g, w)
     else if selector = Immix_Selector 0 then Inr (core_bump_pointer K mu selector w, g, w)
     else Inl (Panic ''No support for thread-local allocation for selector'')))"

section \<open>Objects\<close>

definition mmtk_is_object_in_heap_space :: "('b, 'w, 'z) core_scheme \<Rightarrow> objref option \<Rightarrow> 'w \<Rightarrow> bool" where
  "mmtk_is_object_in_heap_space K object w =
     (case object of Some ob \<Rightarrow> core_is_in_mmtk_spaces K ob w | None \<Rightarrow> False)"

definition mmtk_is_object_marked :: "('b, 'w, 'z) core_scheme \<Rightarrow> objref option \<Rightarrow> 'w \<Rightarrow> bool" where
  "mmtk_is_object_marked K object w = (case object of Some ob \<Rightarrow> core_is_reachable K ob w | None \<Rightarrow> False)"

definition mmtk_is_object_live :: "('b, 'w, 'z) core_scheme \<Rightarrow> objref option \<Rightarrow> 'w \<Rightarrow> bool" where
  "mmtk_is_object_live K object w = (case object of Some ob \<Rightarrow> core_is_live K ob w | None \<Rightarrow> False)"

definition mmtk_is_object_movable :: "('b, 'w, 'z) core_scheme \<Rightarrow> objref option \<Rightarrow> 'w \<Rightarrow> bool" where
  "mmtk_is_object_movable K object w = (case object of Some ob \<Rightarrow> core_is_movable K ob w | None \<Rightarrow> False)"

definition mmtk_is_object_forwarded :: "('b, 'w, 'z) core_scheme \<Rightarrow> objref option \<Rightarrow> 'w \<Rightarrow> bool" where
  "mmtk_is_object_forwarded K object w =
     (case object of Some ob \<Rightarrow> core_potential_forwarded_object K ob w \<noteq> 0 | None \<Rightarrow> False)"

definition mmtk_get_forwarded_object ::
  "('b, 'w, 'z) core_scheme \<Rightarrow> objref option \<Rightarrow> 'w \<Rightarrow> objref option" where
  "mmtk_get_forwarded_object K object w =
     (case object of Some ob \<Rightarrow> core_forwarded_object K ob w | None \<Rightarrow> None)"

definition mmtk_pin_object :: "('b, 'w, 'z) core_scheme \<Rightarrow> objref \<Rightarrow> 'w \<Rightarrow> bool \<times> 'w" where
  "mmtk_pin_object K object w = core_pin_object K object w"

definition mmtk_is_object_pinned :: "('b, 'w, 'z) core_scheme \<Rightarrow> objref \<Rightarrow> 'w \<Rightarrow> bool" where
  "mmtk_is_object_pinned K object w = core_is_pinned K object w"

section \<open>The heap\<close>

definition mmtk_get_heap_start :: "('b, 'w, 'z) core_scheme \<Rightarrow> 'w \<Rightarrow> addr" where
  "mmtk_get_heap_start K w = core_starting_heap_address K w"

definition mmtk_get_heap_end :: "('b, 'w, 'z) core_scheme \<Rightarrow> 'w \<Rightarrow> addr" where
  "mmtk_get_heap_end K w = core_last_heap_address K w"

definition mmtk_get_total_bytes ::
  "'w env \<Rightarrow> ('b, 'w, 'z) core_scheme \<Rightarrow> ('b, 'w) gstate \<Rightarrow> (usize \<times> ('b, 'w) gstate) res" where
  "mmtk_get_total_bytes E K s = ask_mmtk E K (core_total_bytes K) s"

definition mmtk_get_free_bytes ::
  "'w env \<Rightarrow> ('b, 'w, 'z) core_scheme \<Rightarrow> ('b, 'w) gstate \<Rightarrow> (usize \<times> ('b, 'w) gstate) res" where
  "mmtk_get_free_bytes E K s = ask_mmtk E K (core_free_bytes K) s"

definition mmtk_get_used_bytes ::
  "'w env \<Rightarrow> ('b, 'w, 'z) core_scheme \<Rightarrow> ('b, 'w) gstate \<Rightarrow> (usize \<times> ('b, 'w) gstate) res" where
  "mmtk_get_used_bytes E K s = ask_mmtk E K (core_used_bytes K) s"

definition mmtk_get_number_of_workers ::
  "'w env \<Rightarrow> ('b, 'w, 'z) core_scheme \<Rightarrow> ('b, 'w) gstate \<Rightarrow> (u32 \<times> ('b, 'w) gstate) res" where
  "mmtk_get_number_of_workers E K s = ask_mmtk E K (\<lambda>w. ucast (core_num_of_workers K w)) s"

definition mmtk_set_image_space ::
  "'w env \<Rightarrow> ('b, 'w, 'z) core_scheme \<Rightarrow> addr \<Rightarrow> usize \<Rightarrow> ('b, 'w) gstate \<Rightarrow> ('b, 'w) gstate res" where
  "mmtk_set_image_space E K start sz s =
     and_then (check_initialized E s) (\<lambda>_. on_mmtk E K (core_set_vm_space K start sz) s)"

definition mmtk_remove_image_space ::
  "'w env \<Rightarrow> ('b, 'w, 'z) core_scheme \<Rightarrow> addr \<Rightarrow> usize \<Rightarrow> ('b, 'w) gstate \<Rightarrow> ('b, 'w) gstate res" where
  "mmtk_remove_image_space E K start sz s =
     and_then (check_initialized E s) (\<lambda>_. on_mmtk E K (core_remove_vm_space K start sz) s)"

section \<open>Collections\<close>

definition mmtk_handle_user_collection_request ::
  "'w env \<Rightarrow> ('b, 'w, 'z) core_scheme \<Rightarrow> tls \<Rightarrow> bool \<Rightarrow> bool \<Rightarrow> ('b, 'w) gstate
     \<Rightarrow> (bool \<times> ('b, 'w) gstate) res" where
  "mmtk_handle_user_collection_request E K t force exhaustive s =
     and_then (check_initialized E s) (\<lambda>_. call_mmtk E K (core_user_collection K t force exhaustive) s)"

text \<open>
  The one function of the interface that itself calls back into ART. Calling through the table of
  upcalls while it is still null is undefined behaviour, the value \<open>None\<close>.
\<close>

definition mmtk_handle_pre_first_zygote_fork_collection_request ::
  "'w env \<Rightarrow> ('b, 'w, 'z) core_scheme \<Rightarrow> tls \<Rightarrow> ('b, 'w) gstate \<Rightarrow> ('b, 'w) gstate res option" where
  "mmtk_handle_pre_first_zygote_fork_collection_request E K t s =
     (case and_then (check_initialized E s)
            (\<lambda>_. on_mmtk E K (core_pre_first_zygote_fork_collection K t) s) of
        Inl p \<Rightarrow> Some (Inl p)
      | Inr (g, w) \<Rightarrow>
          if UPCALLS g = 0 then None
          else Some (Inr (g, set_has_zygote_space_in_art (upcalls E) (core_has_zygote_space K w) w)))"

definition mmtk_is_emergency_collection ::
  "'w env \<Rightarrow> ('b, 'w, 'z) core_scheme \<Rightarrow> ('b, 'w) gstate \<Rightarrow> (bool \<times> ('b, 'w) gstate) res" where
  "mmtk_is_emergency_collection E K s = ask_mmtk E K (is_emergency_collection K) s"

definition mmtk_is_nursery_collection ::
  "'w env \<Rightarrow> ('b, 'w, 'z) core_scheme \<Rightarrow> ('b, 'w) gstate \<Rightarrow> (bool \<times> ('b, 'w) gstate) res" where
  "mmtk_is_nursery_collection E K s = ask_mmtk E K (is_nursery_collection K) s"

section \<open>Write barriers\<close>

definition mmtk_object_reference_write_pre ::
  "('b, 'w, 'z) core_scheme \<Rightarrow> mutator \<Rightarrow> objref \<Rightarrow> ArtSlot \<Rightarrow> objref option \<Rightarrow> 'w \<Rightarrow> 'w" where
  "mmtk_object_reference_write_pre K mu src slot target w = core_write_pre K mu src slot target w"

text \<open>The assertions read the heap \<open>m\<close>.\<close>

definition mmtk_object_reference_write_post ::
  "'w env \<Rightarrow> ('b, 'w, 'z) core_scheme \<Rightarrow> mem \<Rightarrow> mutator \<Rightarrow> objref \<Rightarrow> ArtSlot \<Rightarrow> objref option \<Rightarrow> 'w \<Rightarrow> 'w res" where
  "mmtk_object_reference_write_post E K m mu src slot target w =
     and_then (debug_assert E ''src is not a sane object'' (Inr (is_object_sane E m src))) (\<lambda>_.
     and_then (debug_assert E ''slot is not aligned to 4-bytes''
                 (Inr (is_aligned_to E (slot_as_address slot) 4))) (\<lambda>_.
     and_then (debug_assert E ''slot is not within src''
                 (or_else (Inr (slot_as_address slot = 0))
                   (and_also (Inr (src \<le> slot_as_address slot))
                     (and_then (get_object_size E m src) (\<lambda>n. Inr (slot_as_address slot < src + n)))))) (\<lambda>_.
     and_then (debug_assert E ''target is not a sane object''
                 (Inr (case target of None \<Rightarrow> True | Some ob \<Rightarrow> is_object_sane E m ob))) (\<lambda>_.
     Inr (core_write_post K mu src slot target w)))))"

definition mmtk_array_copy_pre ::
  "('b, 'w, 'z) core_scheme \<Rightarrow> mutator \<Rightarrow> addr \<Rightarrow> addr \<Rightarrow> usize \<Rightarrow> 'w \<Rightarrow> 'w" where
  "mmtk_array_copy_pre K mu src dst n w =
     (let bytes = push_bit LOG_BYTES_IN_SLOT n
      in core_region_copy_pre K mu (slice_from_range src (src + bytes)) (slice_from_range dst (dst + bytes)) w)"

text \<open>
  A \<^verbatim>\<open>for\<close> loop over an iterator whose body may panic and keeps a state of its own; \<open>None\<close> means
  that the loop does not end.
\<close>

partial_function (option) for_each ::
  "('s \<Rightarrow> ('a \<times> 's) option) \<Rightarrow> ('a \<Rightarrow> 'c \<Rightarrow> 'c res) \<Rightarrow> 'c \<Rightarrow> 's \<Rightarrow> 'c res option" where
  "for_each nxt body c it =
     (case nxt it of
        None \<Rightarrow> Some (Inr c)
      | Some (x, it') \<Rightarrow>
          (case body x c of Inl p \<Rightarrow> Some (Inl p) | Inr c' \<Rightarrow> for_each nxt body c' it'))"

text \<open>The body of the two checking loops of the debug build.\<close>

definition check_src_slot :: "'w env \<Rightarrow> ArtSlot \<Rightarrow> unit \<Rightarrow> unit res" where
  "check_src_slot E a _ =
     debug_assert E ''source address is not aligned to 4-bytes'' (Inr (is_aligned_to E (slot_as_address a) 4))"

text \<open>
  The index \<^verbatim>\<open>idx\<close> is an \<^verbatim>\<open>i32\<close>: the cast to \<^verbatim>\<open>usize\<close> extends its sign, and its increment overflows
  at the largest positive value.
\<close>

definition i32_incr :: "'b build_scheme \<Rightarrow> i32 \<Rightarrow> i32 res" where
  "i32_incr B i = (if overflow_checks B \<and> i = 0x7FFFFFFF then Inl Overflow else Inr (i + 1))"

definition check_dst_slot ::
  "'w env \<Rightarrow> mem \<Rightarrow> addr \<Rightarrow> addr \<Rightarrow> usize \<Rightarrow> ArtSlot \<Rightarrow> i32 \<Rightarrow> i32 res" where
  "check_dst_slot E m src dst n dst_addr idx =
     and_then (debug_assert E ''destination address is not aligned to 4-bytes''
                 (Inr (is_aligned_to E (slot_as_address dst_addr) 4))) (\<lambda>_.
     let overlapping = (dst < src + push_bit LOG_BYTES_IN_SLOT n \<or> src < dst + push_bit LOG_BYTES_IN_SLOT n)
     in if src \<noteq> 0 \<and> \<not> overlapping then
          let src_addr = ArtSlot (src + scast (push_bit LOG_BYTES_IN_SLOT idx)) in
          and_then (debug_assert E ''destination does not have same value as source''
                      (Inr (slot_load E m dst_addr = slot_load E m src_addr))) (\<lambda>_.
          i32_incr E idx)
        else Inr idx)"

definition mmtk_array_copy_post ::
  "'w env \<Rightarrow> ('b, 'w, 'z) core_scheme \<Rightarrow> mem \<Rightarrow> mutator \<Rightarrow> addr \<Rightarrow> addr \<Rightarrow> usize \<Rightarrow> 'w \<Rightarrow> 'w res option" where
  "mmtk_array_copy_post E K m mu src dst n w =
     (let bytes = push_bit LOG_BYTES_IN_SLOT n;
          src_slice = slice_from_range src (src + bytes);
          dst_slice = slice_from_range dst (dst + bytes);
          barrier = Inr (core_region_copy_post K mu src_slice dst_slice w)
      in if debug_assertions E then
           (case for_each slot_iterator_next (check_src_slot E) () (iter_slots src_slice) of
              None \<Rightarrow> None
            | Some (Inl p) \<Rightarrow> Some (Inl p)
            | Some (Inr _) \<Rightarrow>
                (case for_each slot_iterator_next (check_dst_slot E m src dst n) 0 (iter_slots dst_slice) of
                   None \<Rightarrow> None
                 | Some (Inl p) \<Rightarrow> Some (Inl p)
                 | Some (Inr _) \<Rightarrow> Some barrier))
         else Some barrier)"

section \<open>Processes, statistics and profiles\<close>

definition mmtk_set_is_zygote_process ::
  "'w env \<Rightarrow> ('b, 'w, 'z) core_scheme \<Rightarrow> bool \<Rightarrow> ('b, 'w) gstate \<Rightarrow> ('b, 'w) gstate res" where
  "mmtk_set_is_zygote_process E K z s = on_mmtk E K (core_set_is_zygote_process K z) s"

definition mmtk_is_zygote_process ::
  "'w env \<Rightarrow> ('b, 'w, 'z) core_scheme \<Rightarrow> ('b, 'w) gstate \<Rightarrow> (bool \<times> ('b, 'w) gstate) res" where
  "mmtk_is_zygote_process E K s = ask_mmtk E K (is_zygote_process K) s"

definition mmtk_pre_zygote_fork ::
  "'w env \<Rightarrow> ('b, 'w, 'z) core_scheme \<Rightarrow> ('b, 'w) gstate \<Rightarrow> ('b, 'w) gstate res" where
  "mmtk_pre_zygote_fork E K s = on_mmtk E K (core_prepare_to_fork K) s"

definition mmtk_post_zygote_fork ::
  "'w env \<Rightarrow> ('b, 'w, 'z) core_scheme \<Rightarrow> tls \<Rightarrow> ('b, 'w) gstate \<Rightarrow> ('b, 'w) gstate res" where
  "mmtk_post_zygote_fork E K t s = on_mmtk E K (core_after_fork K t) s"

definition mmtk_create_perf_counters ::
  "'w env \<Rightarrow> ('b, 'w, 'z) core_scheme \<Rightarrow> ('b, 'w) gstate \<Rightarrow> ('b, 'w) gstate res" where
  "mmtk_create_perf_counters E K s = on_mmtk E K (core_create_perf_counters K) s"

definition mmtk_harness_begin ::
  "'w env \<Rightarrow> ('b, 'w, 'z) core_scheme \<Rightarrow> tls \<Rightarrow> ('b, 'w) gstate \<Rightarrow> ('b, 'w) gstate res" where
  "mmtk_harness_begin E K t s = on_mmtk E K (core_harness_begin K t) s"

text \<open>The profile writer is linked in only with the feature \<^verbatim>\<open>llvm_pgo_build\<close>.\<close>

definition llvm_profile_write :: "bool \<Rightarrow> ('b, 'w, 'z) core_scheme \<Rightarrow> 'w \<Rightarrow> i32 \<times> 'w" where
  "llvm_profile_write llvm_pgo_build K w = (if llvm_pgo_build then llvm_profile_write_file K w else (0, w))"

definition mmtk_dump_llvm_profile_file ::
  "bool \<Rightarrow> 'w env \<Rightarrow> ('b, 'w, 'z) core_scheme \<Rightarrow> ('b, 'w) gstate \<Rightarrow> (i32 \<times> ('b, 'w) gstate) res" where
  "mmtk_dump_llvm_profile_file llvm_pgo_build E K s =
     and_then (ask_mmtk E K (core_has_zygote_space K) s) (\<lambda>(zygote_space, g, w).
     if zygote_space then let (r, w') = llvm_profile_write llvm_pgo_build K w in Inr (r, g, w')
     else Inr (0, g, w))"

definition mmtk_harness_end ::
  "bool \<Rightarrow> 'w env \<Rightarrow> ('b, 'w, 'z) core_scheme \<Rightarrow> ('b, 'w) gstate \<Rightarrow> ('b, 'w) gstate res" where
  "mmtk_harness_end llvm_pgo_build E K s =
     and_then (on_mmtk E K (core_harness_end K) s) (\<lambda>s1.
     and_then (mmtk_dump_llvm_profile_file llvm_pgo_build E K s1) (\<lambda>(_, s2). Inr s2))"

section \<open>Sequences of calls\<close>

text \<open>
  The calls of ART on the global state, every function of the interface that uses it: what they
  do to the flags is what the functions of the lifecycle do.
\<close>

inductive api_step ::
  "'w env \<Rightarrow> features \<Rightarrow> ('b, 'w, 'z) core_scheme \<Rightarrow> ('b, 'w) gstate \<Rightarrow> ('b, 'w) gstate \<Rightarrow> bool"
  for E F K where
  api_lifecycle: "life_step E F K s s' \<Longrightarrow> api_step E F K s s'"
| api_regions: "mmtk_iterate_allocated_regions E K v s = Inr (b, v', s') \<Longrightarrow> api_step E F K s s'"
| api_large: "mmtk_enumerate_large_objects E K v s = Inr (b, v', s') \<Longrightarrow> api_step E F K s s'"
| api_clamp_max: "mmtk_clamp_max_heap_size E K n s = Inr (ok, s') \<Longrightarrow> api_step E F K s s'"
| api_jank: "mmtk_set_is_jank_perceptible E K j s = Inr s' \<Longrightarrow> api_step E F K s s'"
| api_grow: "mmtk_grow_heap_on_jank_perceptible_switch E K s = Inr s' \<Longrightarrow> api_step E F K s s'"
| api_clamp: "mmtk_clamp_growth_limit E K s = Inr s' \<Longrightarrow> api_step E F K s s'"
| api_clear: "mmtk_clear_growth_limit E K s = Inr s' \<Longrightarrow> api_step E F K s s'"
| api_worker: "mmtk_start_gc_worker_thread E K t wk s = Inr s' \<Longrightarrow> api_step E F K s s'"
| api_bind: "mmtk_bind_mutator E K t s = Inr (mu, s') \<Longrightarrow> api_step E F K s s'"
| api_flush: "mmtk_flush_mutator E K mu s = Inr s' \<Longrightarrow> api_step E F K s s'"
| api_destroy: "mmtk_destroy_mutator E K mu s = Inr s' \<Longrightarrow> api_step E F K s s'"
| api_alloc: "mmtk_alloc E K mu n al off sem s = Inr (a, s') \<Longrightarrow> api_step E F K s s'"
| api_post_alloc: "mmtk_post_alloc E K mu ob n sem s = Inr s' \<Longrightarrow> api_step E F K s s'"
| api_set_cursor: "mmtk_set_default_thread_local_cursor_limit E K mu bp s = Inr s' \<Longrightarrow> api_step E F K s s'"
| api_get_cursor: "mmtk_get_default_thread_local_cursor_limit E K mu s = Inr (bp, s') \<Longrightarrow> api_step E F K s s'"
| api_total: "mmtk_get_total_bytes E K s = Inr (n, s') \<Longrightarrow> api_step E F K s s'"
| api_free: "mmtk_get_free_bytes E K s = Inr (n, s') \<Longrightarrow> api_step E F K s s'"
| api_used: "mmtk_get_used_bytes E K s = Inr (n, s') \<Longrightarrow> api_step E F K s s'"
| api_workers: "mmtk_get_number_of_workers E K s = Inr (c, s') \<Longrightarrow> api_step E F K s s'"
| api_image: "mmtk_set_image_space E K a n s = Inr s' \<Longrightarrow> api_step E F K s s'"
| api_remove_image: "mmtk_remove_image_space E K a n s = Inr s' \<Longrightarrow> api_step E F K s s'"
| api_user_gc: "mmtk_handle_user_collection_request E K t fo ex s = Inr (ok, s') \<Longrightarrow> api_step E F K s s'"
| api_zygote_gc: "mmtk_handle_pre_first_zygote_fork_collection_request E K t s = Some (Inr s') \<Longrightarrow> api_step E F K s s'"
| api_emergency: "mmtk_is_emergency_collection E K s = Inr (r, s') \<Longrightarrow> api_step E F K s s'"
| api_nursery: "mmtk_is_nursery_collection E K s = Inr (r, s') \<Longrightarrow> api_step E F K s s'"
| api_set_zygote: "mmtk_set_is_zygote_process E K z s = Inr s' \<Longrightarrow> api_step E F K s s'"
| api_is_zygote: "mmtk_is_zygote_process E K s = Inr (r, s') \<Longrightarrow> api_step E F K s s'"
| api_pre_fork: "mmtk_pre_zygote_fork E K s = Inr s' \<Longrightarrow> api_step E F K s s'"
| api_post_fork: "mmtk_post_zygote_fork E K t s = Inr s' \<Longrightarrow> api_step E F K s s'"
| api_perf: "mmtk_create_perf_counters E K s = Inr s' \<Longrightarrow> api_step E F K s s'"
| api_harness_begin: "mmtk_harness_begin E K t s = Inr s' \<Longrightarrow> api_step E F K s s'"
| api_harness_end: "mmtk_harness_end pgo E K s = Inr s' \<Longrightarrow> api_step E F K s s'"
| api_profile: "mmtk_dump_llvm_profile_file pgo E K s = Inr (r, s') \<Longrightarrow> api_step E F K s s'"


lemma singleton_steps: "singleton E K s = Inr s' \<Longrightarrow> (life_step E F K)\<^sup>*\<^sup>* s s'"
  by (blast intro: r_into_rtranclp life_step.life_use)

lemma singleton_steps_outside:
  "singleton E K s = Inr (g, w) \<Longrightarrow> (life_step E F K)\<^sup>*\<^sup>* s (g, w')"
  by (rule rtranclp.rtrancl_into_rtrancl [OF singleton_steps life_step.life_outside])

lemma outside_steps: "(life_step E F K)\<^sup>*\<^sup>* (g, w) (g, w')"
  by (rule r_into_rtranclp) (rule life_step.life_outside)

lemma on_mmtk_steps: "on_mmtk E K f s = Inr s' \<Longrightarrow> (life_step E F K)\<^sup>*\<^sup>* s s'"
  by (auto simp: on_mmtk_def and_then_eq_Inr intro: singleton_steps_outside)

lemma ask_mmtk_steps: "ask_mmtk E K q s = Inr (r, s') \<Longrightarrow> (life_step E F K)\<^sup>*\<^sup>* s s'"
  by (auto simp: ask_mmtk_def and_then_eq_Inr intro: singleton_steps)

lemma call_mmtk_steps: "call_mmtk E K f s = Inr (r, s') \<Longrightarrow> (life_step E F K)\<^sup>*\<^sup>* s s'"
  by (auto simp: call_mmtk_def and_then_eq_Inr case_prod_beta intro: singleton_steps_outside)

lemma ask_mmtk_outside:
  "ask_mmtk E K q s = Inr (r, g, w) \<Longrightarrow> (life_step E F K)\<^sup>*\<^sup>* s (g, w')"
  by (rule rtranclp.rtrancl_into_rtrancl [OF ask_mmtk_steps life_step.life_outside])

lemma on_mmtk_outside:
  "on_mmtk E K f s = Inr (g, w) \<Longrightarrow> (life_step E F K)\<^sup>*\<^sup>* s (g, w')"
  by (rule rtranclp.rtrancl_into_rtrancl [OF on_mmtk_steps life_step.life_outside])

lemmas mmtk_steps = on_mmtk_steps ask_mmtk_steps call_mmtk_steps ask_mmtk_outside on_mmtk_outside outside_steps

lemmas heap_op_defs = mmtk_clamp_max_heap_size_def mmtk_set_is_jank_perceptible_def
  mmtk_grow_heap_on_jank_perceptible_switch_def mmtk_clamp_growth_limit_def mmtk_clear_growth_limit_def
  mmtk_get_total_bytes_def mmtk_get_free_bytes_def mmtk_get_used_bytes_def mmtk_get_number_of_workers_def
  mmtk_set_image_space_def mmtk_remove_image_space_def

lemmas mutator_op_defs = mmtk_start_gc_worker_thread_def mmtk_bind_mutator_def mmtk_flush_mutator_def
  mmtk_destroy_mutator_def mmtk_alloc_def mmtk_post_alloc_def
  mmtk_set_default_thread_local_cursor_limit_def mmtk_get_default_thread_local_cursor_limit_def

lemmas process_op_defs = mmtk_handle_user_collection_request_def
  mmtk_is_emergency_collection_def
  mmtk_is_nursery_collection_def mmtk_set_is_zygote_process_def mmtk_is_zygote_process_def
  mmtk_pre_zygote_fork_def mmtk_post_zygote_fork_def mmtk_create_perf_counters_def mmtk_harness_begin_def

lemma lend_steps:
  "and_then (call_mmtk E K f s) (\<lambda>((ptr, len, cap), s'). Inr (g ptr len cap, h ptr len cap, s')) =
     Inr (b, v', s') \<Longrightarrow> (life_step E F K)\<^sup>*\<^sup>* s s'"
  by (auto simp: and_then_eq_Inr intro: call_mmtk_steps)

lemma dump_profile_steps:
  "mmtk_dump_llvm_profile_file pgo E K s = Inr (r, s') \<Longrightarrow> (life_step E F K)\<^sup>*\<^sup>* s s'"
  by (auto simp: mmtk_dump_llvm_profile_file_def and_then_eq_Inr Let_def
      split: prod.splits if_splits intro: mmtk_steps)

lemma zygote_gc_steps:
  "mmtk_handle_pre_first_zygote_fork_collection_request E K t s = Some (Inr s') \<Longrightarrow> (life_step E F K)\<^sup>*\<^sup>* s s'"
  by (auto simp: mmtk_handle_pre_first_zygote_fork_collection_request_def and_then_eq_Inr
      split: sum.splits if_splits intro: mmtk_steps)

lemma harness_end_steps:
  assumes "mmtk_harness_end pgo E K s = Inr s'"
  shows "(life_step E F K)\<^sup>*\<^sup>* s s'"
proof -
  obtain s1 r where "on_mmtk E K (core_harness_end K) s = Inr s1"
    "mmtk_dump_llvm_profile_file pgo E K s1 = Inr (r, s')"
    using assms by (auto simp: mmtk_harness_end_def and_then_eq_Inr)
  then show ?thesis by (meson on_mmtk_steps dump_profile_steps rtranclp_trans)
qed

text \<open>Every call does to the global state what a sequence of lifecycle steps does.\<close>

lemma api_step_life: "api_step E F K s s' \<Longrightarrow> (life_step E F K)\<^sup>*\<^sup>* s s'"
proof (induction rule: api_step.induct)
  case api_regions
  then show ?case by (simp add: mmtk_iterate_allocated_regions_def lend_steps)
next
  case api_large
  then show ?case by (simp add: mmtk_enumerate_large_objects_def lend_steps)
next
  case api_zygote_gc
  then show ?case by (rule zygote_gc_steps)
qed (auto simp: heap_op_defs mutator_op_defs process_op_defs and_then_eq_Inr Let_def
      split: prod.splits if_splits
      intro: mmtk_steps dump_profile_steps harness_end_steps)

lemma life_inv_api: "api_step E F K s s' \<Longrightarrow> life_inv s \<Longrightarrow> life_inv s'"
  using lifecycle.inv_steps [OF api_step_life] .

lemma life_step_keeps_singleton:
  "life_step E F K s s' \<Longrightarrow> life_inv s \<Longrightarrow> SINGLETON (fst s) \<Longrightarrow> SINGLETON (fst s')"
proof (induction rule: life_step.induct)
  case (life_collection t s s')
  then show ?case
    by (auto simp: mmtk_initialize_collection_def singleton_def and_then_eq_Inr split: if_splits prod.splits)
next
  case (life_heap mn mx gl util minf maxf mult g ok g' w)
  then show ?case by (auto simp: mmtk_set_heap_size_def Let_def split: prod.splits)
qed (auto dest: life_inv_singleton life_inv_init simp: mmtk_set_runtime_pointer_size_def)

definition running :: "('b, 'w) gstate \<Rightarrow> bool" where
  "running s \<longleftrightarrow> life_inv s \<and> SINGLETON (fst s)"

lemma running_life: "(life_step E F K)\<^sup>*\<^sup>* s s' \<Longrightarrow> running s \<Longrightarrow> running s'"
  by (induction rule: rtranclp_induct) (auto simp: running_def intro: life_inv_step life_step_keeps_singleton)

lemma running_ok: "running s \<Longrightarrow> check_initialized E s = Inr () \<and> singleton E K s = Inr s"
  by (cases s) (simp add: running_def life_inv_def check_initialized_def singleton_def)

interpretation api: machine life_initial "api_step E F K" life_inv for E F K
  by unfold_locales (blast intro: life_inv_initial life_inv_api)+

interpretation api_running: machine running "api_step E F K" running for E F K
  by unfold_locales (blast intro: running_life api_step_life)+

text \<open>
  C23. After \<^verbatim>\<open>mmtk_init\<close> has returned, whatever was called before and whatever is called later, the
  assertion at the head of the entry points holds and the MMTk instance exists: no call builds
  it a second time.
\<close>

theorem api_stays_initialized:
  assumes "life_initial s0" "(api_step E F K)\<^sup>*\<^sup>* s0 s" "mmtk_init E K u plan z s = Inr s1"
    "(api_step E F K)\<^sup>*\<^sup>* s1 s2"
  shows "check_initialized E s2 = Inr () \<and> singleton E K s2 = Inr s2"
proof -
  have "life_inv s" using api.inv_reachable [OF assms(1,2)] .
  with assms(3) have "running s1" by (auto simp: running_def dest: life_inv_init)
  then show ?thesis using api_running.inv_reachable [OF _ assms(4)] running_ok by blast
qed

section \<open>Thread-local allocation\<close>

text \<open>
  What mmtk-core promises of a mutator's default allocator: its bump pointer can be read back,
  and writing it does not change which allocator the plan uses.
\<close>

definition bump_pointer_law :: "('b, 'w, 'z) core_scheme \<Rightarrow> bool" where
  "bump_pointer_law K \<longleftrightarrow>
     (\<forall>mu sel bp w. core_bump_pointer K mu sel (core_set_bump_pointer K mu sel bp w) = bp) \<and>
     (\<forall>mu sel bp w sem. core_allocator_mapping K sem (core_set_bump_pointer K mu sel bp w) =
        core_allocator_mapping K sem w)"

text \<open>
  The cursor and limit that a mutator's fast path hands back are what it gets the next time, for
  the bump-pointer and Immix allocators; for every other default allocator both calls panic.
\<close>

lemma cursor_limit_roundtrip:
  assumes "bump_pointer_law K" "IS_MMTK_INITIALIZED g" "SINGLETON g"
  shows "if core_allocator_mapping K Default_Semantics w \<in> {Bump_Selector 0, Immix_Selector 0}
    then \<exists>s'. mmtk_set_default_thread_local_cursor_limit E K mu bp (g, w) = Inr s' \<and>
      mmtk_get_default_thread_local_cursor_limit E K mu s' = Inr (bp, s')
    else
      mmtk_set_default_thread_local_cursor_limit E K mu bp (g, w) =
        Inl (Panic ''No support for thread-local allocation for selector'') \<and>
      mmtk_get_default_thread_local_cursor_limit E K mu (g, w) =
        Inl (Panic ''No support for thread-local allocation for selector'')"
  using assms
  by (auto simp: mmtk_set_default_thread_local_cursor_limit_def bump_pointer_law_def
      mmtk_get_default_thread_local_cursor_limit_def check_initialized_def ask_mmtk_def singleton_def)

section \<open>Barriers\<close>

lemma aligned4: "is_aligned_to_law E \<Longrightarrow> is_aligned_to E a 4 \<longleftrightarrow> unat a mod 4 = 0"
  unfolding is_aligned_to_law_def by (drule spec [of _ a], drule spec [of _ 2]) simp

text \<open>
  The post-write barrier of the debug build runs for an aligned slot of a sane object of known
  size exactly when the slot is null or lies within the object; otherwise it panics. The release
  build always runs it.
\<close>

lemma write_post_value:
  assumes "is_aligned_to_law E" "is_object_sane E m src" "unat (slot_address slot) mod 4 = 0"
    "get_object_size E m src = Inr n" "\<And>ob. target = Some ob \<Longrightarrow> is_object_sane E m ob"
  shows "mmtk_object_reference_write_post E K m mu src slot target w =
    (if \<not> debug_assertions E \<or> slot_address slot = 0 \<or> (src \<le> slot_address slot \<and> slot_address slot < src + n)
     then Inr (core_write_post K mu src slot target w)
     else Inl (Debug_Assert ''slot is not within src''))"
  using assms
  by (auto simp: mmtk_object_reference_write_post_def aligned4 slot_as_address_def debug_assert_def
      split: option.split)

fun fold_res :: "('a \<Rightarrow> 'c \<Rightarrow> 'c res) \<Rightarrow> 'a list \<Rightarrow> 'c \<Rightarrow> 'c res" where
  "fold_res f [] c = Inr c"
| "fold_res f (x # xs) c = and_then (f x c) (fold_res f xs)"

lemma fold_res_uniform:
  "(\<And>x. x \<in> set xs \<Longrightarrow> f x c = (if P then Inr c else Inl p)) \<Longrightarrow>
     fold_res f xs c = (if xs = [] \<or> P then Inr c else Inl p)"
  by (induction xs) auto

context rust_iterator
begin

lemma for_each_contents: "ok s \<Longrightarrow> for_each nxt body c s = Some (fold_res body (contents s) c)"
proof (induction "contents s" arbitrary: s c)
  case Nil
  then have "nxt s = None"
    using next_Some [of s] by (cases "nxt s") force+
  with Nil show ?case by (simp add: for_each.simps)
next
  case (Cons x xs)
  then obtain y s' where nxt: "nxt s = Some (y, s')"
    using next_None [of s] by (cases "nxt s") auto
  with Cons.prems have s': "ok s'" and eq: "contents s = y # contents s'"
    using next_Some by blast+
  with Cons.hyps(2) have "for_each nxt body c s' = Some (fold_res body (contents s') c)" for c
    by (intro Cons.hyps(1)) auto
  with nxt eq show ?case by (simp add: for_each.simps [of nxt body c s] and_then_def split: sum.split)
qed

end

lemma overlapping_always:
  fixes src dst b :: addr
  assumes "unat src + unat b < 2 ^ 64" "unat dst + unat b < 2 ^ 64" "0 < unat b"
  shows "dst < src + b \<or> src < dst + b"
proof -
  have "unat (src + b) = unat src + unat b" "unat (dst + b) = unat dst + unat b"
    using assms by (auto intro: unat_add_exact)
  then show ?thesis using assms(3) unfolding word_less_nat_alt by linarith
qed

text \<open>The slots of a range of \<open>n\<close> words that does not reach the top of the address space.\<close>

lemma range_bytes:
  fixes a n :: usize
  assumes "unat a + 4 * unat n + 3 < 2 ^ 64"
  shows "unat (push_bit LOG_BYTES_IN_SLOT n) = 4 * unat n"
    "unat (a + push_bit LOG_BYTES_IN_SLOT n) = unat a + 4 * unat n"
proof -
  have "unat (n * 4) = unat n * 4" using assms by (subst unat_mult_exact) simp_all
  then show b: "unat (push_bit LOG_BYTES_IN_SLOT n) = 4 * unat n"
    by (simp add: push_bit_eq_mult LOG_BYTES_IN_SLOT_def)
  then show "unat (a + push_bit LOG_BYTES_IN_SLOT n) = unat a + 4 * unat n"
    using assms by (subst unat_add_exact) simp_all
qed

lemma range_slot_mod4:
  fixes a n :: usize
  assumes "unat a + 4 * unat n + 3 < 2 ^ 64" "i < unat n"
  shows "unat (a + 4 * of_nat i) mod 4 = unat a mod 4"
proof -
  have "unat (of_nat (4 * i) :: addr) = 4 * i" using assms by (intro unat_of_nat_small) simp
  then have "unat (a + of_nat (4 * i)) = unat a + 4 * i" using assms by (subst unat_add_exact) simp_all
  then show ?thesis by simp
qed

lemma for_each_range:
  assumes "unat a + 4 * unat n + 3 < 2 ^ 64"
    and "\<And>i. i < unat n \<Longrightarrow> body (ArtSlot (a + 4 * of_nat i)) c = (if P then Inr c else Inl p)"
  shows "for_each slot_iterator_next body c (iter_slots (slice_from_range a (a + push_bit LOG_BYTES_IN_SLOT n))) =
    Some (if n = 0 \<or> P then Inr c else Inl p)"
proof -
  let ?it = "iter_slots (slice_from_range a (a + push_bit LOG_BYTES_IN_SLOT n))"
  have c: "iterator_contents ?it = map (\<lambda>i. ArtSlot (a + 4 * of_nat i)) [0..<unat n]"
    by (simp add: iterator_contents_def iter_slots_def slice_from_range_def range_bytes [OF assms(1)])
  have "for_each slot_iterator_next body c ?it = Some (fold_res body (iterator_contents ?it) c)"
    using assms(1) by (intro slot_iterator.for_each_contents)
      (simp add: iter_slots_def slice_from_range_def range_bytes [OF assms(1)])
  also have "fold_res body (iterator_contents ?it) c = (if iterator_contents ?it = [] \<or> P then Inr c else Inl p)"
    by (rule fold_res_uniform) (auto simp: c assms(2))
  finally show ?thesis by (simp add: c unat_eq_zero)
qed

text \<open>
  C31. The post-copy barrier of the debug build checks the alignment of the two ranges and nothing
  else: for ranges that do not reach the top of the address space the test for overlap is always
  true, so that the comparison of the copied values never takes place and the outcome does not
  depend on the contents of memory.
\<close>

theorem array_copy_post_cases:
  assumes "is_aligned_to_law E" "unat src + 4 * unat n + 3 < 2 ^ 64" "unat dst + 4 * unat n + 3 < 2 ^ 64"
  shows "mmtk_array_copy_post E K m mu src dst n w = Some (
    if debug_assertions E \<and> n \<noteq> 0 \<and> unat src mod 4 \<noteq> 0
      then Inl (Debug_Assert ''source address is not aligned to 4-bytes'')
    else if debug_assertions E \<and> n \<noteq> 0 \<and> unat dst mod 4 \<noteq> 0
      then Inl (Debug_Assert ''destination address is not aligned to 4-bytes'')
    else Inr (core_region_copy_post K mu (slice_from_range src (src + 4 * n)) (slice_from_range dst (dst + 4 * n)) w))"
proof (cases "debug_assertions E")
  case True
  let ?b = "push_bit LOG_BYTES_IN_SLOT n"
  have b: "?b = 4 * n" by (simp add: push_bit_eq_mult LOG_BYTES_IN_SLOT_def)
  have src_loop: "for_each slot_iterator_next (check_src_slot E) () (iter_slots (slice_from_range src (src + ?b))) =
      Some (if n = 0 \<or> unat src mod 4 = 0 then Inr ()
            else Inl (Debug_Assert ''source address is not aligned to 4-bytes''))"
    using True by (intro for_each_range assms(2))
      (simp add: check_src_slot_def slot_as_address_def aligned4 [OF assms(1)] debug_assert_def
        range_slot_mod4 [OF assms(2)])
  have body: "check_dst_slot E m src dst n (ArtSlot (dst + 4 * of_nat i)) 0 =
      (if unat dst mod 4 = 0 then Inr 0 else Inl (Debug_Assert ''destination address is not aligned to 4-bytes''))"
    if "i < unat n" for i
  proof -
    have "dst < src + ?b \<or> src < dst + ?b"
      using assms that by (intro overlapping_always) (simp_all add: range_bytes [OF assms(2)])
    then show ?thesis
      using True by (simp add: check_dst_slot_def slot_as_address_def aligned4 [OF assms(1)] debug_assert_def
          range_slot_mod4 [OF assms(3) that])
  qed
  have dst_loop: "for_each slot_iterator_next (check_dst_slot E m src dst n) 0 (iter_slots (slice_from_range dst (dst + ?b))) =
      Some (if n = 0 \<or> unat dst mod 4 = 0 then Inr 0
            else Inl (Debug_Assert ''destination address is not aligned to 4-bytes''))"
    using body by (intro for_each_range assms(3))
  show ?thesis
    using True by (simp add: mmtk_array_copy_post_def Let_def src_loop dst_loop) (simp add: b)
next
  case False
  then show ?thesis
    by (simp add: mmtk_array_copy_post_def push_bit_eq_mult LOG_BYTES_IN_SLOT_def mult.commute Let_def)
qed

section \<open>Concrete runs\<close>

text \<open>
  An instance with one mutator and an Immix allocator, whose bump pointer is the only part of
  the state that changes.
\<close>

definition api_with :: "('w \<Rightarrow> BumpPointer) \<Rightarrow> (BumpPointer \<Rightarrow> 'w \<Rightarrow> 'w) \<Rightarrow> (bool, 'w) core" where
  "api_with get_bump set_bump =
     \<lparr>is_nursery_collection = (\<lambda>w. False), is_emergency_collection = (\<lambda>w. False),
      is_zygote_process = (\<lambda>w. False), builder_set_plan = (\<lambda>p b. (True, b)),
      builder_set_is_zygote_process = (\<lambda>z b. (True, z)), builder_is_zygote_process = (\<lambda>b. b),
      builder_set_gc_trigger = (\<lambda>t b. (True, b)), builder_set_vm_layout = (\<lambda>l b. b),
      core_mmtk_init = (\<lambda>b w. w), core_initialize_collection = (\<lambda>t w. w),
      core_allocated_regions = (\<lambda>w. ((0, 0, 0), w)), core_large_objects = (\<lambda>w. ((0, 0, 0), w)),
      core_clamp_max_heap_size = (\<lambda>n w. (True, w)), core_set_is_jank_perceptible = (\<lambda>j w. w),
      core_grow_heap_size_for_event = (\<lambda>w. w), core_clamp_growth_limit = (\<lambda>w. w),
      core_clear_growth_limit = (\<lambda>w. w), core_start_worker = (\<lambda>t wk w. w),
      core_bind_mutator = (\<lambda>t w. (0x5000, w)), core_flush_mutator = (\<lambda>mu w. w),
      core_destroy_mutator = (\<lambda>mu w. w), core_alloc = (\<lambda>mu n al off sem w. (bump_cursor (get_bump w), w)),
      core_post_alloc = (\<lambda>mu ob n sem w. w), core_allocator_mapping = (\<lambda>sem w. Immix_Selector 0),
      core_bump_pointer = (\<lambda>mu sel w. get_bump w), core_set_bump_pointer = (\<lambda>mu sel bp w. set_bump bp w),
      core_is_in_mmtk_spaces = (\<lambda>ob w. True), core_is_reachable = (\<lambda>ob w. True),
      core_is_live = (\<lambda>ob w. True), core_is_movable = (\<lambda>ob w. True),
      core_potential_forwarded_object = (\<lambda>ob w. 0), core_forwarded_object = (\<lambda>ob w. None),
      core_pin_object = (\<lambda>ob w. (True, w)), core_is_pinned = (\<lambda>ob w. False),
      core_starting_heap_address = (\<lambda>w. 0x400000), core_last_heap_address = (\<lambda>w. 0x80000000),
      core_total_bytes = (\<lambda>w. 0), core_free_bytes = (\<lambda>w. 0), core_used_bytes = (\<lambda>w. 0),
      core_num_of_workers = (\<lambda>w. 4), core_set_vm_space = (\<lambda>a n w. w), core_remove_vm_space = (\<lambda>a n w. w),
      core_user_collection = (\<lambda>t f e w. (True, w)), core_pre_first_zygote_fork_collection = (\<lambda>t w. w),
      core_has_zygote_space = (\<lambda>w. False), core_write_pre = (\<lambda>mu src sl t w. w),
      core_write_post = (\<lambda>mu src sl t w. w), core_region_copy_pre = (\<lambda>mu x y w. w),
      core_region_copy_post = (\<lambda>mu x y w. w), core_set_is_zygote_process = (\<lambda>z w. w),
      core_prepare_to_fork = (\<lambda>w. w), core_after_fork = (\<lambda>t w. w), core_create_perf_counters = (\<lambda>w. w),
      core_harness_begin = (\<lambda>t w. w), core_harness_end = (\<lambda>w. w), llvm_profile_write_file = (\<lambda>w. (0, w))\<rparr>"

definition sample_api :: "(bool, BumpPointer) core" where
  "sample_api = api_with (\<lambda>w. w) (\<lambda>bp w. bp)"

abbreviation api_env :: "BumpPointer env" where
  "api_env \<equiv> env_with idle_upcalls"

definition sample_bump :: BumpPointer where
  "sample_bump = \<lparr>bump_cursor = 0x600000, bump_limit = 0x608000\<rparr>"

lemma sample_api_law: "bump_pointer_law sample_api"
  by (simp add: bump_pointer_law_def sample_api_def api_with_def)

definition running_globals :: "bool globals" where
  "running_globals = (initial_globals False)\<lparr>UPCALLS := 0x9000, IS_MMTK_INITIALIZED := True, SINGLETON := True\<rparr>"

lemma sample_api_init:
  "mmtk_init api_env sample_api 0x9000 0 False (initial_globals False, w) = Inr (running_globals, w)"
  using vm_layout_value [of api_env default_trigger_init, OF env_with_laws(5)]
  by (auto simp: mmtk_init_def singleton_def set_vm_layout_def sample_api_def api_with_def initial_globals_def running_globals_def
      default_trigger_init_def)

text \<open>Initialization, an allocation, and then any further call.\<close>

theorem api_stays_initialized_witness:
  "\<exists>s. mmtk_init api_env sample_api 0x9000 0 False (initial_globals False, sample_bump) = Inr s \<and>
     (\<exists>a s2. mmtk_alloc api_env sample_api 0x5000 16 8 0 Default_Semantics s = Inr (a, s2) \<and>
        check_initialized api_env s2 = Inr () \<and> singleton api_env sample_api s2 = Inr s2)"
proof -
  let ?s = "(running_globals, sample_bump)"
  have alloc: "mmtk_alloc api_env sample_api 0x5000 16 8 0 Default_Semantics ?s = Inr (0x600000, ?s)"
    by (simp add: mmtk_alloc_def sample_api_def api_with_def sample_bump_def check_initialized_def running_globals_def)
  have "life_initial (initial_globals False, sample_bump)" by (auto simp: life_initial_def)
  from api_stays_initialized [OF this rtranclp.rtrancl_refl sample_api_init
      r_into_rtranclp [of "api_step api_env sample_features sample_api", OF api_step.api_alloc [OF alloc]]]
  show ?thesis using sample_api_init alloc by blast
qed

theorem array_copy_post_cases_witness:
  "mmtk_array_copy_post api_env sample_api (\<lambda>a. ucast a) 0x5000 0x600000 0x700000 8 sample_bump =
     Some (Inr sample_bump)"
proof -
  have "mmtk_array_copy_post api_env sample_api (\<lambda>a. ucast a) 0x5000 0x600000 0x700000 8 sample_bump =
      Some (Inr (core_region_copy_post sample_api 0x5000 (slice_from_range 0x600000 (0x600000 + 4 * 8))
        (slice_from_range 0x700000 (0x700000 + 4 * 8)) sample_bump))"
    by (subst array_copy_post_cases [OF env_with_laws(4)]) simp_all
  then show ?thesis by (simp add: sample_api_def api_with_def)
qed

end
