(* ===== verification/Lending.thy ===== *)
theory Lending
  imports Api
begin

text \<open>
  The vectors that \<^verbatim>\<open>mmtk_iterate_allocated_regions\<close> and \<^verbatim>\<open>mmtk_enumerate_large_objects\<close> hand to ART
  (\<^verbatim>\<open>api.rs\<close>), and their way back through the release functions.
\<close>

text \<open>A vector of Rust: not null, its length within its capacity, and a buffer that nobody else has.\<close>

definition owned_vec :: "vec_state \<Rightarrow> addr \<times> usize \<times> usize \<Rightarrow> bool" where
  "owned_vec v vec \<longleftrightarrow>
     (case vec of (ptr, len, cap) \<Rightarrow> ptr \<noteq> 0 \<and> len \<le> cap \<and> (cap \<noteq> 0 \<longrightarrow> lent v ptr = None))"

lemma lend_return:
  assumes "owned_vec v (ptr, len, cap)"
  shows "from_raw_parts elem ptr len cap (lend_vec elem ptr cap v) = Some v"
    "cap \<noteq> 0 \<Longrightarrow> from_raw_parts elem ptr len cap v = None"
  using assms by (auto simp: owned_vec_def from_raw_parts_def lend_vec_def fun_upd_idem)

text \<open>Two vectors that are out at the same time can come back in either order.\<close>

lemma lend_return_other:
  assumes "owned_vec v (p, n, c)" "owned_vec (lend_vec a p c v) (q, l, d)"
  shows "owned_vec v (q, l, d)"
    "from_raw_parts a p n c (lend_vec b q d (lend_vec a p c v)) = Some (lend_vec b q d v)"
proof -
  show "owned_vec v (q, l, d)"
    using assms by (auto simp: owned_vec_def lend_vec_def split: if_splits)
  have "c \<noteq> 0 \<Longrightarrow> d \<noteq> 0 \<Longrightarrow> p \<noteq> q" using assms by (auto simp: owned_vec_def lend_vec_def)
  then show "from_raw_parts a p n c (lend_vec b q d (lend_vec a p c v)) = Some (lend_vec b q d v)"
    using assms(1) by (auto simp: owned_vec_def lend_vec_def from_raw_parts_def fun_upd_twist fun_upd_idem)
qed

text \<open>
  C28. The region and large-object vectors that ART asks for are handed out with the pointer, length
  and capacity MMTk gave them. ART may hold both and release them in either order, after which no
  buffer is left with it. Releasing a vector that has a buffer a second time is undefined behaviour.
\<close>

theorem handed_out_vectors_return:
  assumes "SINGLETON g" "core_allocated_regions K w = ((p, n, c), w1)" "core_large_objects K w1 = ((q, l, d), w2)"
    "owned_vec v (p, n, c)" "owned_vec (lend_vec Region_Elem p c v) (q, l, d)"
  shows "\<exists>b ob v1 v2 u1 u2.
    mmtk_iterate_allocated_regions E K v (g, w) = Inr (b, v1, (g, w1)) \<and>
    mmtk_enumerate_large_objects E K v1 (g, w1) = Inr (ob, v2, (g, w2)) \<and>
    mmtk_release_rust_allocated_region_buffer (regions_ptr b) (regions_len b) (regions_capacity b) v2 = Some u1 \<and>
    mmtk_release_rust_object_reference_buffer (objects_ptr ob) (objects_len ob) (objects_capacity ob) u1 = Some v \<and>
    mmtk_release_rust_object_reference_buffer (objects_ptr ob) (objects_len ob) (objects_capacity ob) v2 = Some u2 \<and>
    mmtk_release_rust_allocated_region_buffer (regions_ptr b) (regions_len b) (regions_capacity b) u2 = Some v \<and>
    (regions_capacity b \<noteq> 0 \<longrightarrow>
       mmtk_release_rust_allocated_region_buffer (regions_ptr b) (regions_len b) (regions_capacity b) u1 = None) \<and>
    (objects_capacity ob \<noteq> 0 \<longrightarrow>
       mmtk_release_rust_object_reference_buffer (objects_ptr ob) (objects_len ob) (objects_capacity ob) u2 = None)"
proof -
  let ?b = "\<lparr>regions_ptr = p, regions_len = n, regions_capacity = c\<rparr>"
  let ?ob = "\<lparr>objects_ptr = q, objects_len = l, objects_capacity = d\<rparr>"
  note other = lend_return_other [OF assms(4,5)]
  have calls: "mmtk_iterate_allocated_regions E K v (g, w) = Inr (?b, lend_vec Region_Elem p c v, (g, w1))"
      "mmtk_enumerate_large_objects E K (lend_vec Region_Elem p c v) (g, w1) = Inr (?ob, lend_vec Word_Elem q d (lend_vec Region_Elem p c v), (g, w2))"
    using assms(1-3)
    by (simp_all add: mmtk_iterate_allocated_regions_def mmtk_enumerate_large_objects_def call_mmtk_def singleton_def)
  have again: "c \<noteq> 0 \<Longrightarrow> from_raw_parts Region_Elem p n c (lend_vec Word_Elem q d v) = None"
    using assms(4,5) by (auto simp: owned_vec_def lend_vec_def from_raw_parts_def split: if_splits)
  show ?thesis
    using calls again lend_return [OF assms(4)] lend_return [OF assms(5)] lend_return [OF other(1)] other(2)
    by (intro exI [of _ ?b] exI [of _ ?ob] exI [of _ "lend_vec Region_Elem p c v"] exI [of _ "lend_vec Word_Elem q d (lend_vec Region_Elem p c v)"]
        exI [of _ "lend_vec Word_Elem q d v"] exI)
      (auto simp: mmtk_release_rust_allocated_region_buffer_def mmtk_release_rust_object_reference_buffer_def)
qed

text \<open>An instance with two regions, in a vector with room for four, and no large object.\<close>

definition lending_api :: "(bool, BumpPointer) core" where
  "lending_api = sample_api\<lparr>core_allocated_regions := \<lambda>w. ((0x10000, 2, 4), w),
     core_large_objects := \<lambda>w. ((8, 0, 0), w)\<rparr>"

theorem handed_out_vectors_return_witness:
  "\<exists>b v1 u. mmtk_iterate_allocated_regions api_env lending_api no_bufs (running_globals, sample_bump) =
      Inr (b, v1, (running_globals, sample_bump)) \<and>
    mmtk_release_rust_allocated_region_buffer (regions_ptr b) (regions_len b) (regions_capacity b) u = Some no_bufs"
proof -
  have "owned_vec no_bufs (0x10000, 2, 4)" "owned_vec (lend_vec Region_Elem 0x10000 4 no_bufs) (8, 0, 0)"
    by (simp_all add: owned_vec_def)
  from handed_out_vectors_return [OF _ _ _ this, of running_globals lending_api sample_bump sample_bump sample_bump api_env]
  show ?thesis by (auto simp: running_globals_def lending_api_def)
qed

end
