(* ===== verification/Spec2Isabelle.thy ===== *)
theory Spec2Isabelle
  imports Gc_End_Conc Forwarding Heap_Growth Scan_Special Conversions Evacuation Closures Lending
begin

text \<open>
  A verification library of mmtk-art, the binding between the garbage collector framework MMTk
  and the Android Runtime (ART). The program is the Rust crate under \<^verbatim>\<open>src/mmtk/src\<close>. ART calls the
  exported functions of \<^verbatim>\<open>api.rs\<close>; MMTk calls the trait implementations of the other files; both
  meet in the global state of \<^verbatim>\<open>lib.rs\<close>. The crate calls ART through a table of upcalls and MMTk
  through its public interface.

  \<^bold>\<open>Parts and theories.\<close>
  \<^item> \<open>Prelude\<close>: panics as values of a sum type, checked machine arithmetic, the two build flags, and
    the interfaces that several components share: \<open>machine\<close> (a step relation with an invariant),
    \<open>rust_iterator\<close> (an iterator and what it still yields) and \<open>enum_codec\<close> (an enumeration read
    from an integer). \<open>Threads\<close> has threads that interleave their atomic steps, and the interface \<open>threads\<close>: an
    invariant of the shared state and an assertion at each program point, kept by every step.
  \<^item> \<open>F64\<close>: the double-precision arithmetic of the trigger, on exact rationals with rounding to
    nearest even and the saturating casts from and to \<^verbatim>\<open>usize\<close>.
  \<^item> \<open>Binding\<close>: the shared types and the upcall table of \<^verbatim>\<open>lib.rs\<close>, and the environment \<open>env\<close>, which
    holds the upcalls and the helper functions of \<^verbatim>\<open>mmtk::util\<close> as parameters, with what their
    documentation promises as predicates (\<open>raw_align_up_law\<close>, \<open>chunk_law\<close> and others).
  \<^item> \<open>Slots\<close>: byte memory, and the slots and memory slices of \<^verbatim>\<open>lib.rs\<close>.
  \<^item> \<open>Gc_Trigger\<close>: \<^verbatim>\<open>gc_trigger.rs\<close>. The record \<open>ArtTrigger\<close> has the fields of the struct, one
    definition per method; \<open>trigger_call\<close> is a call of a method, labelled with the size when it sets a new
    maximum, and \<open>trigger_step\<close> any call. \<open>Gc_Trigger_Conc\<close> runs the same
    methods one atomic access at a time on any number of threads; \<open>Limit_Conc\<close> adds the two that move
    the limits, and \<open>Gc_End_Conc\<close> the start and the end of a collection and \<^verbatim>\<open>clamp_max_heap_size\<close>, which
    makes them all; each relation of atomic steps (\<open>poll_step\<close>, \<open>jank_step\<close>, \<open>ideal_step\<close>, \<open>max_step\<close>,
    \<open>gc_step\<close>) is one function of the code. \<open>Heap_Growth\<close> is about the operations between two
    collections, one at a time and interleaved, and has the heap size counter of \<^verbatim>\<open>lib.rs\<close>.
  \<^item> \<open>Abi\<close>, \<open>Abi_Sizes\<close>: \<^verbatim>\<open>abi.rs\<close>. A mirror struct is a layout, from which field offsets are computed,
    and a record read from memory; the accessors are functions of memory and the address of the
    object. \<open>Conversions\<close> has the conversions between references to mirrors of different types, all
    instances of one interface, \<open>checked_conversion\<close>. \<open>Sample_Heap\<close> is a small heap on which the
    theorems are applied.
  \<^item> \<open>Object_Scanning\<close>, \<open>Scan_Special\<close>: \<^verbatim>\<open>object_scanning.rs\<close>. A visitor is the list of slots it is given,
    in order.
  \<^item> \<open>Object_Model\<close>: \<^verbatim>\<open>object_model.rs\<close>, sizes and copying; the copy context of mmtk-core is a parameter.
    \<open>Evacuation\<close> joins it with scanning: what a collector finds in a copy. \<open>Forwarding\<close> joins scanning with
    the slots: what a collector does to the slots it is given.
  \<^item> \<open>Buffers\<close>: the buffers of \<^verbatim>\<open>scanning.rs\<close> and the release functions of \<^verbatim>\<open>api.rs\<close>, with the
    ownership of the vectors that cross the C interface. \<open>Lending\<close>: the vectors that \<open>Api\<close> hands out.
  \<^item> \<open>Closures\<close>: the closures that C++ calls back one item at a time, with the trampolines of \<^verbatim>\<open>lib.rs\<close>
    and \<^verbatim>\<open>scanning.rs\<close> and the contexts they point to, as instances of \<open>rust_closure\<close>.
  \<^item> \<open>Scanning\<close>: the rest of \<^verbatim>\<open>scanning.rs\<close>: roots, the entry to object scanning and the three phases
    of weak reference processing.
  \<^item> \<open>Collection\<close>: \<^verbatim>\<open>collection.rs\<close>, \<^verbatim>\<open>active_plan.rs\<close> and \<^verbatim>\<open>reference_glue.rs\<close>.
  \<^item> \<open>Lifecycle\<close>: the statics of \<^verbatim>\<open>lib.rs\<close> as the record \<open>globals\<close>, the lazily created instance with its
    address-space layout, and the functions of \<^verbatim>\<open>api.rs\<close> that initialize them.
  \<^item> \<open>Api\<close>: every other function of \<^verbatim>\<open>api.rs\<close>. The functions of mmtk-core it calls are the record
    \<open>core\<close> of functions on the state of everything outside the crate.

  \<^bold>\<open>What is shown.\<close> Scanning visits exactly the references of an object, in order, for every kind
  of object, and panics for unknown kinds. The sizes of arrays, strings and
  class objects are those of ART's layout, without overflow, and copying preserves every byte, so
  that scanning a moved instance or object array finds the same references in it; the slots of such an
  object are disjoint, so that each of its references can be updated in place. References to mirrors convert
  back to their object and are checked against its class. The
  trigger keeps its target within the growth limit or the cached foreground target in every reachable
  state, and within the growth limit as long as no new maximum is set, also under every interleaving
  of polls; no interleaving of all of its operations exceeds the capacity it started with or the
  largest maximum that is set, and every sequence of calls is one of these interleavings;
  between collections the heap never shrinks when calls do not overlap, and falls at most to the
  foreground target when they do; a collection computes the documented target, the allocation that
  caused it fits afterwards, and the next poll does not ask for another collection. Slots and slices read back what is written; iterators end and are
  complete. Buffers hand every slot over exactly once and are released in the builds that drop them, vectors lent to ART come back in
  any order, and the closures that C++ calls once per mutator visit and flush every mutator. Weak reference processing runs its three
  phases once each per full collection. The initialization flag and the instance agree in every
  reachable state, and no sequence of API calls builds the instance twice. This theory connects
  the collector with the mutators: every slot that scanning an instance or an array reports passes
  the checks of the post-write barrier. Some theorems state behaviour that the code does not intend: pending
  allocations subtracted twice, a target lowered by a lost exchange, a stale foreground target, a
  growth limit above the capacity after a race, a reference cell taken for the object it refers to,
  a check of copied arrays that never runs, upcalls lost by early use, and a heap that reaches
  the boot image earlier than documented.

  \<^bold>\<open>Bounds.\<close> Words have their width: \<^verbatim>\<open>usize\<close> and addresses 64 bits, compressed references and field
  offsets 32. Rust's arithmetic panics on overflow when \<open>overflow_checks\<close> is set and wraps
  otherwise; address arithmetic of mmtk-core wraps. Loops over iterators are
  \<open>partial_function (option)\<close>, so that \<open>None\<close> means a loop that does not end, and the theorems show
  \<open>Some\<close>. The poll loop of the trigger takes the list of what each iteration observes; a
  list that is exhausted means that the poll has not returned, and the theorems show that it returns
  after any number of spurious failures. The
  page size is 4 KB, a chunk 4 MB, and the heap at most 2 GB, as the source has them.

  \<^bold>\<open>Not modelled.\<close> mmtk-core itself and the C++ side of ART are parameters. 32-bit targets, where
  only constants differ; logging, the tracing backend and the Android logger, which do not change the
  state; the branch hints \<^verbatim>\<open>likely\<close> and \<^verbatim>\<open>unlikely\<close>, which return their argument; poisoning of locks, which
  needs a panic while one is held; the C header, the build files and the profiles. A shared heap is an argument of the functions that read it; functions of
  mmtk-core act on their own state.
\<close>

section \<open>The collector and the mutators\<close>

lemma slot_passes_barrier:
  assumes "is_aligned_to_law E" "is_object_sane E m ob" "get_object_size E m ob = Inr n"
    "unat ob mod 4 = 0" "unat ob + unat n < 2 ^ 64" "\<And>v. target = Some v \<Longrightarrow> is_object_sane E m v"
    "j mod 4 = 0" "j < unat n"
  shows "mmtk_object_reference_write_post E K m mu ob (ArtSlot (ob + of_nat j)) target w =
    Inr (core_write_post K mu ob (ArtSlot (ob + of_nat j)) target w)"
proof -
  have u: "unat (ob + of_nat j) = unat ob + j"
    using assms(5,8) by (subst unat_add_exact) (simp_all add: unat_of_nat_small)
  then have "unat (slot_address (ArtSlot (ob + of_nat j))) mod 4 = 0"
    using assms(4,7) by (metis ArtSlot.sel mod_add_eq mod_0 add_0)
  moreover have "ob \<le> ob + of_nat j" "ob + of_nat j < ob + n"
    using u assms(5,8) unat_add_exact [of ob n] by (simp_all add: word_le_nat_alt word_less_nat_alt)
  ultimately show ?thesis
    by (subst write_post_value [OF assms(1,2) _ assms(3,6)]) simp_all
qed

text \<open>
  C6. The collector and the mutators agree on where the references of an object are: every slot
  that scanning an instance or an object array reports lies within the object, so that the
  post-write barrier of a mutator that writes it passes its checks and runs.
\<close>

theorem scanned_slots_pass_barrier:
  assumes "raw_align_up_law E" "is_aligned_to_law E" "reference_holder E m ob k"
    "get_object_size E m ob = Inr n" "unat ob mod 4 = 0" "unat ob + unat n < 2 ^ 64"
    "\<And>v. target = Some v \<Longrightarrow> is_object_sane E m v"
  shows "\<exists>slots. scan_object E m p roots ob = Some (Inr slots) \<and>
    (\<forall>slot \<in> set slots. mmtk_object_reference_write_post E K m mu ob slot target w =
       Inr (core_write_post K mu ob slot target w))"
proof -
  have "is_object_sane E m ob"
    using assms(3) by (auto simp: reference_holder_def plain_instance_def has_class_def)
  note ok = slot_passes_barrier [OF assms(2) this assms(4-7)]
  have "mmtk_object_reference_write_post E K m mu ob s target w = Inr (core_write_post K mu ob s target w)"
    if s: "s \<in> set (klass_slot ob # reference_slots m ob k)" for s
  proof -
    from reference_slot_offset [OF assms(1,3,4) s] obtain j
      where j: "slot_address s = ob + of_nat j" "j mod 4 = 0" "j + 4 \<le> unat n" by (elim exE conjE)
    then have "s = ArtSlot (ob + of_nat j)" by (intro ArtSlot.expand) simp
    with j show ?thesis by (simp add: ok)
  qed
  then show ?thesis unfolding reference_holder_scan [OF assms(1,3)] by auto
qed

theorem scanned_slots_pass_barrier_witness:
  "scan_object concrete_env sample_mem 8 True 0x3000 =
     Some (Inr [ArtSlot 0x3000, ArtSlot 0x3008, ArtSlot 0x3010]) \<and>
   mmtk_object_reference_write_post concrete_env (api_with (\<lambda>_. sample_bump) (\<lambda>_ w. w)) sample_mem 0x5000 0x3000
     (ArtSlot 0x3010) (Some 0x4000) () = Inr ()"
proof -
  let ?K = "api_with (\<lambda>_. sample_bump) (\<lambda>_ w. w) :: (bool, unit) core"
  have scan: "scan_object concrete_env sample_mem 8 True 0x3000 =
      Some (Inr [ArtSlot 0x3000, ArtSlot 0x3008, ArtSlot 0x3010])"
    using plain_instance_scan [OF sample_instance]
    by (simp add: sample_slots slot_load_def decompress_def env_with_def klass_slot_eq sample_load sample_words_def)
  have size: "get_object_size concrete_env sample_mem 0x3000 = Inr 20"
    using plain_instance_size [OF sample_instance] by (simp add: sample_heap)
  have holder: "reference_holder concrete_env sample_mem 0x3000 0x6000"
    using sample_instance by (simp add: reference_holder_def)
  have "\<exists>slots. scan_object concrete_env sample_mem 8 True 0x3000 = Some (Inr slots) \<and>
    (\<forall>slot \<in> set slots. mmtk_object_reference_write_post concrete_env ?K sample_mem 0x5000 0x3000 slot (Some 0x4000) () =
       Inr (core_write_post ?K 0x5000 0x3000 slot (Some 0x4000) ()))"
    by (rule scanned_slots_pass_barrier [OF concrete_env_laws(2,4) holder size]) simp_all
  then show ?thesis using scan by simp
qed

end
